(* ===== verification/Socks_Prelude.thy ===== *)
theory Socks_Prelude
  imports "HOL-Library.Word"
begin

text \<open>
  Shared vocabulary of the development: the machine integers of the library
  (\<open>unsigned char\<close>, \<open>std::uint16_t\<close>, \<open>std::uint32_t\<close>), byte buffers with checked
  accesses, the faults a C++ operation can end in, big-endian packing of words into
  bytes, and the lemmas the component theories share.

  A C++ function that indexes a raw buffer is translated with the checked accesses
  \<open>get_byte\<close> and \<open>put_byte\<close>: an access outside the buffer is undefined behaviour in C++
  and the value \<open>Inl Out_of_bounds\<close> here.  \<open>BOOST_ASSERT\<close> is \<open>boost_assert\<close>, which
  gives \<open>Inl Assertion_failed\<close> when its condition is false (the default build of Boost,
  in which assertions are checked).  \<open>asio::ip::address::to_v4\<close> on an IPv6 address throws
  \<open>bad_address_cast\<close>, which is \<open>Inl Bad_address_cast\<close>; \<open>tcp::socket::local_endpoint\<close> on a
  socket that was never opened throws \<open>system_error\<close>, which is \<open>Inl Socket_not_open\<close>,
  and \<open>remote_endpoint\<close> on a socket whose peer is gone throws \<open>Inl Socket_not_connected\<close>.
  \<open>value()\<close> of a \<open>boost::system::result\<close> that holds an error throws \<open>system_error\<close>, which is
  \<open>Inl Result_holds_error\<close>.
\<close>

unbundle bit_operations_syntax

named_theorems socks_defs \<open>definitions of small operations, for unfolding\<close>
named_theorems wire_simps \<open>facts about messages on the wire\<close>

type_synonym byte = "8 word"
type_synonym u16 = "16 word"
type_synonym u32 = "32 word"
type_synonym buffer = "byte list"

section \<open>Faults and results\<close>

datatype fault = Assertion_failed | Out_of_bounds | Bad_address_cast | Socket_not_open
  | Socket_not_connected | Result_holds_error

type_synonym 'a result = "fault + 'a"

fun res_bind :: "('e + 'a) \<Rightarrow> ('a \<Rightarrow> 'e + 'b) \<Rightarrow> 'e + 'b" where
  "res_bind (Inl e) f = Inl e"
| "res_bind (Inr x) f = f x"

lemma res_bind_eq_Inr:
  "res_bind m f = Inr y \<longleftrightarrow> (\<exists>x. m = Inr x \<and> f x = Inr y)"
  by (cases m) auto

lemma res_bind_eq_Inl:
  "res_bind m f = Inl e \<longleftrightarrow> m = Inl e \<or> (\<exists>x. m = Inr x \<and> f x = Inl e)"
  by (cases m) auto

lemma res_bind_assoc: "res_bind (res_bind m f) g = res_bind m (\<lambda>x. res_bind (f x) g)"
  by (cases m) auto

lemma res_bind_case_prod:
  "res_bind (case p of (a, b) \<Rightarrow> f a b) g = (case p of (a, b) \<Rightarrow> res_bind (f a b) g)"
  by (cases p) simp

lemma res_bind_cong [cong]:
  "m = m' \<Longrightarrow> (\<And>x. m' = Inr x \<Longrightarrow> f x = g x) \<Longrightarrow> res_bind m f = res_bind m' g"
  by (cases m') auto

definition boost_assert :: "bool \<Rightarrow> 'a result \<Rightarrow> 'a result" where
  "boost_assert P r = (if P then r else Inl Assertion_failed)"

lemma boost_assert_True [simp]: "P \<Longrightarrow> boost_assert P r = r"
  and boost_assert_False [simp]: "\<not> P \<Longrightarrow> boost_assert P r = Inl Assertion_failed"
  by (simp_all add: boost_assert_def)

lemma boost_assert_eq_Inr: "boost_assert P r = Inr x \<longleftrightarrow> P \<and> r = Inr x"
  by (simp add: boost_assert_def)

text \<open>\<open>result<T>::value()\<close>, of a \<open>boost::system::result\<close> with an error code or a value.\<close>

definition result_value :: "'e + 'a \<Rightarrow> 'a result" where
  "result_value r = (case r of Inl e \<Rightarrow> Inl Result_holds_error | Inr x \<Rightarrow> Inr x)"

lemma result_value_simps [simp]:
  "result_value (Inl e) = Inl Result_holds_error" "result_value (Inr x) = Inr x"
  by (simp_all add: result_value_def)

lemma result_value_eq_Inl: "result_value r = Inl f \<longleftrightarrow> f = Result_holds_error \<and> isl r"
  by (cases r) auto

text \<open>
  \<open>res_post E Q m\<close>: if \<open>m\<close> ends in a fault then \<open>E\<close> holds of it, and if it returns a value
  then \<open>Q\<close> holds of that.  The rules below are used step by step along the code.
\<close>

definition res_post :: "('e \<Rightarrow> bool) \<Rightarrow> ('a \<Rightarrow> bool) \<Rightarrow> 'e + 'a \<Rightarrow> bool" where
  "res_post E Q m = (case m of Inl e \<Rightarrow> E e | Inr x \<Rightarrow> Q x)"

lemma res_post_simps [simp]:
  "res_post E Q (Inl e) = E e" "res_post E Q (Inr x) = Q x"
  by (simp_all add: res_post_def)

lemma res_post_bind:
  "res_post E R m \<Longrightarrow> (\<And>x. m = Inr x \<Longrightarrow> R x \<Longrightarrow> res_post E Q (f x)) \<Longrightarrow> res_post E Q (res_bind m f)"
  by (cases m) simp_all

lemma res_post_bind_prod:
  "res_post E (\<lambda>(a, b). R a b) m \<Longrightarrow> (\<And>a b. R a b \<Longrightarrow> res_post E Q (f a b))
    \<Longrightarrow> res_post E Q (res_bind m (\<lambda>(a, b). f a b))"
  by (cases m) auto

lemma res_post_bind_quad:
  "res_post E (\<lambda>(a, b, c, d). R a b c d) m \<Longrightarrow> (\<And>a b c d. R a b c d \<Longrightarrow> res_post E Q (f a b c d))
    \<Longrightarrow> res_post E Q (res_bind m (\<lambda>(a, b, c, d). f a b c d))"
  by (cases m) auto

lemma res_post_mono:
  "res_post E R m \<Longrightarrow> (\<And>e. E e \<Longrightarrow> E' e) \<Longrightarrow> (\<And>x. R x \<Longrightarrow> Q x) \<Longrightarrow> res_post E' Q m"
  by (cases m) simp_all

lemma res_post_InrD: "res_post E Q m \<Longrightarrow> m = Inr x \<Longrightarrow> Q x"
  and res_post_InlD: "res_post E Q m \<Longrightarrow> m = Inl e \<Longrightarrow> E e"
  by simp_all

section \<open>Byte buffers\<close>

definition get_byte :: "buffer \<Rightarrow> nat \<Rightarrow> byte result" where
  "get_byte buf i = (if i < length buf then Inr (buf ! i) else Inl Out_of_bounds)"

definition put_byte :: "buffer \<Rightarrow> nat \<Rightarrow> byte \<Rightarrow> buffer result" where
  "put_byte buf i b = (if i < length buf then Inr (buf[i := b]) else Inl Out_of_bounds)"

text \<open>The loop \<open>for (auto b: bs) buffer[i++] = b;\<close>, which leaves \<open>i\<close> behind the last byte.\<close>

fun put_bytes :: "buffer \<Rightarrow> nat \<Rightarrow> byte list \<Rightarrow> (buffer \<times> nat) result" where
  "put_bytes buf i [] = Inr (buf, i)"
| "put_bytes buf i (b # bs) = res_bind (put_byte buf i b) (\<lambda>buf. put_bytes buf (Suc i) bs)"

text \<open>\<open>std::memcpy(dst, buffer + i, k)\<close>: the \<open>k\<close> bytes at \<open>i\<close>.\<close>

definition get_bytes :: "buffer \<Rightarrow> nat \<Rightarrow> nat \<Rightarrow> byte list result" where
  "get_bytes buf i k =
     (if i + k \<le> length buf then Inr (take k (drop i buf)) else Inl Out_of_bounds)"

text \<open>\<open>asio::buffer(p, n)\<close> as the source of a write: the first \<open>n\<close> bytes at \<open>p\<close>.\<close>

definition const_buffer :: "buffer \<Rightarrow> nat \<Rightarrow> byte list result" where
  "const_buffer buf n = (if n \<le> length buf then Inr (take n buf) else Inl Out_of_bounds)"

lemma get_byte_in [simp]: "Suc i \<le> length buf \<Longrightarrow> get_byte buf i = Inr (buf ! i)"
  by (simp add: get_byte_def)

lemma get_byte_eq_Inr: "get_byte buf i = Inr b \<longleftrightarrow> i < length buf \<and> b = buf ! i"
  by (auto simp: get_byte_def)

lemma get_bytes_in [simp]:
  "i + k \<le> length buf \<Longrightarrow> get_bytes buf i k = Inr (take k (drop i buf))"
  by (simp add: get_bytes_def)

lemma slice_Suc: "i < length xs \<Longrightarrow> take (Suc k) (drop i xs) = xs ! i # take k (drop (Suc i) xs)"
  by (simp add: take_Suc_conv_app_nth Cons_nth_drop_Suc [symmetric])

lemma list_two_cases [case_names none one more]:
  obtains "xs = []" | a where "xs = [a]" | a b ys where "xs = a # b # ys"
  by (metis list.exhaust)

lemma slice_two: "i + 2 \<le> length xs \<Longrightarrow> take 2 (drop i xs) = [xs ! i, xs ! (i + 1)]"
  by (simp add: numeral_2_eq_2 slice_Suc)

lemma take_two: "2 \<le> length xs \<Longrightarrow> take 2 xs = [xs ! 0, xs ! 1]"
  using slice_two [of 0 xs] by simp

lemma slice_four:
  "i + 4 \<le> length xs \<Longrightarrow> take 4 (drop i xs) = [xs ! i, xs ! (i + 1), xs ! (i + 2), xs ! (i + 3)]"
  by (simp add: numeral_eq_Suc slice_Suc)

lemma take_four_split:
  assumes "4 \<le> n" and "n \<le> length xs"
  shows "take n xs = xs ! 0 # xs ! 1 # xs ! 2 # xs ! 3 # take (n - 4) (drop 4 xs)"
proof -
  from assms have "4 \<le> length xs" by simp
  then obtain a b c d ys where "xs = a # b # c # d # ys"
    by (auto simp: Suc_le_length_iff numeral_eq_Suc)
  moreover from assms(1) obtain m where "n = 4 + m" by (metis le_iff_add)
  ultimately show ?thesis by (simp add: numeral_eq_Suc)
qed

lemma put_byte_length: "put_byte buf i b = Inr buf' \<Longrightarrow> length buf' = length buf"
  by (auto simp: put_byte_def split: if_splits)

lemma put_bytes_length: "put_bytes buf i bs = Inr (buf', j) \<Longrightarrow> length buf' = length buf"
  by (induction bs arbitrary: buf i) (auto simp: res_bind_eq_Inr dest: put_byte_length)

lemma const_buffer_in [simp]: "n \<le> length buf \<Longrightarrow> const_buffer buf n = Inr (take n buf)"
  by (simp add: const_buffer_def)

text \<open>
  A buffer whose first bytes have been written: \<open>overlay xs buf\<close> is \<open>buf\<close> with \<open>xs\<close> in
  front.  The serializers write a message from left to right, so each of them turns
  \<open>overlay [] buf\<close> into \<open>overlay msg buf\<close>.
\<close>

definition overlay :: "byte list \<Rightarrow> buffer \<Rightarrow> buffer" where
  "overlay xs buf = xs @ drop (length xs) buf"

lemma overlay_Nil [simp]: "overlay [] buf = buf"
  by (simp add: overlay_def)

lemma length_overlay: "length xs \<le> length buf \<Longrightarrow> length (overlay xs buf) = length buf"
  by (simp add: overlay_def)

lemma take_overlay [simp]: "n = length xs \<Longrightarrow> take n (overlay xs buf) = xs"
  by (simp add: overlay_def)

lemma put_byte_overlay:
  "i = length xs \<Longrightarrow> Suc i \<le> length buf
    \<Longrightarrow> put_byte (overlay xs buf) i b = Inr (overlay (xs @ [b]) buf)"
  by (simp add: put_byte_def overlay_def list_update_append Cons_nth_drop_Suc [symmetric])

lemma put_byte_overlay_first:
  "Suc 0 \<le> length buf \<Longrightarrow> put_byte buf 0 b = Inr (overlay [b] buf)"
  using put_byte_overlay [of 0 "[]" buf b] by simp

lemma put_bytes_overlay:
  "i = length xs \<Longrightarrow> i + length bs \<le> length buf
    \<Longrightarrow> put_bytes (overlay xs buf) i bs = Inr (overlay (xs @ bs) buf, i + length bs)"
proof (induction bs arbitrary: i xs)
  case Nil
  then show ?case by simp
next
  case (Cons b bs)
  then show ?case
    using Cons.IH [of "Suc i" "xs @ [b]"] by (simp add: put_byte_overlay)
qed

lemmas overlay_writes = put_byte_overlay put_byte_overlay_first put_bytes_overlay length_overlay

section \<open>Big-endian packing\<close>

text \<open>
  \<open>be_word bs\<close> reads a word from its bytes, most significant first, as the parsers do
  (\<open>ip = (ip << 8) | buffer[i]\<close>); \<open>be_bytes n w\<close> is the \<open>n\<close> bytes of \<open>w\<close> in network order,
  as \<open>to_bytes()\<close> of an Asio address gives them.
\<close>

definition be_word :: "byte list \<Rightarrow> 'a::len word" where
  "be_word bs = foldl (\<lambda>w b. push_bit 8 w OR ucast b) 0 bs"

fun be_bytes :: "nat \<Rightarrow> 'a::len word \<Rightarrow> byte list" where
  "be_bytes 0 w = []"
| "be_bytes (Suc n) w = be_bytes n (drop_bit 8 w) @ [ucast w]"

lemma length_be_bytes [simp]: "length (be_bytes n w) = n"
  by (induction n arbitrary: w) simp_all

lemma be_word_Nil [simp]: "be_word [] = 0"
  by (simp add: be_word_def)

lemma be_word_snoc: "be_word (bs @ [b]) = push_bit 8 (be_word bs) OR ucast b"
  by (simp add: be_word_def)

lemma push_take_drop_byte:
  fixes w :: "'a::len word"
  shows "push_bit 8 (take_bit m (drop_bit 8 w)) OR ucast (ucast w :: byte) = take_bit (m + 8) w"
proof (rule bit_word_eqI)
  fix k
  assume k: "k < LENGTH('a)"
  show "bit (push_bit 8 (take_bit m (drop_bit 8 w)) OR ucast (ucast w :: byte)) k
      = bit (take_bit (m + 8) w) k"
  proof (cases "k < 8")
    case True
    with k show ?thesis by (simp add: bit_simps)
  next
    case False
    with k show ?thesis by (auto simp: bit_simps)
  qed
qed

lemma be_word_be_bytes_take: "be_word (be_bytes n w) = take_bit (8 * n) w"
proof (induction n arbitrary: w)
  case 0
  show ?case by simp
next
  case (Suc n)
  then show ?case
    by (simp add: be_word_snoc push_take_drop_byte add.commute)
qed

lemma be_word_be_bytes:
  fixes w :: "'a::len word"
  assumes "LENGTH('a) \<le> 8 * n"
  shows "be_word (be_bytes n w) = w"
  using assms by (simp add: be_word_be_bytes_take take_bit_word_eq_self)

lemma bit_byte_lt: "bit (b :: byte) k \<Longrightarrow> k < 8"
  using bit_imp_le_length [of b k] by simp

lemma be_word_bound:
  "take_bit (8 * length bs) (be_word bs :: 'a::len word) = be_word bs"
proof (induction bs rule: rev_induct)
  case Nil
  show ?case by simp
next
  case (snoc b bs)
  let ?w = "be_word bs :: 'a word"
  have "take_bit (8 + 8 * length bs) (push_bit 8 ?w OR ucast b)
      = push_bit 8 (take_bit (8 * length bs) ?w) OR ucast b"
    by (rule bit_word_eqI) (auto simp: bit_simps dest: bit_byte_lt)
  with snoc show ?case by (simp add: be_word_snoc del: take_bit_or)
qed

lemma be_bytes_be_word:
  "8 * length bs \<le> LENGTH('a) \<Longrightarrow> be_bytes (length bs) (be_word bs :: 'a::len word) = bs"
proof (induction bs rule: rev_induct)
  case Nil
  show ?case by simp
next
  case (snoc b bs)
  let ?w = "be_word bs :: 'a word"
  have low: "ucast (push_bit 8 ?w OR ucast b) = b"
    using snoc.prems by (intro bit_word_eqI) (auto simp: bit_simps)
  have "drop_bit 8 (push_bit 8 (take_bit (8 * length bs) ?w) OR ucast b)
      = take_bit (8 * length bs) ?w"
    using snoc.prems by (intro bit_word_eqI) (auto simp: bit_simps dest: bit_byte_lt)
  then have high: "drop_bit 8 (push_bit 8 ?w OR ucast b) = ?w"
    by (simp add: be_word_bound)
  from snoc show ?case by (simp add: be_word_snoc low high del: drop_bit_or)
qed

lemma be_word_Cons:
  "(be_word (b # bs) :: 'a::len word) = push_bit (8 * length bs) (ucast b) OR be_word bs"
proof (induction bs rule: rev_induct)
  case Nil
  show ?case by (simp add: be_word_def)
next
  case (snoc c bs)
  have "(be_word (b # bs @ [c]) :: 'a word) = push_bit 8 (be_word (b # bs)) OR ucast c"
    using be_word_snoc [of "b # bs" c] by simp
  with snoc show ?case by (simp add: be_word_snoc or.assoc)
qed

lemma be_bytes_two: "be_bytes 2 w = [ucast (drop_bit 8 w), ucast w]"
  by (simp add: numeral_2_eq_2)

lemma be_bytes_three:
  "be_bytes 3 w = [ucast (drop_bit 16 w), ucast (drop_bit 8 w), ucast w]"
proof -
  have three: "(3 :: nat) = Suc (Suc (Suc 0))" by simp
  show ?thesis by (subst three) simp
qed

lemma be_bytes_four:
  "be_bytes 4 w = [ucast (drop_bit 24 w), ucast (drop_bit 16 w), ucast (drop_bit 8 w), ucast w]"
proof -
  have four: "(4 :: nat) = Suc (Suc (Suc (Suc 0)))" by simp
  show ?thesis by (subst four) simp
qed

end
