(* ===== verification/Protocol_Codes.thy ===== *)
theory Protocol_Codes
  imports Socks_Prelude
begin

text \<open>
  The one-byte code spaces of the protocol (\<open>include/boost/socks/detail/*.hpp\<close>): the
  scoped enumerations with their values, and the conversions \<open>to_address_type\<close>,
  \<open>to_reply_code\<close> and \<open>to_reply_code_v4\<close> (\<open>detail/impl/*.ipp\<close>).  Each conversion takes an
  \<open>unsigned\<close> and switches on \<open>static_cast<E>(v)\<close>, where the underlying type of \<open>E\<close> is one
  byte: the cast keeps the low eight bits.
\<close>

section \<open>Enumerations\<close>

datatype version = Socks_4 | Socks_5

fun version_value :: "version \<Rightarrow> byte" where
  "version_value Socks_4 = 0x04"
| "version_value Socks_5 = 0x05"

datatype command = Cmd_connect | Cmd_bind | Cmd_udp_associate | Cmd_unsupported

fun command_value :: "command \<Rightarrow> byte" where
  "command_value Cmd_connect = 0x01"
| "command_value Cmd_bind = 0x02"
| "command_value Cmd_udp_associate = 0x03"
| "command_value Cmd_unsupported = 0xFF"

datatype address_type = Atyp_ip_v4 | Atyp_domain_name | Atyp_ip_v6 | Atyp_unknown

fun address_type_value :: "address_type \<Rightarrow> byte" where
  "address_type_value Atyp_ip_v4 = 0x01"
| "address_type_value Atyp_domain_name = 0x03"
| "address_type_value Atyp_ip_v6 = 0x04"
| "address_type_value Atyp_unknown = 0xFF"

datatype auth_method =
    Auth_no_authentication | Auth_gssapi | Auth_userpass | Auth_challenge_handshake
  | Auth_unassigned | Auth_challenge_response | Auth_ssl | Auth_nds_authentication
  | Auth_multi_authentication_framework | Auth_json_parameter_block
  | Auth_private_authentication | Auth_no_acceptable_method

fun auth_method_value :: "auth_method \<Rightarrow> byte" where
  "auth_method_value Auth_no_authentication = 0x00"
| "auth_method_value Auth_gssapi = 0x01"
| "auth_method_value Auth_userpass = 0x02"
| "auth_method_value Auth_challenge_handshake = 0x03"
| "auth_method_value Auth_unassigned = 0x04"
| "auth_method_value Auth_challenge_response = 0x05"
| "auth_method_value Auth_ssl = 0x06"
| "auth_method_value Auth_nds_authentication = 0x07"
| "auth_method_value Auth_multi_authentication_framework = 0x08"
| "auth_method_value Auth_json_parameter_block = 0x09"
| "auth_method_value Auth_private_authentication = 0x80"
| "auth_method_value Auth_no_acceptable_method = 0xFF"

datatype reply_code =
    Rep_succeeded | Rep_general_failure | Rep_connection_not_allowed_by_ruleset
  | Rep_network_unreachable | Rep_host_unreachable | Rep_connection_refused
  | Rep_ttl_expired | Rep_command_not_supported | Rep_address_type_not_supported
  | Rep_unassigned

fun reply_code_value :: "reply_code \<Rightarrow> byte" where
  "reply_code_value Rep_succeeded = 0x00"
| "reply_code_value Rep_general_failure = 0x01"
| "reply_code_value Rep_connection_not_allowed_by_ruleset = 0x02"
| "reply_code_value Rep_network_unreachable = 0x03"
| "reply_code_value Rep_host_unreachable = 0x04"
| "reply_code_value Rep_connection_refused = 0x05"
| "reply_code_value Rep_ttl_expired = 0x06"
| "reply_code_value Rep_command_not_supported = 0x07"
| "reply_code_value Rep_address_type_not_supported = 0x08"
| "reply_code_value Rep_unassigned = 0xFF"

datatype reply_code_v4 =
    Rep4_request_granted | Rep4_request_rejected_or_failed
  | Rep4_cannot_connect_to_identd_on_the_client
  | Rep4_client_and_identd_report_different_user_ids | Rep4_unassigned

fun reply_code_v4_value :: "reply_code_v4 \<Rightarrow> byte" where
  "reply_code_v4_value Rep4_request_granted = 90"
| "reply_code_v4_value Rep4_request_rejected_or_failed = 91"
| "reply_code_v4_value Rep4_cannot_connect_to_identd_on_the_client = 92"
| "reply_code_v4_value Rep4_client_and_identd_report_different_user_ids = 93"
| "reply_code_v4_value Rep4_unassigned = 0xFF"

lemma address_type_value_eq [simp]:
  "address_type_value a = address_type_value b \<longleftrightarrow> a = b"
  by (cases a; cases b) simp_all

lemma reply_code_value_eq [simp]: "reply_code_value a = reply_code_value b \<longleftrightarrow> a = b"
  by (cases a; cases b) simp_all

lemma reply_code_v4_value_eq [simp]:
  "reply_code_v4_value a = reply_code_v4_value b \<longleftrightarrow> a = b"
  by (cases a; cases b) simp_all

section \<open>Conversions from an integer\<close>

definition to_address_type :: "u32 \<Rightarrow> address_type" where
  "to_address_type v =
     (let e = (ucast v :: byte) in
      if e = address_type_value Atyp_ip_v4 then Atyp_ip_v4
      else if e = address_type_value Atyp_domain_name then Atyp_domain_name
      else if e = address_type_value Atyp_ip_v6 then Atyp_ip_v6
      else Atyp_unknown)"

definition to_reply_code :: "u32 \<Rightarrow> reply_code" where
  "to_reply_code v =
     (let e = (ucast v :: byte) in
      if e = reply_code_value Rep_succeeded then Rep_succeeded
      else if e = reply_code_value Rep_general_failure then Rep_general_failure
      else if e = reply_code_value Rep_connection_not_allowed_by_ruleset
        then Rep_connection_not_allowed_by_ruleset
      else if e = reply_code_value Rep_network_unreachable then Rep_network_unreachable
      else if e = reply_code_value Rep_host_unreachable then Rep_host_unreachable
      else if e = reply_code_value Rep_connection_refused then Rep_connection_refused
      else if e = reply_code_value Rep_ttl_expired then Rep_ttl_expired
      else if e = reply_code_value Rep_command_not_supported then Rep_command_not_supported
      else if e = reply_code_value Rep_address_type_not_supported
        then Rep_address_type_not_supported
      else Rep_unassigned)"

definition to_reply_code_v4 :: "u32 \<Rightarrow> reply_code_v4" where
  "to_reply_code_v4 v =
     (let e = (ucast v :: byte) in
      if e = reply_code_v4_value Rep4_request_granted then Rep4_request_granted
      else if e = reply_code_v4_value Rep4_request_rejected_or_failed
        then Rep4_request_rejected_or_failed
      else if e = reply_code_v4_value Rep4_cannot_connect_to_identd_on_the_client
        then Rep4_cannot_connect_to_identd_on_the_client
      else if e = reply_code_v4_value Rep4_client_and_identd_report_different_user_ids
        then Rep4_client_and_identd_report_different_user_ids
      else Rep4_unassigned)"

text \<open>
  The callers pass a byte of the buffer, which is promoted to \<open>unsigned\<close>; the cast inside
  the conversion then gives that byte back.
\<close>

lemma ucast_byte_promote [simp]: "(ucast (ucast (b :: byte) :: u32) :: byte) = b"
  by (rule bit_word_eqI) (auto simp: bit_simps)

lemma to_address_type_value [wire_simps]:
  "to_address_type (ucast (address_type_value a)) = a"
  by (cases a) (simp_all add: to_address_type_def)

lemma to_reply_code_value [wire_simps]: "to_reply_code (ucast (reply_code_value r)) = r"
  by (cases r) (simp_all add: to_reply_code_def)

lemma to_reply_code_v4_value [wire_simps]:
  "to_reply_code_v4 (ucast (reply_code_v4_value r)) = r"
  by (cases r) (simp_all add: to_reply_code_v4_def)

lemma to_address_type_byte:
  "to_address_type (ucast (b :: byte))
   = (if b = 1 then Atyp_ip_v4 else if b = 3 then Atyp_domain_name
      else if b = 4 then Atyp_ip_v6 else Atyp_unknown)"
  by (simp add: to_address_type_def)

lemma to_reply_code_succeeded_iff:
  "to_reply_code (ucast (b :: byte)) = Rep_succeeded \<longleftrightarrow> b = 0"
  by (simp add: to_reply_code_def)

lemma to_reply_code_v4_granted_iff:
  "to_reply_code_v4 (ucast (b :: byte)) = Rep4_request_granted \<longleftrightarrow> b = 90"
  by (simp add: to_reply_code_v4_def)

text \<open>A byte below \<open>n\<close> is one of the first \<open>n\<close> bytes; for case analysis on code ranges.\<close>

lemma byte_less_cases:
  fixes b :: byte
  assumes "unat b < n" and "n \<le> 256"
  shows "b \<in> word_of_nat ` {..<n}"
proof
  show "b = word_of_nat (unat b)" by simp
  from assms show "unat b \<in> {..<n}" by simp
qed

lemma reply_code_range:
  fixes b :: byte
  shows "to_reply_code (ucast b) = Rep_unassigned \<longleftrightarrow> 9 \<le> unat b"
proof (cases "unat b < 9")
  case True
  then have "b \<in> word_of_nat ` {..<9}" by (rule byte_less_cases) simp
  then have "to_reply_code (ucast b) \<noteq> Rep_unassigned"
    by (auto simp: to_reply_code_def lessThan_nat_numeral lessThan_Suc)
  with True show ?thesis by simp
next
  case False
  then have "b \<notin> {0, 1, 2, 3, 4, 5, 6, 7, 8}" by auto
  with False show ?thesis by (simp add: to_reply_code_def)
qed

lemma reply_code_v4_range:
  fixes b :: byte
  shows "to_reply_code_v4 (ucast b) = Rep4_unassigned \<longleftrightarrow> b \<notin> {90, 91, 92, 93}"
  by (auto simp: to_reply_code_v4_def)

section \<open>Properties\<close>

text \<open>
  The conversions take an \<open>unsigned\<close> and keep its low
  byte before they compare: a value of 256 or more is read as the code of its remainder, so
  \<open>0x100\<close> converts to \<open>succeeded\<close> and not to \<open>unassigned\<close>.
\<close>
theorem reply_code_conversion_narrows:
  "to_reply_code v = to_reply_code (v mod 256)
   \<and> to_reply_code_v4 v = to_reply_code_v4 (v mod 256)
   \<and> to_address_type v = to_address_type (v mod 256)
   \<and> to_reply_code 0x100 = Rep_succeeded"
proof -
  have "(ucast (v mod 256) :: byte) = ucast v"
  proof -
    have "v mod 256 = take_bit 8 v" by (simp add: take_bit_eq_mod)
    moreover have "(ucast (take_bit 8 v) :: byte) = ucast v"
      by (rule bit_word_eqI) (auto simp: bit_simps)
    ultimately show ?thesis by simp
  qed
  then show ?thesis
    by (simp add: to_reply_code_def to_reply_code_v4_def to_address_type_def)
qed

end
