(* ===== verification/Socks_Error.thy ===== *)
theory Socks_Error
  imports Protocol_Codes
begin

text \<open>
  Error codes and conditions (\<open>include/boost/socks/error.hpp\<close>, \<open>impl/error.hpp\<close>,
  \<open>impl/error.ipp\<close>).  A \<open>boost::system::error_code\<close> is a value in a category; the
  categories the code meets are the library's own (\<open>Socks_code\<close>), Asio's named errors
  (\<open>Asio_code\<close>), the system category with value 0 for \<open>error_code{}\<close> (\<open>System_code\<close>) and
  any other (\<open>Other_code\<close>).  \<open>message\<close>, \<open>default_error_condition\<close> and \<open>failed\<close> are the
  virtual functions of the library's category; for every other category \<open>failed\<close> is the
  documented default of Boost.System, a value other than 0.
\<close>

section \<open>The enumerations \<open>error\<close> and \<open>condition\<close>\<close>

datatype error =
    Err_succeeded | Err_general_failure | Err_connection_not_allowed_by_ruleset
  | Err_network_unreachable | Err_host_unreachable | Err_connection_refused
  | Err_ttl_expired | Err_command_not_supported | Err_address_type_not_supported
  | Err_request_granted | Err_request_rejected_or_failed
  | Err_cannot_connect_to_identd_on_the_client
  | Err_client_and_identd_report_different_user_ids
  | Err_bad_reply_size | Err_bad_reply_version | Err_bad_server_choice
  | Err_bad_reply_command | Err_bad_reserved_component | Err_bad_address_type
  | Err_access_denied | Err_unassigned_reply_code

fun error_value :: "error \<Rightarrow> int" where
  "error_value Err_succeeded = 0x00"
| "error_value Err_general_failure = 0x01"
| "error_value Err_connection_not_allowed_by_ruleset = 0x02"
| "error_value Err_network_unreachable = 0x03"
| "error_value Err_host_unreachable = 0x04"
| "error_value Err_connection_refused = 0x05"
| "error_value Err_ttl_expired = 0x06"
| "error_value Err_command_not_supported = 0x07"
| "error_value Err_address_type_not_supported = 0x08"
| "error_value Err_request_granted = 90"
| "error_value Err_request_rejected_or_failed = 91"
| "error_value Err_cannot_connect_to_identd_on_the_client = 92"
| "error_value Err_client_and_identd_report_different_user_ids = 93"
| "error_value Err_bad_reply_size = 0xA0"
| "error_value Err_bad_reply_version = 0xA1"
| "error_value Err_bad_server_choice = 0xA2"
| "error_value Err_bad_reply_command = 0xA3"
| "error_value Err_bad_reserved_component = 0xA4"
| "error_value Err_bad_address_type = 0xA5"
| "error_value Err_access_denied = 0xA6"
| "error_value Err_unassigned_reply_code = 0xFF"

datatype condition = Cond_succeeded | Cond_reply_error | Cond_io_error

fun condition_value :: "condition \<Rightarrow> int" where
  "condition_value Cond_succeeded = 0"
| "condition_value Cond_reply_error = 1"
| "condition_value Cond_io_error = 2"

text \<open>The enumerators are a finite type, so a switch over them can search them.\<close>

instantiation error :: enum
begin

definition enum_error :: "error list" where
  "enum_error =
     [Err_succeeded, Err_general_failure, Err_connection_not_allowed_by_ruleset,
      Err_network_unreachable, Err_host_unreachable, Err_connection_refused,
      Err_ttl_expired, Err_command_not_supported, Err_address_type_not_supported,
      Err_request_granted, Err_request_rejected_or_failed,
      Err_cannot_connect_to_identd_on_the_client,
      Err_client_and_identd_report_different_user_ids,
      Err_bad_reply_size, Err_bad_reply_version, Err_bad_server_choice,
      Err_bad_reply_command, Err_bad_reserved_component, Err_bad_address_type,
      Err_access_denied, Err_unassigned_reply_code]"

definition enum_all_error :: "(error \<Rightarrow> bool) \<Rightarrow> bool" where
  "enum_all_error P \<longleftrightarrow> list_all P (enum_class.enum :: error list)"

definition enum_ex_error :: "(error \<Rightarrow> bool) \<Rightarrow> bool" where
  "enum_ex_error P \<longleftrightarrow> list_ex P (enum_class.enum :: error list)"

instance
proof
  have mem: "e \<in> set (enum_class.enum :: error list)" for e :: error
    by (cases e) (simp_all add: enum_error_def)
  then show "UNIV = set (enum_class.enum :: error list)" by blast
  show "distinct (enum_class.enum :: error list)" by (simp add: enum_error_def)
  show "enum_class.enum_all P \<longleftrightarrow> Ball UNIV P" for P :: "error \<Rightarrow> bool"
    using mem by (auto simp: enum_all_error_def list_all_iff)
  show "enum_class.enum_ex P \<longleftrightarrow> Bex UNIV P" for P :: "error \<Rightarrow> bool"
    using mem by (auto simp: enum_ex_error_def list_ex_iff)
qed

end

text \<open>\<open>static_cast<error>(ev)\<close> in a switch: the enumerator with that value, if there is one.\<close>

definition error_of_int :: "int \<Rightarrow> error option" where
  "error_of_int ev = find (\<lambda>e. error_value e = ev) enum_class.enum"

lemma error_of_int_value [simp]: "error_of_int (error_value e) = Some e"
  by (cases e) (simp_all add: error_of_int_def enum_error_def)

lemma error_of_int_SomeD: "error_of_int ev = Some e \<Longrightarrow> ev = error_value e"
  by (auto simp: error_of_int_def find_Some_iff)

lemma error_value_inj: "error_value a = error_value b \<longleftrightarrow> a = b"
  by (metis error_of_int_value option.inject)

lemma error_of_int_NoneD: "error_of_int ev = None \<Longrightarrow> error_value e \<noteq> ev"
  by auto

section \<open>Error codes\<close>

datatype asio_error =
    Asio_eof | Asio_message_size | Asio_no_protocol_option | Asio_host_not_found
  | Asio_operation_not_supported

datatype error_code =
    System_code int
  | Socks_code int
  | Asio_code asio_error
  | Other_code nat int

text \<open>\<open>error_code{}\<close>, the value every operation starts from, and Asio's end of stream.\<close>

definition ec_ok :: error_code where
  "ec_ok = System_code 0"

abbreviation eof :: error_code where
  "eof \<equiv> Asio_code Asio_eof"

text \<open>\<open>make_error_code(error e)\<close>, through which \<open>ec = error::x\<close> goes.\<close>

definition make_error_code :: "error \<Rightarrow> error_code" where
  "make_error_code e = Socks_code (error_value e)"

text \<open>\<open>ec = static_cast<error>(to_reply_code(b))\<close>: the value of the reply code.\<close>

definition error_code_of_reply :: "reply_code \<Rightarrow> error_code" where
  "error_code_of_reply r = Socks_code (uint (reply_code_value r))"

definition error_code_of_reply_v4 :: "reply_code_v4 \<Rightarrow> error_code" where
  "error_code_of_reply_v4 r = Socks_code (uint (reply_code_v4_value r))"

fun socks_message :: "error \<Rightarrow> string" where
  "socks_message Err_succeeded = ''Succeeded''"
| "socks_message Err_general_failure = ''General SOCKS server failure''"
| "socks_message Err_connection_not_allowed_by_ruleset = ''Connection not allowed by ruleset''"
| "socks_message Err_network_unreachable = ''Network unreachable''"
| "socks_message Err_host_unreachable = ''Host unreachable''"
| "socks_message Err_connection_refused = ''Connection refused''"
| "socks_message Err_ttl_expired = ''TTL expired''"
| "socks_message Err_command_not_supported = ''Command not supported''"
| "socks_message Err_address_type_not_supported = ''Address type not supported''"
| "socks_message Err_request_granted = ''Request granted''"
| "socks_message Err_request_rejected_or_failed = ''General SOCKS server failure''"
| "socks_message Err_cannot_connect_to_identd_on_the_client
     = ''Connection not allowed by ruleset''"
| "socks_message Err_client_and_identd_report_different_user_ids = ''Network unreachable''"
| "socks_message Err_bad_reply_size = ''Bad reply size''"
| "socks_message Err_bad_reply_version = ''Bad reply version''"
| "socks_message Err_bad_server_choice = ''Bad authentication server choice''"
| "socks_message Err_bad_reply_command = ''Bad reply command''"
| "socks_message Err_bad_reserved_component = ''Bad reserved component''"
| "socks_message Err_bad_address_type = ''Bad address type''"
| "socks_message Err_access_denied = ''Access denied''"
| "socks_message Err_unassigned_reply_code = ''Unassigned''"

definition message :: "int \<Rightarrow> string" where
  "message ev = (case error_of_int ev of Some e \<Rightarrow> socks_message e | None \<Rightarrow> ''Unassigned'')"

section \<open>Error conditions\<close>

text \<open>
  An \<open>error_condition\<close> is a value in the library's condition category, or the value and
  category of an error code (\<open>{ev, *this}\<close>, the default of every category).
\<close>

datatype error_condition = Socks_condition int | Code_condition error_code

definition make_error_condition :: "condition \<Rightarrow> error_condition" where
  "make_error_condition c = Socks_condition (condition_value c)"

definition condition_message :: "int \<Rightarrow> string" where
  "condition_message cv =
     (if cv = condition_value Cond_succeeded then ''SOCKS reply successful''
      else if cv = condition_value Cond_reply_error then ''SOCKS reply with error''
      else if cv = condition_value Cond_io_error then ''I/O error''
      else ''Unassigned'')"

fun error_condition_class :: "error \<Rightarrow> condition" where
  "error_condition_class Err_succeeded = Cond_succeeded"
| "error_condition_class Err_request_granted = Cond_succeeded"
| "error_condition_class Err_general_failure = Cond_reply_error"
| "error_condition_class Err_connection_not_allowed_by_ruleset = Cond_reply_error"
| "error_condition_class Err_network_unreachable = Cond_reply_error"
| "error_condition_class Err_host_unreachable = Cond_reply_error"
| "error_condition_class Err_connection_refused = Cond_reply_error"
| "error_condition_class Err_ttl_expired = Cond_reply_error"
| "error_condition_class Err_command_not_supported = Cond_reply_error"
| "error_condition_class Err_address_type_not_supported = Cond_reply_error"
| "error_condition_class Err_request_rejected_or_failed = Cond_reply_error"
| "error_condition_class Err_cannot_connect_to_identd_on_the_client = Cond_reply_error"
| "error_condition_class Err_client_and_identd_report_different_user_ids = Cond_reply_error"
| "error_condition_class Err_unassigned_reply_code = Cond_reply_error"
| "error_condition_class Err_bad_reply_size = Cond_io_error"
| "error_condition_class Err_bad_reply_version = Cond_io_error"
| "error_condition_class Err_bad_server_choice = Cond_io_error"
| "error_condition_class Err_bad_reply_command = Cond_io_error"
| "error_condition_class Err_bad_reserved_component = Cond_io_error"
| "error_condition_class Err_bad_address_type = Cond_io_error"
| "error_condition_class Err_access_denied = Cond_io_error"

text \<open>The names of the two categories, which are the same.\<close>

definition socks_category_name :: string where
  "socks_category_name = ''boost.socks''"

definition condition_category_name :: string where
  "condition_category_name = ''boost.socks''"

text \<open>The category's \<open>default_error_condition(int ev)\<close> and \<open>failed(int ev)\<close>.\<close>

definition socks_default_error_condition :: "int \<Rightarrow> error_condition" where
  "socks_default_error_condition ev =
     (case error_of_int ev of
        Some e \<Rightarrow> make_error_condition (error_condition_class e)
      | None \<Rightarrow> Code_condition (Socks_code ev))"

definition socks_failed :: "int \<Rightarrow> bool" where
  "socks_failed ev \<longleftrightarrow> ev \<noteq> 0 \<and> ev \<noteq> 90"

text \<open>\<open>error_code::failed\<close> and \<open>default_error_condition\<close> dispatch on the category.\<close>

fun failed :: "error_code \<Rightarrow> bool" where
  "failed (System_code v) = (v \<noteq> 0)"
| "failed (Socks_code v) = socks_failed v"
| "failed (Asio_code e) = True"
| "failed (Other_code c v) = (v \<noteq> 0)"

fun default_error_condition :: "error_code \<Rightarrow> error_condition" where
  "default_error_condition (Socks_code v) = socks_default_error_condition v"
| "default_error_condition ec = Code_condition ec"

text \<open>\<open>ec == condition::c\<close>.\<close>

definition matches_condition :: "error_code \<Rightarrow> condition \<Rightarrow> bool" where
  "matches_condition ec c \<longleftrightarrow> default_error_condition ec = make_error_condition c"

lemma not_failed_ok [simp]: "\<not> failed ec_ok"
  by (simp add: ec_ok_def)

lemma ec_ok_neq [simp]:
  "ec_ok \<noteq> eof" "eof \<noteq> ec_ok" "ec_ok \<noteq> make_error_code e" "make_error_code e \<noteq> ec_ok"
  "make_error_code e \<noteq> eof" "eof \<noteq> make_error_code e"
  by (simp_all add: ec_ok_def make_error_code_def)

lemma make_error_code_eq [simp]: "make_error_code a = make_error_code b \<longleftrightarrow> a = b"
  by (simp add: make_error_code_def error_value_inj)

lemma failed_make_error_code [simp]:
  "failed (make_error_code e) \<longleftrightarrow> e \<noteq> Err_succeeded \<and> e \<noteq> Err_request_granted"
  by (cases e) (simp_all add: make_error_code_def socks_failed_def)

lemma condition_value_eq [simp]: "condition_value a = condition_value b \<longleftrightarrow> a = b"
  by (cases a; cases b) simp_all

lemma matches_condition_make_error_code:
  "matches_condition (make_error_code e) c \<longleftrightarrow> error_condition_class e = c"
  by (simp add: matches_condition_def make_error_code_def socks_default_error_condition_def
      make_error_condition_def)

section \<open>Reply codes as error codes\<close>

fun error_of_reply :: "reply_code \<Rightarrow> error" where
  "error_of_reply Rep_succeeded = Err_succeeded"
| "error_of_reply Rep_general_failure = Err_general_failure"
| "error_of_reply Rep_connection_not_allowed_by_ruleset
     = Err_connection_not_allowed_by_ruleset"
| "error_of_reply Rep_network_unreachable = Err_network_unreachable"
| "error_of_reply Rep_host_unreachable = Err_host_unreachable"
| "error_of_reply Rep_connection_refused = Err_connection_refused"
| "error_of_reply Rep_ttl_expired = Err_ttl_expired"
| "error_of_reply Rep_command_not_supported = Err_command_not_supported"
| "error_of_reply Rep_address_type_not_supported = Err_address_type_not_supported"
| "error_of_reply Rep_unassigned = Err_unassigned_reply_code"

fun error_of_reply_v4 :: "reply_code_v4 \<Rightarrow> error" where
  "error_of_reply_v4 Rep4_request_granted = Err_request_granted"
| "error_of_reply_v4 Rep4_request_rejected_or_failed = Err_request_rejected_or_failed"
| "error_of_reply_v4 Rep4_cannot_connect_to_identd_on_the_client
     = Err_cannot_connect_to_identd_on_the_client"
| "error_of_reply_v4 Rep4_client_and_identd_report_different_user_ids
     = Err_client_and_identd_report_different_user_ids"
| "error_of_reply_v4 Rep4_unassigned = Err_unassigned_reply_code"

lemma error_code_of_reply_eq: "error_code_of_reply r = make_error_code (error_of_reply r)"
  by (cases r) (simp_all add: error_code_of_reply_def make_error_code_def)

lemma error_code_of_reply_v4_eq:
  "error_code_of_reply_v4 r = make_error_code (error_of_reply_v4 r)"
  by (cases r) (simp_all add: error_code_of_reply_v4_def make_error_code_def)

lemma error_of_reply_simps [simp]:
  "error_of_reply r = Err_succeeded \<longleftrightarrow> r = Rep_succeeded"
  "error_of_reply r \<noteq> Err_request_granted"
  "error_condition_class (error_of_reply r) = Cond_succeeded \<longleftrightarrow> r = Rep_succeeded"
  by (cases r; simp)+

lemma error_of_reply_v4_simps [simp]:
  "error_of_reply_v4 r = Err_request_granted \<longleftrightarrow> r = Rep4_request_granted"
  "error_of_reply_v4 r \<noteq> Err_succeeded"
  "error_condition_class (error_of_reply_v4 r) = Cond_succeeded \<longleftrightarrow> r = Rep4_request_granted"
  by (cases r; simp)+

text \<open>The test of the reply parsers, \<open>ec != condition::succeeded\<close>.\<close>

lemma reply_matches_succeeded [simp]:
  "matches_condition (error_code_of_reply r) Cond_succeeded \<longleftrightarrow> r = Rep_succeeded"
  "matches_condition (error_code_of_reply_v4 r4) Cond_succeeded \<longleftrightarrow> r4 = Rep4_request_granted"
  by (simp_all add: error_code_of_reply_eq error_code_of_reply_v4_eq
      matches_condition_make_error_code)

lemma failed_reply_iff [simp]:
  "failed (error_code_of_reply r) \<longleftrightarrow> r \<noteq> Rep_succeeded"
  "failed (error_code_of_reply_v4 r4) \<longleftrightarrow> r4 \<noteq> Rep4_request_granted"
  by (simp_all add: error_code_of_reply_eq error_code_of_reply_v4_eq)

section \<open>Properties\<close>

text \<open>
  The category's two classifications agree on every integer
  the code may hold, assigned to an enumerator or not: \<open>failed\<close> says no error exactly for
  the values whose default condition is \<open>condition::succeeded\<close>, so \<open>ec.failed()\<close> and
  \<open>ec != condition::succeeded\<close> are interchangeable on the library's codes; and a code never
  compares equal to two conditions.
\<close>
theorem failed_iff_not_succeeded:
  "(\<not> failed (Socks_code ev) \<longleftrightarrow> matches_condition (Socks_code ev) Cond_succeeded)
   \<and> (matches_condition (Socks_code ev) c \<and> matches_condition (Socks_code ev) c' \<longrightarrow> c = c')"
proof (cases "error_of_int ev")
  case None
  then have "ev \<noteq> 0" "ev \<noteq> 90"
    using error_of_int_NoneD [of ev Err_succeeded] error_of_int_NoneD [of ev Err_request_granted]
    by auto
  then show ?thesis
    by (simp add: socks_failed_def matches_condition_def socks_default_error_condition_def None
        make_error_condition_def)
next
  case (Some e)
  then have ev: "Socks_code ev = make_error_code e"
    using error_of_int_SomeD [OF Some] by (simp add: make_error_code_def)
  show ?thesis
    unfolding ev failed_make_error_code matches_condition_make_error_code
    by (cases e) auto
qed

theorem failed_iff_not_succeeded_witness:
  "matches_condition (Socks_code 5) Cond_reply_error
    \<and> \<not> matches_condition (Socks_code 5) Cond_io_error"
proof -
  have m: "matches_condition (Socks_code 5) Cond_reply_error"
    using matches_condition_make_error_code [of Err_connection_refused Cond_reply_error]
    by (simp add: make_error_code_def)
  with failed_iff_not_succeeded [of 5 Cond_reply_error Cond_io_error] show ?thesis by auto
qed

text \<open>
  A reply byte, read through \<open>to_reply_code\<close> and cast to
  \<open>error\<close>, gives a code of the category that is a success for 0 only and an
  error of the condition \<open>reply_error\<close> for every other byte, never an I/O error; bytes from 9
  on give \<open>unassigned_reply_code\<close>.  For SOCKS4 the same holds with 90 and the bytes
  outside 90 to 93.
\<close>
theorem reply_codes_classified:
  fixes b :: byte
  shows "matches_condition (error_code_of_reply (to_reply_code (ucast b)))
      (if b = 0 then Cond_succeeded else Cond_reply_error)
    \<and> (error_code_of_reply (to_reply_code (ucast b)) = make_error_code Err_unassigned_reply_code
        \<longleftrightarrow> 9 \<le> unat b)
    \<and> matches_condition (error_code_of_reply_v4 (to_reply_code_v4 (ucast b)))
      (if b = 90 then Cond_succeeded else Cond_reply_error)
    \<and> (error_code_of_reply_v4 (to_reply_code_v4 (ucast b)) = make_error_code Err_unassigned_reply_code
        \<longleftrightarrow> b \<notin> {90, 91, 92, 93})"
proof -
  have cls: "error_condition_class (error_of_reply r)
      = (if r = Rep_succeeded then Cond_succeeded else Cond_reply_error)" for r
    by (cases r) simp_all
  have cls4: "error_condition_class (error_of_reply_v4 r)
      = (if r = Rep4_request_granted then Cond_succeeded else Cond_reply_error)" for r
    by (cases r) simp_all
  have un: "error_of_reply r = Err_unassigned_reply_code \<longleftrightarrow> r = Rep_unassigned"
    "error_of_reply_v4 r4 = Err_unassigned_reply_code \<longleftrightarrow> r4 = Rep4_unassigned" for r r4
    by (cases r; simp) (cases r4; simp)
  show ?thesis
    by (simp add: error_code_of_reply_eq error_code_of_reply_v4_eq un reply_code_range
        reply_code_v4_range matches_condition_make_error_code cls cls4
        to_reply_code_succeeded_iff to_reply_code_v4_granted_iff)
qed

text \<open>
  The message of a code tells the errors apart, with one exception:
  the SOCKS4 replies 91, 92 and 93 carry the messages of the SOCKS5 replies 1, 2 and 3, so a
  rejected \<open>identd\<close> user reads as \<open>Network unreachable\<close>.  Every value that is no enumerator
  reads as an unassigned reply code.
\<close>
theorem message_collisions:
  "(message (error_value e) = message (error_value e') \<longleftrightarrow> e = e' \<or>
      {e, e'} \<in> {{Err_general_failure, Err_request_rejected_or_failed},
        {Err_connection_not_allowed_by_ruleset, Err_cannot_connect_to_identd_on_the_client},
        {Err_network_unreachable, Err_client_and_identd_report_different_user_ids}})
    \<and> (error_of_int v = None \<longrightarrow> message v = message (error_value Err_unassigned_reply_code))"
proof
  show "message (error_value e) = message (error_value e') \<longleftrightarrow> e = e' \<or>
      {e, e'} \<in> {{Err_general_failure, Err_request_rejected_or_failed},
        {Err_connection_not_allowed_by_ruleset, Err_cannot_connect_to_identd_on_the_client},
        {Err_network_unreachable, Err_client_and_identd_report_different_user_ids}}"
    unfolding message_def error_of_int_value option.case
    by (cases e; cases e'; simp add: doubleton_eq_iff)
  show "error_of_int v = None \<longrightarrow> message v = message (error_value Err_unassigned_reply_code)"
    unfolding message_def error_of_int_value option.case by simp
qed

theorem message_collisions_witness:
  "message 7777 = ''Unassigned'' \<and> message 93 = message 3"
proof -
  have "error_of_int 7777 = None" by (simp add: error_of_int_def enum_error_def)
  then have "message 7777 = ''Unassigned''"
    using message_collisions [of Err_succeeded Err_succeeded 7777]
    by (simp add: message_def [of "error_value _"] del: error_value.simps)
  moreover have "message (error_value Err_client_and_identd_report_different_user_ids)
      = message (error_value Err_network_unreachable)"
    unfolding message_def error_of_int_value by simp
  ultimately show ?thesis by simp
qed

end
