(* ===== verification/Endpoints.thy ===== *)
theory Endpoints
  imports Socks_Prelude
begin

text \<open>
  The values the operations pass around: strings, endpoints and authentication options
  (\<open>include/boost/socks/auth_options.hpp\<close>, \<open>endpoint.hpp\<close>, \<open>string_view.hpp\<close>, and
  \<open>domain_endpoint_view\<close> of \<open>impl/connect.hpp\<close>).

  An \<open>asio::ip::tcp::endpoint\<close> is an address and a port; an address is an IPv4 address of
  32 bits or an IPv6 address of 16 bytes.  \<open>to_bytes()\<close> gives the bytes in network order,
  \<open>make_address_v4\<close> and \<open>make_address_v6\<close> are its inverses, \<open>to_v4()\<close> throws on an IPv6
  address, and \<open>endpoint{}\<close> is \<open>0.0.0.0:0\<close>: that is what the code relies on.
\<close>

section \<open>Strings\<close>

text \<open>\<open>static_cast<unsigned char>(c)\<close> and its inverse \<open>reinterpret_cast<char*>\<close>.\<close>

definition byte_of_char :: "char \<Rightarrow> byte" where
  "byte_of_char c = word_of_nat (of_char c)"

definition char_of_byte :: "byte \<Rightarrow> char" where
  "char_of_byte b = char_of (unat b)"

abbreviation bytes_of_string :: "string \<Rightarrow> byte list" where
  "bytes_of_string s \<equiv> map byte_of_char s"

lemma char_of_byte_of_char [simp]: "char_of_byte (byte_of_char c) = c"
  by (simp add: char_of_byte_def byte_of_char_def unat_of_nat)

lemma byte_of_char_of_byte [simp]: "byte_of_char (char_of_byte b) = b"
proof -
  have "unat b < 256" using unsigned_less [of b] by simp
  then show ?thesis by (simp add: char_of_byte_def byte_of_char_def)
qed

lemma string_of_bytes_of_string [simp]: "map char_of_byte (bytes_of_string s) = s"
  by (simp add: o_def)

text \<open>\<open>to_string(std::uint16_t)\<close> of the example programs: the decimal digits.\<close>

fun decimal :: "nat \<Rightarrow> string" where
  "decimal n = (if n < 10 then [char_of (48 + n)]
     else decimal (n div 10) @ [char_of (48 + n mod 10)])"

declare decimal.simps [simp del]

definition to_string :: "u16 \<Rightarrow> string" where
  "to_string v = decimal (unat v)"

section \<open>Endpoints\<close>

datatype address = Address_v4 u32 | Address_v6 "128 word"

fun is_v4 :: "address \<Rightarrow> bool" where
  "is_v4 (Address_v4 ip) = True"
| "is_v4 (Address_v6 ip) = False"

fun is_v6 :: "address \<Rightarrow> bool" where
  "is_v6 (Address_v4 ip) = False"
| "is_v6 (Address_v6 ip) = True"

text \<open>\<open>address.to_v4().to_bytes()\<close> and \<open>address.to_v6().to_bytes()\<close>.\<close>

fun to_v4_bytes :: "address \<Rightarrow> byte list result" where
  "to_v4_bytes (Address_v4 ip) = Inr (be_bytes 4 ip)"
| "to_v4_bytes (Address_v6 ip) = Inl Bad_address_cast"

fun to_v6_bytes :: "address \<Rightarrow> byte list result" where
  "to_v6_bytes (Address_v4 ip) = Inl Bad_address_cast"
| "to_v6_bytes (Address_v6 ip) = Inr (be_bytes 16 ip)"

definition make_address_v4 :: "u32 \<Rightarrow> address" where
  "make_address_v4 ip = Address_v4 ip"

definition make_address_v6 :: "byte list \<Rightarrow> address" where
  "make_address_v6 bs = Address_v6 (be_word bs)"

record endpoint =
  ep_address :: address
  ep_port :: u16

definition endpoint_default :: endpoint where
  "endpoint_default = \<lparr>ep_address = Address_v4 0, ep_port = 0\<rparr>"

lemma endpoint_default_simps [simp]:
  "ep_address endpoint_default = Address_v4 0" "ep_port endpoint_default = 0"
  by (simp_all add: endpoint_default_def)

text \<open>\<open>domain_endpoint_view\<close> and \<open>domain_endpoint\<close>, which convert into each other.\<close>

record domain_endpoint =
  de_domain :: string
  de_port :: u16

lemma domain_endpoint_eta [simp]: "\<lparr>de_domain = de_domain d, de_port = de_port d\<rparr> = d"
  by simp

section \<open>Authentication options\<close>

record auth_options =
  is_userpass :: bool
  user :: string
  pass :: string

text \<open>The constructors from \<open>auth_options::none\<close> and \<open>auth_options::userpass\<close>, and \<open>code()\<close>.\<close>

definition auth_none :: auth_options where
  "auth_none = \<lparr>is_userpass = False, user = '''', pass = ''''\<rparr>"

definition auth_userpass :: "string \<Rightarrow> string \<Rightarrow> auth_options" where
  "auth_userpass u p = \<lparr>is_userpass = True, user = u, pass = p\<rparr>"

definition auth_code :: "auth_options \<Rightarrow> byte" where
  "auth_code opt = (if is_userpass opt then 0x02 else 0x00)"

lemma auth_code_eq [simp]:
  "auth_code opt = 0 \<longleftrightarrow> \<not> is_userpass opt" "auth_code opt = 2 \<longleftrightarrow> is_userpass opt"
  by (simp_all add: auth_code_def)

lemma auth_code_constructors [simp]:
  "auth_code auth_none = 0" "auth_code (auth_userpass u p) = 2"
  by (simp_all add: auth_code_def auth_none_def auth_userpass_def)

lemma auth_options_simps [simp]:
  "is_userpass auth_none = False" "is_userpass (auth_userpass u p) = True"
  "user (auth_userpass u p) = u" "pass (auth_userpass u p) = p"
  by (simp_all add: auth_none_def auth_userpass_def)

section \<open>Ports and addresses on the wire\<close>

text \<open>The two bytes the serializers compute for a port are its big-endian bytes.\<close>

lemma port_bytes:
  fixes p :: u16
  shows "[ucast (drop_bit 8 p), ucast (p AND 0xFF)] = be_bytes 2 p"
proof -
  have "p AND 0xFF = take_bit 8 p" by (simp add: take_bit_eq_mask mask_eq_exp_minus_1)
  moreover have "(ucast (take_bit 8 p) :: byte) = ucast p"
    by (rule bit_word_eqI) (auto simp: bit_simps)
  ultimately show ?thesis by (simp add: numeral_2_eq_2)
qed

lemma be_word_two: "be_word [a, b] = push_bit 8 (ucast a) OR (ucast b :: 'a::len word)"
  by (simp add: be_word_def)

lemma be_word_four:
  "be_word [a, b, c, d]
   = push_bit 8 (push_bit 8 (push_bit 8 (ucast a) OR ucast b) OR ucast c)
     OR (ucast d :: 'a::len word)"
  by (simp add: be_word_def)

lemma port_roundtrip [wire_simps]: "be_word (be_bytes 2 (p :: u16)) = p"
  by (rule be_word_be_bytes) simp

lemma v4_roundtrip [wire_simps]: "be_word (be_bytes 4 (ip :: u32)) = ip"
  by (rule be_word_be_bytes) simp

lemma v6_roundtrip [wire_simps]: "be_word (be_bytes 16 (ip :: 128 word)) = ip"
  by (rule be_word_be_bytes) simp

section \<open>Properties\<close>

text \<open>
  The decimal string of a port holds digits only and reads back as
  the port, so the service name handed to a resolver names that port and no other.
\<close>
theorem to_string_roundtrip:
  "foldl (\<lambda>n c. 10 * n + (of_char c - 48)) 0 (to_string p) = unat p
    \<and> list_all (\<lambda>c. 48 \<le> (of_char c :: nat) \<and> (of_char c :: nat) \<le> 57) (to_string p)"
proof -
  have "foldl (\<lambda>n c. 10 * n + (of_char c - 48)) 0 (decimal n) = n
      \<and> list_all (\<lambda>c. 48 \<le> (of_char c :: nat) \<and> (of_char c :: nat) \<le> 57) (decimal n)" for n
  proof (induction n rule: decimal.induct)
    case (1 n)
    have digit: "of_char (char_of (48 + m) :: char) = (48 + m :: nat)" if "m < 10" for m
      using that by simp
    show ?case
    proof (cases "n < 10")
      case True
      with digit [OF True] show ?thesis by (simp add: decimal.simps [of n])
    next
      case False
      with 1 digit [of "n mod 10"] show ?thesis by (simp add: decimal.simps [of n])
    qed
  qed
  then show ?thesis by (simp add: to_string_def)
qed

end
