(* ===== verification/Messages_V5.thy ===== *)
theory Messages_V5
  imports Socks_Error Endpoints
begin

text \<open>
  The SOCKS5 messages of the client (\<open>include/boost/socks/impl/connect.ipp\<close> and the
  \<open>dst_addr_size\<close> overloads of \<open>impl/connect.hpp\<close>): the serializers that write a message
  into a caller's buffer and return its length, and the functions that check a reply.

  A serializer takes the buffer, the size \<open>n\<close> the caller passes and the value to write; it
  returns the buffer it has written and the number of bytes.  A pointer into a buffer
  (\<open>&buffer[3]\<close>) is the buffer with an offset.  An \<open>error_code&\<close> parameter is passed in and
  returned.
\<close>

section \<open>Greeting\<close>

definition prepare_greeting_methods ::
    "buffer \<Rightarrow> nat \<Rightarrow> byte list \<Rightarrow> (buffer \<times> nat) result" where
  "prepare_greeting_methods buf n methods =
     boost_assert (length methods \<le> 255) (
     boost_assert (n \<ge> 2 + length methods) (
     res_bind (put_byte buf 0 (version_value Socks_5)) (\<lambda>buf.
     res_bind (put_byte buf 1 (word_of_nat (length methods))) (\<lambda>buf.
     put_bytes buf 2 methods))))"

definition prepare_greeting ::
    "buffer \<Rightarrow> nat \<Rightarrow> auth_options \<Rightarrow> (buffer \<times> nat) result" where
  "prepare_greeting buf n opt =
     (if auth_code opt \<noteq> 0x00 then prepare_greeting_methods buf n [0x00, auth_code opt]
      else prepare_greeting_methods buf n [0x00])"

definition validate_server_choice_code ::
    "buffer \<Rightarrow> nat \<Rightarrow> byte \<Rightarrow> error_code \<Rightarrow> error_code result" where
  "validate_server_choice_code buf n code ec =
     (if n < 2 then Inr (make_error_code Err_bad_reply_size)
      else res_bind (get_byte buf 0) (\<lambda>b0.
        if b0 \<noteq> 0x05 then Inr (make_error_code Err_bad_reply_version)
        else res_bind (get_byte buf 1) (\<lambda>b1.
          if b1 \<noteq> code \<and> b1 \<noteq> 0x00 then Inr (make_error_code Err_bad_server_choice)
          else Inr ec)))"

definition validate_server_choice ::
    "buffer \<Rightarrow> nat \<Rightarrow> auth_options \<Rightarrow> error_code \<Rightarrow> error_code result" where
  "validate_server_choice buf n opt ec = validate_server_choice_code buf n (auth_code opt) ec"

section \<open>Username and password\<close>

definition prepare_userpass_request ::
    "buffer \<Rightarrow> nat \<Rightarrow> auth_options \<Rightarrow> (buffer \<times> nat) result" where
  "prepare_userpass_request buf n opt =
     boost_assert (length (user opt) \<le> 255) (
     boost_assert (length (pass opt) \<le> 255) (
     let n2 = length (user opt) + length (pass opt) + 3 in
     boost_assert (n \<ge> n2) (
     res_bind (put_byte buf 0 0x01) (\<lambda>buf.
     res_bind (put_byte buf 1 (word_of_nat (length (user opt)))) (\<lambda>buf.
     res_bind (put_bytes buf 2 (bytes_of_string (user opt))) (\<lambda>(buf, i).
     res_bind (put_byte buf i (word_of_nat (length (user opt)))) (\<lambda>buf.
     res_bind (put_bytes buf (i + 1) (bytes_of_string (pass opt))) (\<lambda>(buf, i).
     boost_assert (i = n2) (Inr (buf, n2))))))))))"

definition validate_userpass_reply ::
    "buffer \<Rightarrow> nat \<Rightarrow> error_code \<Rightarrow> error_code result" where
  "validate_userpass_reply buf n ec =
     (if n \<noteq> 2 then Inr (make_error_code Err_bad_reply_size)
      else res_bind (get_byte buf 0) (\<lambda>b0.
        if b0 \<noteq> 0x01 then Inr (make_error_code Err_bad_reply_version)
        else res_bind (get_byte buf 1) (\<lambda>b1.
          if b1 \<noteq> 0x00 then Inr (make_error_code Err_access_denied)
          else Inr ec)))"

section \<open>Connect request\<close>

definition dst_addr_size_endpoint :: "endpoint \<Rightarrow> nat" where
  "dst_addr_size_endpoint target_host = (if is_v6 (ep_address target_host) then 16 else 4)"

definition dst_addr_size_domain :: "domain_endpoint \<Rightarrow> nat" where
  "dst_addr_size_domain target_host = 1 + length (de_domain target_host)"

definition write_ver_cmd_rsv :: "buffer \<Rightarrow> buffer result" where
  "write_ver_cmd_rsv buf =
     res_bind (put_byte buf 0 (version_value Socks_5)) (\<lambda>buf.
     res_bind (put_byte buf 1 (command_value Cmd_connect)) (\<lambda>buf.
     put_byte buf 2 0x00))"

definition write_target_host_endpoint ::
    "buffer \<Rightarrow> nat \<Rightarrow> endpoint \<Rightarrow> (buffer \<times> nat) result" where
  "write_target_host_endpoint buf p target_host =
     res_bind (put_byte buf p (address_type_value
       (if is_v6 (ep_address target_host) then Atyp_ip_v6 else Atyp_ip_v4))) (\<lambda>buf.
     res_bind (if is_v4 (ep_address target_host) then to_v4_bytes (ep_address target_host)
               else to_v6_bytes (ep_address target_host)) (\<lambda>ip_bytes.
     res_bind (put_bytes buf (p + 1) ip_bytes) (\<lambda>(buf, i).
     res_bind (put_byte buf i (ucast (drop_bit 8 (ep_port target_host)))) (\<lambda>buf.
     res_bind (put_byte buf (i + 1) (ucast (ep_port target_host AND 0xFF))) (\<lambda>buf.
     Inr (buf, i + 2 - p))))))"

definition write_target_host_domain ::
    "buffer \<Rightarrow> nat \<Rightarrow> domain_endpoint \<Rightarrow> (buffer \<times> nat) result" where
  "write_target_host_domain buf p target_host =
     res_bind (put_byte buf p (address_type_value Atyp_domain_name)) (\<lambda>buf.
     res_bind (put_byte buf (p + 1) (word_of_nat (length (de_domain target_host)))) (\<lambda>buf.
     res_bind (put_bytes buf (p + 2) (bytes_of_string (de_domain target_host))) (\<lambda>(buf, i).
     res_bind (put_byte buf i (ucast (drop_bit 8 (de_port target_host)))) (\<lambda>buf.
     res_bind (put_byte buf (i + 1) (ucast (de_port target_host AND 0xFF))) (\<lambda>buf.
     Inr (buf, i + 2 - p))))))"

definition prepare_request_endpoint ::
    "buffer \<Rightarrow> nat \<Rightarrow> endpoint \<Rightarrow> (buffer \<times> nat) result" where
  "prepare_request_endpoint buf n target_host =
     (let n_dst_addr = dst_addr_size_endpoint target_host in
      boost_assert (n \<ge> 6 + n_dst_addr) (
      res_bind (write_ver_cmd_rsv buf) (\<lambda>buf.
      res_bind (write_target_host_endpoint buf 3 target_host) (\<lambda>(buf, _).
      Inr (buf, n_dst_addr + 6)))))"

definition prepare_request_domain ::
    "buffer \<Rightarrow> nat \<Rightarrow> domain_endpoint \<Rightarrow> (buffer \<times> nat) result" where
  "prepare_request_domain buf n target_host =
     (let n_dst_addr = dst_addr_size_domain target_host in
      boost_assert (n \<ge> 6 + n_dst_addr) (
      res_bind (write_ver_cmd_rsv buf) (\<lambda>buf.
      res_bind (write_target_host_domain buf 3 target_host) (\<lambda>(buf, _).
      Inr (buf, n_dst_addr + 6)))))"

text \<open>The template parameter \<open>Endpoint\<close> of the connect operations and its overloads.\<close>

datatype target = To_endpoint endpoint | To_domain domain_endpoint

fun prepare_request :: "buffer \<Rightarrow> nat \<Rightarrow> target \<Rightarrow> (buffer \<times> nat) result" where
  "prepare_request buf n (To_endpoint ep) = prepare_request_endpoint buf n ep"
| "prepare_request buf n (To_domain d) = prepare_request_domain buf n d"

section \<open>Connect reply\<close>

definition parse_reply_v5 :: "buffer \<Rightarrow> nat \<Rightarrow> (endpoint \<times> error_code) result" where
  "parse_reply_v5 buf n =
     boost_assert (n = 10 \<or> n = 22) (
     res_bind (get_byte buf 0) (\<lambda>ver.
     if ver \<noteq> 0x05 then Inr (endpoint_default, make_error_code Err_bad_reply_version)
     else res_bind (get_byte buf 1) (\<lambda>rep.
     let ec = error_code_of_reply (to_reply_code (ucast rep)) in
     if \<not> matches_condition ec Cond_succeeded then Inr (endpoint_default, ec)
     else res_bind (get_byte buf 3) (\<lambda>atyp.
     case to_address_type (ucast atyp) of
       Atyp_ip_v4 \<Rightarrow>
         if n \<noteq> 10 then Inr (endpoint_default, make_error_code Err_bad_reply_size)
         else
           res_bind (get_byte buf 4) (\<lambda>b4. res_bind (get_byte buf 5) (\<lambda>b5.
           res_bind (get_byte buf 6) (\<lambda>b6. res_bind (get_byte buf 7) (\<lambda>b7.
           res_bind (get_byte buf 8) (\<lambda>b8. res_bind (get_byte buf 9) (\<lambda>b9.
           let ip = (ucast b4 :: u32); ip = push_bit 8 ip OR ucast b5;
               ip = push_bit 8 ip OR ucast b6; ip = push_bit 8 ip OR ucast b7;
               port = (ucast b8 :: u16); port = push_bit 8 port; port = port OR ucast b9
           in Inr (\<lparr>ep_address = make_address_v4 ip, ep_port = port\<rparr>, ec)))))))
     | Atyp_ip_v6 \<Rightarrow>
         if n \<noteq> 22 then Inr (endpoint_default, make_error_code Err_bad_reply_size)
         else
           res_bind (get_bytes buf 4 16) (\<lambda>ip.
           res_bind (get_byte buf 20) (\<lambda>b20. res_bind (get_byte buf 21) (\<lambda>b21.
           let port = (ucast b20 :: u16); port = push_bit 8 port; port = port OR ucast b21
           in Inr (\<lparr>ep_address = make_address_v6 ip, ep_port = port\<rparr>, ec))))
     | _ \<Rightarrow> Inr (endpoint_default, make_error_code Err_bad_address_type)))))"

section \<open>What the serializers put on the wire\<close>

text \<open>
  The messages as byte strings.  \<open>greeting_methods\<close> is the list of methods the client
  offers; \<open>userpass_bytes\<close> is the request the code sends and \<open>rfc1929_bytes\<close> the request of
  RFC 1929, with the length of the password in front of the password.
\<close>

definition greeting_methods :: "auth_options \<Rightarrow> byte list" where
  "greeting_methods opt = (if is_userpass opt then [0x00, 0x02] else [0x00])"

definition greeting_bytes :: "auth_options \<Rightarrow> byte list" where
  "greeting_bytes opt =
     [0x05, word_of_nat (length (greeting_methods opt))] @ greeting_methods opt"

definition userpass_bytes :: "auth_options \<Rightarrow> byte list" where
  "userpass_bytes opt =
     [0x01, word_of_nat (length (user opt))] @ bytes_of_string (user opt)
     @ [word_of_nat (length (user opt))] @ bytes_of_string (pass opt)"

definition rfc1929_bytes :: "string \<Rightarrow> string \<Rightarrow> byte list" where
  "rfc1929_bytes u p =
     [0x01, word_of_nat (length u)] @ bytes_of_string u
     @ [word_of_nat (length p)] @ bytes_of_string p"

fun address_bytes :: "address \<Rightarrow> byte list" where
  "address_bytes (Address_v4 ip) = be_bytes 4 ip"
| "address_bytes (Address_v6 ip) = be_bytes 16 ip"

fun address_atyp :: "address \<Rightarrow> byte" where
  "address_atyp (Address_v4 ip) = 0x01"
| "address_atyp (Address_v6 ip) = 0x04"

definition endpoint_bytes :: "endpoint \<Rightarrow> byte list" where
  "endpoint_bytes ep =
     address_atyp (ep_address ep) # address_bytes (ep_address ep) @ be_bytes 2 (ep_port ep)"

definition domain_bytes :: "domain_endpoint \<Rightarrow> byte list" where
  "domain_bytes d =
     [0x03, word_of_nat (length (de_domain d))] @ bytes_of_string (de_domain d)
     @ be_bytes 2 (de_port d)"

fun target_bytes :: "target \<Rightarrow> byte list" where
  "target_bytes (To_endpoint ep) = endpoint_bytes ep"
| "target_bytes (To_domain d) = domain_bytes d"

definition connect_request_bytes :: "target \<Rightarrow> byte list" where
  "connect_request_bytes t = [0x05, 0x01, 0x00] @ target_bytes t"

definition connect_reply_bytes :: "byte \<Rightarrow> endpoint \<Rightarrow> byte list" where
  "connect_reply_bytes rep ep = [0x05, rep, 0x00] @ endpoint_bytes ep"

fun dst_addr_size :: "target \<Rightarrow> nat" where
  "dst_addr_size (To_endpoint ep) = dst_addr_size_endpoint ep"
| "dst_addr_size (To_domain d) = dst_addr_size_domain d"

lemma length_greeting_bytes [wire_simps]:
  "length (greeting_bytes opt) = (if is_userpass opt then 4 else 3)"
  by (simp add: greeting_bytes_def greeting_methods_def)

lemma length_userpass_bytes [wire_simps]:
  "length (userpass_bytes opt) = length (user opt) + length (pass opt) + 3"
  by (simp add: userpass_bytes_def)

lemma length_address_bytes [wire_simps]:
  "length (address_bytes a) = (if is_v6 a then 16 else 4)"
  by (cases a) simp_all

lemma length_connect_request_bytes [wire_simps]:
  "length (connect_request_bytes t) = 6 + dst_addr_size t"
  by (cases t) (simp_all add: connect_request_bytes_def endpoint_bytes_def domain_bytes_def
      dst_addr_size_endpoint_def dst_addr_size_domain_def length_address_bytes)

lemma length_connect_reply_bytes [wire_simps]:
  "length (connect_reply_bytes rep ep) = (if is_v6 (ep_address ep) then 22 else 10)"
  by (simp add: connect_reply_bytes_def endpoint_bytes_def length_address_bytes)

section \<open>The serializers\<close>

lemma prepare_greeting_eq:
  assumes "n \<le> length buf"
  shows "prepare_greeting buf n opt =
    (if length (greeting_bytes opt) \<le> n
     then Inr (overlay (greeting_bytes opt) buf, length (greeting_bytes opt))
     else Inl Assertion_failed)"
  using assms
  by (auto simp: prepare_greeting_def prepare_greeting_methods_def greeting_bytes_def
      greeting_methods_def auth_code_def overlay_writes boost_assert_def)

lemma prepare_userpass_request_eq:
  assumes "n \<le> length buf"
  shows "prepare_userpass_request buf n opt =
    (if length (user opt) \<le> 255 \<and> length (pass opt) \<le> 255
        \<and> length (userpass_bytes opt) \<le> n
     then Inr (overlay (userpass_bytes opt) buf, length (userpass_bytes opt))
     else Inl Assertion_failed)"
  using assms
  by (auto simp: prepare_userpass_request_def userpass_bytes_def overlay_writes
      boost_assert_def Let_def)

lemma write_ver_cmd_rsv_eq:
  "3 \<le> length buf \<Longrightarrow> write_ver_cmd_rsv buf = Inr (overlay [0x05, 0x01, 0x00] buf)"
  by (simp add: write_ver_cmd_rsv_def overlay_writes)

lemma write_target_host_endpoint_eq:
  assumes "p = length xs" and "p + length (endpoint_bytes ep) \<le> length buf"
  shows "write_target_host_endpoint (overlay xs buf) p ep
    = Inr (overlay (xs @ endpoint_bytes ep) buf, length (endpoint_bytes ep))"
  using assms
  by (cases "ep_address ep")
    (simp_all add: write_target_host_endpoint_def endpoint_bytes_def overlay_writes
      port_bytes)

lemma write_target_host_domain_eq:
  assumes "p = length xs" and "p + length (domain_bytes d) \<le> length buf"
  shows "write_target_host_domain (overlay xs buf) p d
    = Inr (overlay (xs @ domain_bytes d) buf, length (domain_bytes d))"
  using assms
  by (simp add: write_target_host_domain_def domain_bytes_def overlay_writes
      port_bytes)

lemma prepare_request_eq:
  assumes "n \<le> length buf"
  shows "prepare_request buf n t =
    (if length (connect_request_bytes t) \<le> n
     then Inr (overlay (connect_request_bytes t) buf, length (connect_request_bytes t))
     else Inl Assertion_failed)"
proof (cases t)
  case (To_endpoint ep)
  have "length (connect_request_bytes t) = 3 + length (endpoint_bytes ep)"
    by (simp add: To_endpoint connect_request_bytes_def)
  with assms To_endpoint length_connect_request_bytes [of t] show ?thesis
    by (auto simp: prepare_request_endpoint_def Let_def boost_assert_def write_ver_cmd_rsv_eq
        write_target_host_endpoint_eq connect_request_bytes_def)
next
  case (To_domain d)
  have "length (connect_request_bytes t) = 3 + length (domain_bytes d)"
    by (simp add: To_domain connect_request_bytes_def)
  with assms To_domain length_connect_request_bytes [of t] show ?thesis
    by (auto simp: prepare_request_domain_def Let_def boost_assert_def write_ver_cmd_rsv_eq
        write_target_host_domain_eq connect_request_bytes_def)
qed

section \<open>The reply parser\<close>

text \<open>
  The reference reading of a connect reply, as RFC 1928 lays the message out; \<open>reply_outcome\<close>
  is the pair a parser hands back for it.
\<close>

fun decode_reply_v5 :: "byte list \<Rightarrow> error + endpoint" where
  "decode_reply_v5 (ver # rep # rsv # atyp # body) =
     (if ver \<noteq> 0x05 then Inl Err_bad_reply_version
      else if rep \<noteq> 0x00 then Inl (error_of_reply (to_reply_code (ucast rep)))
      else if atyp = 0x01 then
        (if length body = 6
         then Inr \<lparr>ep_address = Address_v4 (be_word (take 4 body)), ep_port = be_word (drop 4 body)\<rparr>
         else Inl Err_bad_reply_size)
      else if atyp = 0x04 then
        (if length body = 18
         then Inr \<lparr>ep_address = Address_v6 (be_word (take 16 body)), ep_port = be_word (drop 16 body)\<rparr>
         else Inl Err_bad_reply_size)
      else Inl Err_bad_address_type)"
| "decode_reply_v5 _ = Inl Err_bad_reply_size"

fun reply_outcome :: "error \<Rightarrow> error + endpoint \<Rightarrow> endpoint \<times> error_code" where
  "reply_outcome ok (Inl e) = (endpoint_default, make_error_code e)"
| "reply_outcome ok (Inr ep) = (ep, make_error_code ok)"

text \<open>The outcome of a whole read of a reply, whose size is checked first.\<close>

definition reply_v5 :: "byte list \<Rightarrow> endpoint \<times> error_code" where
  "reply_v5 msg =
     (if length msg = 10 \<or> length msg = 22 then reply_outcome Err_succeeded (decode_reply_v5 msg)
      else (endpoint_default, make_error_code Err_bad_reply_size))"

lemmas parse_reply_v5_simps =
  parse_reply_v5_def to_address_type_byte error_code_of_reply_eq
  matches_condition_make_error_code to_reply_code_succeeded_iff
  make_address_v4_def make_address_v6_def slice_four slice_two be_word_four be_word_two

lemma parse_reply_v5_eq:
  assumes "n = 10 \<or> n = 22" and "n \<le> length buf"
  shows "parse_reply_v5 buf n
    = Inr (reply_outcome Err_succeeded (decode_reply_v5 (take n buf)))"
proof -
  have four: "take n buf = buf ! 0 # buf ! 1 # buf ! 2 # buf ! 3 # take (n - 4) (drop 4 buf)"
    using assms by (intro take_four_split) auto
  have ok: "to_reply_code 0 = Rep_succeeded"
    by (simp add: to_reply_code_def)
  consider "buf ! 0 \<noteq> 5" | "buf ! 0 = 5" "buf ! 1 \<noteq> 0"
    | "buf ! 0 = 5" "buf ! 1 = 0" "buf ! 3 = 1" | "buf ! 0 = 5" "buf ! 1 = 0" "buf ! 3 = 4"
    | "buf ! 0 = 5" "buf ! 1 = 0" "buf ! 3 \<noteq> 1" "buf ! 3 \<noteq> 4"
    by blast
  then show ?thesis
    by cases (use assms ok in \<open>auto simp: four parse_reply_v5_simps drop_take min_absorb2 Let_def\<close>)
qed

lemma parse_reply_v5_overlay:
  assumes "length (connect_reply_bytes rep ep) \<le> length buf"
  shows "parse_reply_v5 (overlay (connect_reply_bytes rep ep) buf)
      (length (connect_reply_bytes rep ep))
    = Inr (reply_outcome Err_succeeded (decode_reply_v5 (connect_reply_bytes rep ep)))"
  using assms by (subst parse_reply_v5_eq) (auto simp: length_overlay length_connect_reply_bytes)

lemma decode_reply_v5_bytes:
  "decode_reply_v5 (connect_reply_bytes rep ep)
   = (if rep = 0 then Inr ep else Inl (error_of_reply (to_reply_code (ucast rep))))"
  by (cases ep; cases "ep_address ep")
    (simp_all add: connect_reply_bytes_def endpoint_bytes_def wire_simps del: be_bytes.simps)

lemma be_bytes_slice:
  assumes "length bs = n" and "8 * n \<le> LENGTH('a)"
  shows "be_bytes n (be_word bs :: 'a::len word) = bs"
  using be_bytes_be_word [of bs, where 'a = 'a] assms by simp

lemma decode_reply_v5_InlD:
  "decode_reply_v5 msg = Inl e \<Longrightarrow> e \<noteq> Err_succeeded \<and> e \<noteq> Err_request_granted"
  by (elim decode_reply_v5.elims)
    (auto simp: to_reply_code_succeeded_iff split: if_splits)

lemma decode_reply_v5_InrD:
  assumes "decode_reply_v5 msg = Inr ep"
  shows "\<exists>rsv. msg = [0x05, 0x00, rsv] @ endpoint_bytes ep"
proof -
  from assms obtain rsv atyp body where msg: "msg = 5 # 0 # rsv # atyp # body"
    and atyp: "atyp = 1 \<and> length body = 6
        \<and> ep = \<lparr>ep_address = Address_v4 (be_word (take 4 body)), ep_port = be_word (drop 4 body)\<rparr>
      \<or> atyp = 4 \<and> length body = 18
        \<and> ep = \<lparr>ep_address = Address_v6 (be_word (take 16 body)), ep_port = be_word (drop 16 body)\<rparr>"
    by (elim decode_reply_v5.elims) (auto split: if_splits)
  from atyp have "atyp # body = endpoint_bytes ep"
    by (auto simp: endpoint_bytes_def be_bytes_slice)
  with msg show ?thesis by simp
qed

section \<open>The reply checks\<close>

lemma validate_server_choice_eq:
  assumes "n \<le> length buf"
  shows "validate_server_choice buf n opt ec = Inr (
    if n < 2 then make_error_code Err_bad_reply_size
    else if buf ! 0 \<noteq> 5 then make_error_code Err_bad_reply_version
    else if buf ! 1 \<notin> set (greeting_methods opt) then make_error_code Err_bad_server_choice
    else ec)"
  using assms
  by (auto simp: validate_server_choice_def validate_server_choice_code_def auth_code_def
      greeting_methods_def)

lemma validate_userpass_reply_eq:
  assumes "n \<le> length buf"
  shows "validate_userpass_reply buf n ec = Inr (
    if n \<noteq> 2 then make_error_code Err_bad_reply_size
    else if buf ! 0 \<noteq> 1 then make_error_code Err_bad_reply_version
    else if buf ! 1 \<noteq> 0 then make_error_code Err_access_denied
    else ec)"
  using assms by (auto simp: validate_userpass_reply_def)

text \<open>The callers run a check after a read that succeeded or met the end of the stream.\<close>

lemma server_choice_checked:
  assumes "n \<le> length buf" and "n \<le> 2"
  shows "res_post E (\<lambda>ec'. \<not> failed ec' \<longrightarrow>
      take n buf = [0x05, buf ! 1] \<and> buf ! 1 \<in> set (greeting_methods opt) \<and> \<not> failed ec)
    (if \<not> failed ec \<or> ec = eof then validate_server_choice buf n opt ec else Inr ec)"
proof (cases "n = 2")
  case True
  with assms take_two [of buf] show ?thesis by (auto simp: validate_server_choice_eq)
next
  case False
  with assms show ?thesis by (auto simp: validate_server_choice_eq)
qed

lemma userpass_reply_checked:
  assumes "n \<le> length buf"
  shows "res_post E (\<lambda>ec'. \<not> failed ec' \<longrightarrow> take n buf = [0x01, 0x00] \<and> \<not> failed ec)
    (if \<not> failed ec \<or> ec = eof then validate_userpass_reply buf n ec else Inr ec)"
proof (cases "n = 2")
  case True
  with assms take_two [of buf] show ?thesis by (auto simp: validate_userpass_reply_eq)
next
  case False
  with assms show ?thesis by (auto simp: validate_userpass_reply_eq)
qed

lemma userpass_bytes_rfc_iff:
  assumes "length (user opt) \<le> 255" and "length (pass opt) \<le> 255"
  shows "userpass_bytes opt = rfc1929_bytes (user opt) (pass opt)
    \<longleftrightarrow> length (user opt) = length (pass opt)"
proof -
  have "unat (word_of_nat k :: byte) = k" if "k \<le> 255" for k
    using that by (simp add: unat_of_nat)
  with assms show ?thesis
    by (auto simp: userpass_bytes_def rfc1929_bytes_def) metis
qed

section \<open>Properties\<close>

text \<open>
  C22 (serializers_write_message).  Given a buffer of at least the size \<open>n\<close> it is told, each
  of the client's serializers for the greeting and the CONNECT request writes exactly its
  message at the front of the buffer, leaves every byte behind the message as it was and
  returns the message's length; it fails only by its own assertion, when the message does
  not fit in \<open>n\<close> bytes, and never by a write outside the buffer.
\<close>
theorem serializers_write_message:
  assumes "n \<le> length buf"
  shows "prepare_greeting buf n opt =
      (if length (greeting_bytes opt) \<le> n
       then Inr (overlay (greeting_bytes opt) buf, length (greeting_bytes opt))
       else Inl Assertion_failed)
    \<and> prepare_request buf n t =
      (if length (connect_request_bytes t) \<le> n
       then Inr (overlay (connect_request_bytes t) buf, length (connect_request_bytes t))
       else Inl Assertion_failed)"
  using assms by (intro conjI prepare_greeting_eq prepare_request_eq)

theorem serializers_write_message_witness:
  "(4::nat) \<le> length [7, 7, 7, 7, 9 :: byte]
   \<and> prepare_greeting [7, 7, 7, 7, 9] 4 (auth_userpass ''u'' ''p'')
     = Inr ([5, 2, 0, 2, 9], 4)
   \<and> prepare_request [7, 7, 7, 7, 9] 4 (To_endpoint endpoint_default) = Inl Assertion_failed"
proof -
  have h: "(4::nat) \<le> length [7, 7, 7, 7, 9 :: byte]" by simp
  from serializers_write_message [OF h, of "auth_userpass ''u'' ''p''" "To_endpoint endpoint_default"]
  show ?thesis
    by (simp add: greeting_bytes_def greeting_methods_def auth_userpass_def overlay_def
        length_connect_request_bytes dst_addr_size_endpoint_def)
qed

text \<open>
  C34 (userpass_request_rfc1929).  The username/password request has the length byte of the
  username where RFC 1929 wants the length of the password: with both lengths at most 255
  and a buffer that holds the message, the serializer returns the right number of bytes, and
  these are the RFC 1929 request if and only if user name and password have equal lengths.
\<close>
theorem userpass_request_rfc1929:
  assumes "length (user opt) \<le> 255" and "length (pass opt) \<le> 255"
    and "length (user opt) + length (pass opt) + 3 \<le> n" and "n \<le> length buf"
  shows "\<exists>buf'. prepare_userpass_request buf n opt
      = Inr (buf', length (rfc1929_bytes (user opt) (pass opt)))
    \<and> (take (length (rfc1929_bytes (user opt) (pass opt))) buf'
         = rfc1929_bytes (user opt) (pass opt)
       \<longleftrightarrow> length (user opt) = length (pass opt))"
proof -
  have len: "length (rfc1929_bytes (user opt) (pass opt)) = length (userpass_bytes opt)"
    by (simp add: rfc1929_bytes_def userpass_bytes_def)
  show ?thesis
    using assms userpass_bytes_rfc_iff [of opt]
    by (simp add: prepare_userpass_request_eq len length_userpass_bytes)
qed

theorem userpass_request_rfc1929_witness:
  "\<exists>buf'. prepare_userpass_request (replicate 8 0) 8 (auth_userpass ''ab'' ''xyz'') = Inr (buf', 8)
     \<and> take 8 buf' \<noteq> rfc1929_bytes ''ab'' ''xyz''"
  using userpass_request_rfc1929 [of "auth_userpass ''ab'' ''xyz''" 8 "replicate 8 0"]
  by (auto simp: auth_userpass_def rfc1929_bytes_def eval_nat_numeral)

text \<open>
  Starting from a code that is not an error, the check of
  the greeting reply ends without an error exactly when two bytes were read, the version is
  5 and the method is one of those the greeting of the same options offered.
\<close>
theorem server_choice_accepted_iff:
  assumes "n \<le> length buf" and "\<not> failed ec"
  shows "\<exists>ec'. validate_server_choice buf n opt ec = Inr ec'
    \<and> (\<not> failed ec' \<longleftrightarrow>
        2 \<le> n \<and> buf ! 0 = 0x05 \<and> buf ! 1 \<in> set (drop 2 (greeting_bytes opt)))"
  using assms by (auto simp: validate_server_choice_eq greeting_bytes_def)

theorem server_choice_accepted_iff_witness:
  "\<exists>ec'. validate_server_choice [5, 0xFF] 2 auth_none ec_ok = Inr ec' \<and> failed ec'"
  using server_choice_accepted_iff [of 2 "[5, 0xFF]" ec_ok auth_none]
  by (auto simp: greeting_bytes_def greeting_methods_def auth_none_def)

text \<open>
  The check of the username/password reply ends without
  an error exactly when the reply is the two bytes \<open>01 00\<close>; otherwise it says which part
  was wrong: the size, then the version, then the status.
\<close>
theorem userpass_reply_accepted_iff:
  assumes "n \<le> length buf" and "\<not> failed ec"
  shows "validate_userpass_reply buf n ec = Inr (
      if n \<noteq> 2 then make_error_code Err_bad_reply_size
      else if buf ! 0 \<noteq> 0x01 then make_error_code Err_bad_reply_version
      else if buf ! 1 \<noteq> 0x00 then make_error_code Err_access_denied
      else ec)
    \<and> (\<forall>ec'. validate_userpass_reply buf n ec = Inr ec' \<longrightarrow>
        \<not> failed ec' \<longleftrightarrow> n = 2 \<and> take 2 buf = [0x01, 0x00])"
proof (intro conjI allI impI)
  show "validate_userpass_reply buf n ec = Inr (
      if n \<noteq> 2 then make_error_code Err_bad_reply_size
      else if buf ! 0 \<noteq> 0x01 then make_error_code Err_bad_reply_version
      else if buf ! 1 \<noteq> 0x00 then make_error_code Err_access_denied
      else ec)"
    using assms(1) by (simp add: validate_userpass_reply_eq)
  fix ec' assume "validate_userpass_reply buf n ec = Inr ec'"
  with assms slice_two [of 0 buf]
  show "\<not> failed ec' \<longleftrightarrow> n = 2 \<and> take 2 buf = [0x01, 0x00]"
    by (auto simp: validate_userpass_reply_eq split: if_splits)
qed

theorem userpass_reply_accepted_iff_witness:
  "(2::nat) \<le> length [1, 1 :: byte] \<and> \<not> failed ec_ok
   \<and> validate_userpass_reply [1, 1] 2 ec_ok = Inr (make_error_code Err_access_denied)"
  using userpass_reply_accepted_iff [of 2 "[1, 1]" ec_ok] by simp

text \<open>
  C21 (parse_reply_v5_decodes).  On a reply of one of the two sizes the callers let through,
  the SOCKS5 reply parser reads inside the buffer only and computes what the reference
  decoder reads off the message: the endpoint with the code \<open>succeeded\<close>, or the default
  endpoint with the first error found, in the order version, reply code, address type, size.
\<close>
theorem parse_reply_v5_decodes:
  assumes "n = 10 \<or> n = 22" and "n \<le> length buf"
  shows "parse_reply_v5 buf n
    = Inr (case decode_reply_v5 (take n buf) of
        Inl e \<Rightarrow> (endpoint_default, make_error_code e)
      | Inr ep \<Rightarrow> (ep, make_error_code Err_succeeded))"
  using parse_reply_v5_eq [OF assms] by (simp split: sum.splits)

theorem parse_reply_v5_decodes_witness:
  "parse_reply_v5 [5, 0, 0, 1, 127, 0, 0, 1, 4, 56, 99] 10
   = Inr (\<lparr>ep_address = Address_v4 0x7F000001, ep_port = 1080\<rparr>, make_error_code Err_succeeded)"
  using parse_reply_v5_decodes [of 10 "[5, 0, 0, 1, 127, 0, 0, 1, 4, 56, 99]"]
  by (simp add: be_word_def)

text \<open>
  A reply that carries any reply code and any bound
  endpoint, IPv4 or IPv6, is parsed back: to that endpoint and \<open>succeeded\<close> when the code is
  0, and to the default endpoint and the error of that code otherwise.
\<close>
theorem parse_reply_v5_roundtrip:
  assumes "length (connect_reply_bytes rep ep) \<le> length buf"
  shows "parse_reply_v5 (overlay (connect_reply_bytes rep ep) buf)
      (length (connect_reply_bytes rep ep))
    = Inr (if rep = 0 then (ep, make_error_code Err_succeeded)
           else (endpoint_default, make_error_code (error_of_reply (to_reply_code (ucast rep)))))"
  using assms by (simp add: parse_reply_v5_overlay decode_reply_v5_bytes)

theorem parse_reply_v5_roundtrip_witness:
  "parse_reply_v5 (overlay (connect_reply_bytes 5 endpoint_default) (replicate 22 0)) 10
   = Inr (endpoint_default, make_error_code Err_connection_refused)"
  using parse_reply_v5_roundtrip [of 5 endpoint_default "replicate 22 0"]
  by (simp add: length_connect_reply_bytes to_reply_code_def endpoint_default_def)

text \<open>
  C36 (long_domain_truncated).  The domain name has one length byte and no check that it
  fits: for a name of 256 to 506 characters the request for the 513-byte buffer of the
  connect operations is written without an assertion, with a length byte that is the length
  modulo 256, so a server reads a shorter name and takes the rest for the port.
\<close>
theorem long_domain_truncated:
  assumes "255 < length (de_domain d)" and "length (de_domain d) \<le> 506" and "length buf = 513"
  shows "\<exists>buf'. prepare_request buf 513 (To_domain d) = Inr (buf', length (de_domain d) + 7)
    \<and> unat (buf' ! 4) = length (de_domain d) mod 256
    \<and> unat (buf' ! 4) < length (de_domain d)"
proof -
  have "overlay (connect_request_bytes (To_domain d)) buf ! 4 = word_of_nat (length (de_domain d))"
    by (simp add: overlay_def connect_request_bytes_def domain_bytes_def)
  moreover have "unat (word_of_nat (length (de_domain d)) :: byte) = length (de_domain d) mod 256"
    by (simp add: unat_of_nat)
  moreover have "length (de_domain d) mod 256 < 256" by simp
  ultimately show ?thesis
    using assms
    by (auto simp: prepare_request_eq length_connect_request_bytes dst_addr_size_domain_def
        simp del: prepare_request.simps)
qed

theorem long_domain_truncated_witness:
  "\<exists>buf'. prepare_request (replicate 513 0) 513
      (To_domain \<lparr>de_domain = replicate 300 (CHR ''a''), de_port = 80\<rparr>) = Inr (buf', 307)
    \<and> unat (buf' ! 4) = 44"
  using long_domain_truncated
    [of "\<lparr>de_domain = replicate 300 (CHR ''a''), de_port = 80\<rparr>" "replicate 513 0"]
  by auto

end
