(* ===== verification/Messages_V4.thy ===== *)
theory Messages_V4
  imports Messages_V5
begin

text \<open>
  The SOCKS4 messages of the client (\<open>include/boost/socks/impl/connect_v4.ipp\<close>): the CONNECT
  request with the user id, and the parser of the eight-byte reply.
\<close>

definition prepare_request_v4 ::
    "buffer \<Rightarrow> nat \<Rightarrow> endpoint \<Rightarrow> string \<Rightarrow> (buffer \<times> nat) result" where
  "prepare_request_v4 buf n target_host socks_user =
     boost_assert (n \<ge> 9 + length socks_user) (
     res_bind (put_byte buf 0 (version_value Socks_4)) (\<lambda>buf.
     res_bind (put_byte buf 1 (command_value Cmd_connect)) (\<lambda>buf.
     res_bind (put_byte buf 2 (ucast (drop_bit 8 (ep_port target_host)))) (\<lambda>buf.
     res_bind (put_byte buf 3 (ucast (ep_port target_host AND 0xFF))) (\<lambda>buf.
     res_bind (to_v4_bytes (ep_address target_host)) (\<lambda>ip_bytes.
     res_bind (put_byte buf 4 (ip_bytes ! 0)) (\<lambda>buf.
     res_bind (put_byte buf 5 (ip_bytes ! 1)) (\<lambda>buf.
     res_bind (put_byte buf 6 (ip_bytes ! 2)) (\<lambda>buf.
     res_bind (put_byte buf 7 (ip_bytes ! 3)) (\<lambda>buf.
     res_bind (put_bytes buf 8 (bytes_of_string socks_user)) (\<lambda>(buf, _).
     res_bind (put_byte buf (8 + length socks_user) 0x00) (\<lambda>buf.
     Inr (buf, 9 + length socks_user)))))))))))))"

definition parse_reply_v4 :: "buffer \<Rightarrow> nat \<Rightarrow> (endpoint \<times> error_code) result" where
  "parse_reply_v4 buf n =
     boost_assert (n = 8) (
     res_bind (get_byte buf 0) (\<lambda>ver.
     if ver \<noteq> 0x00 \<and> ver \<noteq> 0x04
     then Inr (endpoint_default, make_error_code Err_bad_reply_version)
     else res_bind (get_byte buf 1) (\<lambda>rep.
     let ec = error_code_of_reply_v4 (to_reply_code_v4 (ucast rep)) in
     if \<not> matches_condition ec Cond_succeeded then Inr (endpoint_default, ec)
     else
       res_bind (get_byte buf 2) (\<lambda>b2. res_bind (get_byte buf 3) (\<lambda>b3.
       res_bind (get_byte buf 4) (\<lambda>b4. res_bind (get_byte buf 5) (\<lambda>b5.
       res_bind (get_byte buf 6) (\<lambda>b6.
       let port = (ucast b2 :: u16); port = push_bit 8 port OR ucast b3;
           ip = (ucast b3 :: u32); ip = push_bit 8 ip OR ucast b4;
           ip = push_bit 8 ip OR ucast b5; ip = push_bit 8 ip OR ucast b6
       in Inr (\<lparr>ep_address = make_address_v4 ip, ep_port = port\<rparr>, ec)))))))))"

section \<open>Messages on the wire\<close>

definition connect_request_v4_bytes :: "u32 \<Rightarrow> u16 \<Rightarrow> string \<Rightarrow> byte list" where
  "connect_request_v4_bytes ip port userid =
     [0x04, 0x01] @ be_bytes 2 port @ be_bytes 4 ip @ bytes_of_string userid @ [0x00]"

definition connect_reply_v4_bytes :: "byte \<Rightarrow> byte \<Rightarrow> u32 \<Rightarrow> u16 \<Rightarrow> byte list" where
  "connect_reply_v4_bytes ver rep ip port = [ver, rep] @ be_bytes 2 port @ be_bytes 4 ip"

lemma length_connect_request_v4_bytes [wire_simps]:
  "length (connect_request_v4_bytes ip port u) = 9 + length u"
  by (simp add: connect_request_v4_bytes_def)

lemma length_connect_reply_v4_bytes [wire_simps]:
  "length (connect_reply_v4_bytes ver rep ip port) = 8"
  by (simp add: connect_reply_v4_bytes_def)

lemma prepare_request_v4_eq:
  assumes "n \<le> length buf"
  shows "prepare_request_v4 buf n ep u =
    (if n < 9 + length u then Inl Assertion_failed
     else case ep_address ep of
       Address_v4 ip \<Rightarrow>
         Inr (overlay (connect_request_v4_bytes ip (ep_port ep) u) buf, 9 + length u)
     | Address_v6 ip \<Rightarrow> Inl Bad_address_cast)"
proof (cases "9 + length u \<le> n")
  case True
  show ?thesis
  proof (cases "ep_address ep")
    case (Address_v4 ip)
    have "connect_request_v4_bytes ip (ep_port ep) u
      = [4, 1, ucast (drop_bit 8 (ep_port ep)), ucast (ep_port ep AND 0xFF),
         be_bytes 4 ip ! 0, be_bytes 4 ip ! 1, be_bytes 4 ip ! 2, be_bytes 4 ip ! 3]
        @ bytes_of_string u @ [0]"
      by (simp add: connect_request_v4_bytes_def port_bytes [symmetric] be_bytes_four)
    with True assms Address_v4 show ?thesis
      by (simp add: prepare_request_v4_def overlay_writes)
  next
    case (Address_v6 ip)
    with True assms show ?thesis
      by (simp add: prepare_request_v4_def overlay_writes)
  qed
next
  case False
  then show ?thesis by (simp add: prepare_request_v4_def)
qed

lemma parse_reply_v4_eq:
  assumes "8 \<le> length buf"
  shows "parse_reply_v4 buf 8 = Inr (
    if buf ! 0 \<noteq> 0 \<and> buf ! 0 \<noteq> 4
    then (endpoint_default, make_error_code Err_bad_reply_version)
    else if buf ! 1 \<noteq> 90
    then (endpoint_default, make_error_code (error_of_reply_v4 (to_reply_code_v4 (ucast (buf ! 1)))))
    else (\<lparr>ep_address = Address_v4 (be_word (take 4 (drop 3 buf))),
           ep_port = be_word (take 2 (drop 2 buf))\<rparr>, make_error_code Err_request_granted))"
proof -
  have ok: "to_reply_code_v4 90 = Rep4_request_granted"
    by (simp add: to_reply_code_v4_def)
  consider "buf ! 0 \<noteq> 0" "buf ! 0 \<noteq> 4" | "buf ! 0 = 0 \<or> buf ! 0 = 4" "buf ! 1 \<noteq> 90"
    | "buf ! 0 = 0 \<or> buf ! 0 = 4" "buf ! 1 = 90"
    by blast
  then show ?thesis
    by cases (use assms ok in \<open>auto simp: parse_reply_v4_def Let_def slice_four slice_two
      be_word_four be_word_two make_address_v4_def error_code_of_reply_v4_eq
      matches_condition_make_error_code to_reply_code_v4_granted_iff\<close>)
qed

text \<open>What the four bytes at offset 3 of a reply are: the port's low byte, then the address.\<close>

lemma reply_v4_slice:
  "be_word ((ucast (p :: u16) :: byte) # be_bytes 3 (drop_bit 8 (ip :: u32)))
    = (push_bit 24 (ucast (ucast p :: byte)) OR drop_bit 8 ip :: u32)"
proof -
  have "take_bit 24 (drop_bit 8 ip) = drop_bit 8 ip"
    by (rule bit_word_eqI) (auto simp: bit_simps dest: bit_imp_le_length)
  then show ?thesis by (simp add: be_word_Cons be_word_be_bytes_take)
qed

lemma connect_reply_v4_bytes_split:
  "connect_reply_v4_bytes ver rep ip port
   = [ver, rep, ucast (drop_bit 8 port), ucast port] @ be_bytes 3 (drop_bit 8 ip) @ [ucast ip]"
  by (simp add: connect_reply_v4_bytes_def be_bytes_two be_bytes_three be_bytes_four)

lemma parse_reply_v4_bytes:
  assumes "ver = 0 \<or> ver = 4" and "8 \<le> length buf"
  shows "parse_reply_v4 (overlay (connect_reply_v4_bytes ver rep ip port) buf) 8 = Inr (
    if rep \<noteq> 90
    then (endpoint_default, make_error_code (error_of_reply_v4 (to_reply_code_v4 (ucast rep))))
    else (\<lparr>ep_address = Address_v4 (push_bit 24 (ucast (ucast port :: byte)) OR drop_bit 8 ip),
           ep_port = port\<rparr>, make_error_code Err_request_granted))"
proof -
  let ?msg = "connect_reply_v4_bytes ver rep ip port"
  let ?buf = "overlay ?msg buf"
  have nth: "?buf ! 0 = ver" "?buf ! 1 = rep"
    by (simp_all add: overlay_def connect_reply_v4_bytes_def)
  have port: "take 2 (drop 2 ?buf) = be_bytes 2 port"
    by (simp add: overlay_def connect_reply_v4_bytes_def)
  have addr: "take 4 (drop 3 ?buf) = ucast port # be_bytes 3 (drop_bit 8 ip)"
    by (simp add: overlay_def connect_reply_v4_bytes_split)
  have "8 \<le> length ?buf"
    using assms(2) by (simp add: length_overlay length_connect_reply_v4_bytes)
  from parse_reply_v4_eq [OF this] show ?thesis
    unfolding nth port addr port_roundtrip reply_v4_slice using assms(1) by auto
qed

section \<open>Properties\<close>

text \<open>
  C32 (request_v4_written).  The SOCKS4 serializer, with any buffer of at least the size it
  is told, writes exactly VER, CMD, DSTPORT, DSTIP, USERID and the closing null byte at the
  front of the buffer; it asserts when the message does not fit, and an IPv6 endpoint, which
  has no SOCKS4 form, ends in the exception of \<open>to_v4()\<close> and writes no message.
\<close>
theorem request_v4_written:
  assumes "n \<le> length buf"
  shows "prepare_request_v4 buf n ep u =
    (if n < 9 + length u then Inl Assertion_failed
     else case ep_address ep of
       Address_v4 ip \<Rightarrow>
         Inr (overlay (connect_request_v4_bytes ip (ep_port ep) u) buf,
              length (connect_request_v4_bytes ip (ep_port ep) u))
     | Address_v6 ip \<Rightarrow> Inl Bad_address_cast)"
  using prepare_request_v4_eq [OF assms, of ep u]
  by (simp add: length_connect_request_v4_bytes split: address.splits)

theorem request_v4_written_witness:
  "prepare_request_v4 (replicate 10 0) 10 \<lparr>ep_address = Address_v4 0x7F000001, ep_port = 1080\<rparr> ''u''
   = Inr ([4, 1, 4, 56, 127, 0, 0, 1, 117, 0], 10)"
  using request_v4_written
    [of 10 "replicate 10 0" "\<lparr>ep_address = Address_v4 0x7F000001, ep_port = 1080\<rparr>" "''u''"]
  by (simp add: connect_request_v4_bytes_def overlay_def be_bytes_four port_bytes [symmetric]
      byte_of_char_def)

text \<open>
  C35 (reply_v4_address_shifted).  The SOCKS4 reply parser reads the bound address one byte
  too early, from the low byte of DSTPORT on: for a granting reply with bound port \<open>port\<close>
  and address \<open>ip\<close> it returns the right port, and as the address the low byte of the port
  followed by the upper three bytes of \<open>ip\<close>.  For any other code it returns the default
  endpoint and the error of that code.
\<close>
theorem reply_v4_address_shifted:
  assumes "ver = 0 \<or> ver = 4" and "8 \<le> length buf"
  shows "parse_reply_v4 (overlay (connect_reply_v4_bytes ver rep ip port) buf) 8 = Inr (
    if rep \<noteq> 90
    then (endpoint_default, make_error_code (error_of_reply_v4 (to_reply_code_v4 (ucast rep))))
    else (\<lparr>ep_address = Address_v4 (push_bit 24 (ucast (ucast port :: byte)) OR drop_bit 8 ip),
           ep_port = port\<rparr>, make_error_code Err_request_granted))"
  using assms by (rule parse_reply_v4_bytes)

theorem reply_v4_address_shifted_witness:
  "parse_reply_v4 (overlay (connect_reply_v4_bytes 0 90 0x7F000001 0x1234) (replicate 8 0)) 8
   = Inr (\<lparr>ep_address = Address_v4 0x347F0000, ep_port = 0x1234\<rparr>,
          make_error_code Err_request_granted)
   \<and> (0x347F0000 :: u32) \<noteq> 0x7F000001"
  using reply_v4_address_shifted [of 0 "replicate 8 0" 90 "0x7F000001" "0x1234"] by simp

end
