(* ===== verification/Asio_Streams.thy ===== *)
theory Asio_Streams
  imports Socks_Error
begin

text \<open>
  The stream interface the connect operations are written against.  Asio is not part of the
  repository: its composed operations \<open>asio::write\<close> and \<open>asio::read\<close> are the two fields of
  a record of functions that every connect operation takes as an argument, and the locale
  \<open>sync_stream\<close> states what their documentation promises.  The stream requirements of Asio
  (\<open>read_some\<close>, \<open>write_some\<close>) are the locale \<open>raw_stream\<close>; the documented composed
  operations over them satisfy the first interface, so a stream has to supply
  \<open>read_some\<close> and \<open>write_some\<close> only.
\<close>

section \<open>Composed operations\<close>

text \<open>
  A completion condition sees the memory the read fills (as \<open>read_reply_cond\<close> does, which
  keeps a pointer to the buffer), the last error and the bytes transferred so far; 0 ends
  the operation, another value bounds the next \<open>read_some\<close>.
\<close>

type_synonym completion = "buffer \<Rightarrow> error_code \<Rightarrow> nat \<Rightarrow> nat"

text \<open>
  \<open>asio_write ops s bs\<close> is \<open>asio::write(s, buffer(bs), ec)\<close>: the bytes transferred, the code
  and the stream.  \<open>asio_read ops s buf m c\<close> is \<open>asio::read(s, buffer(buf, m), c, ec)\<close>: the
  memory after the read, the bytes transferred, the code and the stream.
\<close>

record 's stream_ops =
  asio_write :: "'s \<Rightarrow> byte list \<Rightarrow> nat \<times> error_code \<times> 's"
  asio_read :: "'s \<Rightarrow> buffer \<Rightarrow> nat \<Rightarrow> completion \<Rightarrow> buffer \<times> nat \<times> error_code \<times> 's"

text \<open>\<open>asio::transfer_all()\<close>, the condition of a read without one.\<close>

definition transfer_all :: completion where
  "transfer_all buf ec n = (if failed ec then 0 else 65536)"

definition stops_on_failure :: "completion \<Rightarrow> bool" where
  "stops_on_failure c \<longleftrightarrow> (\<forall>buf ec n. failed ec \<longrightarrow> c buf ec n = 0)"

lemma stops_on_failureD: "stops_on_failure c \<Longrightarrow> failed ec \<Longrightarrow> c buf ec n = 0"
  by (simp add: stops_on_failure_def)

lemma stops_transfer_all [simp]: "stops_on_failure transfer_all"
  by (simp add: stops_on_failure_def transfer_all_def)

text \<open>
  The interface.  \<open>sent s\<close> and \<open>received s\<close> are the bytes written to and read from the
  stream so far, and \<open>inv\<close> is what the operations keep of the stream.
\<close>

locale sync_stream =
  fixes ops :: "'s stream_ops"
    and inv :: "'s \<Rightarrow> bool"
    and sent :: "'s \<Rightarrow> byte list"
    and received :: "'s \<Rightarrow> byte list"
  assumes write_inv: "inv s \<Longrightarrow> asio_write ops s bs = (k, ec, s') \<Longrightarrow> inv s'"
    and write_sent: "inv s \<Longrightarrow> asio_write ops s bs = (k, ec, s')
      \<Longrightarrow> sent s' = sent s @ take k bs"
    and write_received: "inv s \<Longrightarrow> asio_write ops s bs = (k, ec, s') \<Longrightarrow> received s' = received s"
    and write_all: "inv s \<Longrightarrow> asio_write ops s bs = (k, ec, s') \<Longrightarrow> \<not> failed ec
      \<Longrightarrow> k = length bs"
    and read_inv: "inv s \<Longrightarrow> m \<le> length buf \<Longrightarrow> stops_on_failure c
      \<Longrightarrow> asio_read ops s buf m c = (buf', n, ec, s') \<Longrightarrow> inv s'"
    and read_length: "inv s \<Longrightarrow> m \<le> length buf \<Longrightarrow> stops_on_failure c
      \<Longrightarrow> asio_read ops s buf m c = (buf', n, ec, s') \<Longrightarrow> length buf' = length buf"
    and read_bound: "inv s \<Longrightarrow> m \<le> length buf \<Longrightarrow> stops_on_failure c
      \<Longrightarrow> asio_read ops s buf m c = (buf', n, ec, s') \<Longrightarrow> n \<le> m"
    and read_received: "inv s \<Longrightarrow> m \<le> length buf \<Longrightarrow> stops_on_failure c
      \<Longrightarrow> asio_read ops s buf m c = (buf', n, ec, s') \<Longrightarrow> received s' = received s @ take n buf'"
    and read_sent: "inv s \<Longrightarrow> m \<le> length buf \<Longrightarrow> stops_on_failure c
      \<Longrightarrow> asio_read ops s buf m c = (buf', n, ec, s') \<Longrightarrow> sent s' = sent s"
    and read_complete: "inv s \<Longrightarrow> m \<le> length buf \<Longrightarrow> stops_on_failure c
      \<Longrightarrow> asio_read ops s buf m c = (buf', n, ec, s') \<Longrightarrow> \<not> failed ec
      \<Longrightarrow> n = m \<or> c buf' ec n = 0"
begin

lemma write_ok:
  "inv s \<Longrightarrow> asio_write ops s bs = (k, ec, s') \<Longrightarrow> \<not> failed ec
    \<Longrightarrow> inv s' \<and> sent s' = sent s @ bs \<and> received s' = received s"
  using write_inv write_sent write_received write_all by fastforce

lemma read_exact:
  assumes "inv s" and "m \<le> length buf" and "asio_read ops s buf m transfer_all = (buf', n, ec, s')"
    and "\<not> failed ec"
  shows "n = m"
  using read_complete [OF assms(1,2) stops_transfer_all assms(3,4)] assms(4)
  by (simp add: transfer_all_def)

lemmas read_facts = read_inv read_length read_bound read_received read_sent

end

section \<open>The composed operations over \<open>read_some\<close> and \<open>write_some\<close>\<close>

text \<open>
  \<open>rd s k\<close> is \<open>read_some\<close> into \<open>k\<close> bytes and \<open>wr s bs\<close> is \<open>write_some\<close>.  As Asio documents
  them, a successful \<open>read_some\<close> into a nonempty buffer has read at least one byte, and a
  successful \<open>write_some\<close> of a nonempty one has written at least one.
\<close>

locale raw_stream =
  fixes rd :: "'s \<Rightarrow> nat \<Rightarrow> byte list \<times> error_code \<times> 's"
    and wr :: "'s \<Rightarrow> byte list \<Rightarrow> nat \<times> error_code \<times> 's"
    and inv :: "'s \<Rightarrow> bool"
    and sent :: "'s \<Rightarrow> byte list"
    and received :: "'s \<Rightarrow> byte list"
  assumes rd_effect: "inv s \<Longrightarrow> rd s k = (bs, ec, s')
      \<Longrightarrow> inv s' \<and> length bs \<le> k \<and> received s' = received s @ bs \<and> sent s' = sent s"
    and rd_progress: "inv s \<Longrightarrow> rd s k = (bs, ec, s') \<Longrightarrow> 0 < k \<Longrightarrow> \<not> failed ec \<Longrightarrow> bs \<noteq> []"
    and wr_effect: "inv s \<Longrightarrow> wr s bs = (k, ec, s')
      \<Longrightarrow> inv s' \<and> k \<le> length bs \<and> sent s' = sent s @ take k bs \<and> received s' = received s"
    and wr_progress: "inv s \<Longrightarrow> wr s bs = (k, ec, s') \<Longrightarrow> bs \<noteq> [] \<Longrightarrow> \<not> failed ec \<Longrightarrow> 0 < k"

text \<open>
  The loops of the composed operations.  The fuel bounds the number of rounds; each round
  transfers a byte or ends in an error, so the fuel the operations give themselves is
  enough, which the lemmas below rest on.
\<close>

fun read_loop ::
    "('s \<Rightarrow> nat \<Rightarrow> byte list \<times> error_code \<times> 's) \<Rightarrow> nat \<Rightarrow> 's \<Rightarrow> buffer \<Rightarrow> nat \<Rightarrow> nat
      \<Rightarrow> completion \<Rightarrow> error_code \<Rightarrow> buffer \<times> nat \<times> error_code \<times> 's" where
  "read_loop rd 0 s buf n m c ec = (buf, n, ec, s)"
| "read_loop rd (Suc fuel) s buf n m c ec =
     (if m \<le> n \<or> c buf ec n = 0 then (buf, n, ec, s)
      else let (bs, ec', s') = rd s (min (c buf ec n) (m - n))
           in read_loop rd fuel s' (take n buf @ bs @ drop (n + length bs) buf)
                (n + length bs) m c ec')"

fun write_loop ::
    "('s \<Rightarrow> byte list \<Rightarrow> nat \<times> error_code \<times> 's) \<Rightarrow> nat \<Rightarrow> 's \<Rightarrow> byte list \<Rightarrow> nat
      \<Rightarrow> error_code \<Rightarrow> nat \<times> error_code \<times> 's" where
  "write_loop wr 0 s bs n ec = (n, ec, s)"
| "write_loop wr (Suc fuel) s bs n ec =
     (if length bs \<le> n \<or> failed ec then (n, ec, s)
      else let (k, ec', s') = wr s (drop n bs) in write_loop wr fuel s' bs (n + k) ec')"

definition composed ::
    "('s \<Rightarrow> nat \<Rightarrow> byte list \<times> error_code \<times> 's) \<Rightarrow> ('s \<Rightarrow> byte list \<Rightarrow> nat \<times> error_code \<times> 's)
      \<Rightarrow> 's stream_ops" where
  "composed rd wr =
     \<lparr>asio_write = (\<lambda>s bs. write_loop wr (length bs + 1) s bs 0 ec_ok),
      asio_read = (\<lambda>s buf m c. read_loop rd (m + 1) s buf 0 m c ec_ok)\<rparr>"

context raw_stream begin

lemma write_loop_effect:
  assumes "inv s" and "n \<le> length bs" and "write_loop wr fuel s bs n ec = (k, ec', s')"
  shows "inv s' \<and> n \<le> k \<and> k \<le> length bs \<and> sent s' = sent s @ drop n (take k bs)
    \<and> received s' = received s"
  using assms
proof (induction fuel arbitrary: s n ec)
  case 0
  then show ?case by simp
next
  case (Suc fuel)
  show ?case
  proof (cases "length bs \<le> n \<or> failed ec")
    case True
    with Suc.prems show ?thesis by auto
  next
    case False
    obtain k1 ec1 s1 where wr: "wr s (drop n bs) = (k1, ec1, s1)" by (metis prod_cases3)
    note eff = wr_effect [OF Suc.prems(1) wr]
    from False Suc.prems(3) wr have "write_loop wr fuel s1 bs (n + k1) ec1 = (k, ec', s')" by simp
    with Suc.IH [of s1 "n + k1" ec1] eff False
    have IH: "inv s' \<and> n + k1 \<le> k \<and> k \<le> length bs
        \<and> sent s' = sent s1 @ drop (n + k1) (take k bs) \<and> received s' = received s1" by auto
    then have "k1 \<le> k - n" by linarith
    then have "take k1 (drop n bs) = take k1 (drop n (take k bs))"
      by (simp add: drop_take)
    then have "take k1 (drop n bs) @ drop (n + k1) (take k bs) = drop n (take k bs)"
      by (metis add.commute append_take_drop_id drop_drop)
    with IH eff show ?thesis by simp
  qed
qed

lemma write_loop_all:
  assumes "inv s" and "n \<le> length bs" and "write_loop wr fuel s bs n ec = (k, ec', s')"
    and "\<not> failed ec'" and "length bs - n < fuel"
  shows "k = length bs"
  using assms
proof (induction fuel arbitrary: s n ec)
  case 0
  then show ?case by simp
next
  case (Suc fuel)
  show ?case
  proof (cases "length bs \<le> n \<or> failed ec")
    case True
    with Suc.prems show ?thesis by auto
  next
    case False
    obtain k1 ec1 s1 where wr: "wr s (drop n bs) = (k1, ec1, s1)" by (metis prod_cases3)
    note eff = wr_effect [OF Suc.prems(1) wr]
    from False Suc.prems(3) wr have loop: "write_loop wr fuel s1 bs (n + k1) ec1 = (k, ec', s')"
      by simp
    show ?thesis
    proof (cases "failed ec1")
      case True
      with loop Suc.prems(4,5) False show ?thesis by (cases fuel) auto
    next
      case no_fail: False
      with wr_progress [OF Suc.prems(1) wr] False have "0 < k1" by auto
      with Suc.IH [of s1 "n + k1" ec1] eff loop Suc.prems False show ?thesis by auto
    qed
  qed
qed

lemma read_loop_effect:
  assumes "inv s" and "n \<le> m" and "m \<le> length buf"
    and "read_loop rd fuel s buf n m c ec = (buf', k, ec', s')"
  shows "inv s' \<and> n \<le> k \<and> k \<le> m \<and> length buf' = length buf \<and> take n buf' = take n buf
    \<and> received s' = received s @ drop n (take k buf') \<and> sent s' = sent s"
  using assms
proof (induction fuel arbitrary: s buf n ec)
  case 0
  then show ?case by simp
next
  case (Suc fuel)
  show ?case
  proof (cases "m \<le> n \<or> c buf ec n = 0")
    case True
    with Suc.prems show ?thesis by auto
  next
    case False
    obtain bs ec1 s1 where rd: "rd s (min (c buf ec n) (m - n)) = (bs, ec1, s1)"
      by (metis prod_cases3)
    let ?buf1 = "take n buf @ bs @ drop (n + length bs) buf"
    note eff = rd_effect [OF Suc.prems(1) rd]
    then have len: "length bs \<le> m - n" by simp
    from False Suc.prems(4) rd
    have "read_loop rd fuel s1 ?buf1 (n + length bs) m c ec1 = (buf', k, ec', s')" by simp
    with Suc.IH [of s1 "n + length bs" ?buf1 ec1] eff len Suc.prems(2,3) False
    have IH: "inv s' \<and> n + length bs \<le> k \<and> k \<le> m \<and> length buf' = length buf
        \<and> take (n + length bs) buf' = take n buf @ bs
        \<and> received s' = received s1 @ drop (n + length bs) (take k buf') \<and> sent s' = sent s1"
      by simp
    then have tk: "take (n + length bs) buf' = take n buf @ bs" by blast
    have "take n buf' = take n (take (n + length bs) buf')" by (simp add: min_absorb1)
    also have "\<dots> = take n buf" unfolding tk using Suc.prems(2,3) by simp
    finally have pre: "take n buf' = take n buf" .
    have "drop n (take (n + length bs) (take k buf')) = drop n (take (n + length bs) buf')"
      using IH by (simp add: min_absorb1)
    also have "\<dots> = bs" unfolding tk using Suc.prems(2,3) by simp
    finally have bs: "bs = drop n (take (n + length bs) (take k buf'))" by simp
    have "drop n (take k buf') = drop n (take (n + length bs) (take k buf')) @ drop (n + length bs) (take k buf')"
      by (metis add.commute append_take_drop_id drop_drop take_drop)
    with IH eff pre bs show ?thesis by simp
  qed
qed

lemma read_loop_complete:
  assumes "inv s" and "n \<le> m" and "m \<le> length buf" and "stops_on_failure c"
    and "read_loop rd fuel s buf n m c ec = (buf', k, ec', s')"
    and "\<not> failed ec'" and "m - n < fuel"
  shows "k = m \<or> c buf' ec' k = 0"
  using assms
proof (induction fuel arbitrary: s buf n ec)
  case 0
  then show ?case by simp
next
  case (Suc fuel)
  show ?case
  proof (cases "m \<le> n \<or> c buf ec n = 0")
    case True
    with Suc.prems show ?thesis by auto
  next
    case False
    obtain bs ec1 s1 where rd: "rd s (min (c buf ec n) (m - n)) = (bs, ec1, s1)"
      by (metis prod_cases3)
    let ?buf1 = "take n buf @ bs @ drop (n + length bs) buf"
    note eff = rd_effect [OF Suc.prems(1) rd]
    then have len: "length bs \<le> m - n" by simp
    from False Suc.prems(5) rd
    have loop: "read_loop rd fuel s1 ?buf1 (n + length bs) m c ec1 = (buf', k, ec', s')" by simp
    show ?thesis
    proof (cases "failed ec1")
      case True
      with loop Suc.prems(6) stops_on_failureD [OF Suc.prems(4) True] show ?thesis
        by (cases fuel) auto
    next
      case no_fail: False
      with rd_progress [OF Suc.prems(1) rd] False have "0 < length bs" by auto
      with len Suc.prems(2,7) have "n + length bs \<le> m" and "m - (n + length bs) < fuel"
        by linarith+
      with Suc.IH [of s1 "n + length bs" ?buf1 ec1] eff loop Suc.prems(3,4,6)
      show ?thesis by auto
    qed
  qed
qed

end

sublocale raw_stream \<subseteq> sync_stream "composed rd wr" inv sent received
proof (unfold_locales, goal_cases)
  case (1 s bs k ec s')
  then show ?case using write_loop_effect [of s 0 bs "length bs + 1" ec_ok k ec s']
    by (simp add: composed_def)
next
  case (2 s bs k ec s')
  then show ?case using write_loop_effect [of s 0 bs "length bs + 1" ec_ok k ec s']
    by (simp add: composed_def)
next
  case (3 s bs k ec s')
  then show ?case using write_loop_effect [of s 0 bs "length bs + 1" ec_ok k ec s']
    by (simp add: composed_def)
next
  case (4 s bs k ec s')
  then show ?case using write_loop_all [of s 0 bs "length bs + 1" ec_ok k ec s']
    by (simp add: composed_def)
next
  case (5 s m buf c buf' n ec s')
  then show ?case using read_loop_effect [of s 0 m buf "m + 1" c ec_ok buf' n ec s']
    by (simp add: composed_def)
next
  case (6 s m buf c buf' n ec s')
  then show ?case using read_loop_effect [of s 0 m buf "m + 1" c ec_ok buf' n ec s']
    by (simp add: composed_def)
next
  case (7 s m buf c buf' n ec s')
  then show ?case using read_loop_effect [of s 0 m buf "m + 1" c ec_ok buf' n ec s']
    by (simp add: composed_def)
next
  case (8 s m buf c buf' n ec s')
  then show ?case using read_loop_effect [of s 0 m buf "m + 1" c ec_ok buf' n ec s']
    by (simp add: composed_def)
next
  case (9 s m buf c buf' n ec s')
  then show ?case using read_loop_effect [of s 0 m buf "m + 1" c ec_ok buf' n ec s']
    by (simp add: composed_def)
next
  case (10 s m buf c buf' n ec s')
  then show ?case using read_loop_complete [of s 0 m buf c "m + 1" ec_ok buf' n ec s']
    by (simp add: composed_def)
qed

end
