(* ===== verification/Server.thy ===== *)
theory Server
  imports Messages_V4 Asio_Streams
begin

text \<open>
  The SOCKS server (\<open>class socks_connection\<close> of \<open>example/server/async/socks_server_async.cpp\<close>).
  A member function takes the connection and returns it with the asynchronous operations it
  has started; the completion handler of an operation is a function of its own, which takes
  the outcome.  \<open>op\<close> names the operations by their handlers, so the operations in flight are
  the whole control state of a connection.

  The vectors \<open>buffer_\<close> and \<open>target_buffer_\<close> are byte lists, whose \<open>operator[]\<close> is a checked
  access.  Of \<open>target_socket_\<close> the handlers see whether it is open and its local endpoint;
  what is printed to \<open>std::cerr\<close> is the log.
\<close>

section \<open>The connection\<close>

datatype log_entry = Log_error error_code string | Log_userpass "byte list" "byte list"

record connection =
  c_buffer :: buffer
  c_target_buffer :: buffer
  c_server_choice :: byte
  c_target :: endpoint
  c_target_local :: "endpoint option"
  c_closed :: bool
  c_log :: "log_entry list"

datatype op =
    Read_greeting | Write_choice | Read_userpass | Write_userpass_reply | Read_request
  | Resolve string string | Connect_target | Connect_target_v4
  | Write_reply | Write_reply_v4
  | Read_client | Write_target | Read_target | Write_client

type_synonym handler = "(connection \<times> op list) result"

text \<open>\<open>std::vector::resize\<close>.\<close>

definition vec_resize :: "nat \<Rightarrow> buffer \<Rightarrow> buffer" where
  "vec_resize n v = take n v @ replicate (n - length v) 0"

definition connection_new :: connection where
  "connection_new =
     \<lparr>c_buffer = replicate 258 0, c_target_buffer = [], c_server_choice = 0x00,
      c_target = endpoint_default, c_target_local = None, c_closed = False, c_log = []\<rparr>"

definition fail :: "error_code \<Rightarrow> string \<Rightarrow> connection \<Rightarrow> connection" where
  "fail ec what c = c\<lparr>c_log := c_log c @ [Log_error ec what]\<rparr>"

definition stop_with :: "error_code \<Rightarrow> string \<Rightarrow> connection \<Rightarrow> handler" where
  "stop_with ec what c = Inr (fail ec what c, [])"

section \<open>Completion conditions\<close>

text \<open>The lambdas capture \<open>this\<close> and look at \<open>c_buffer\<close> while the read fills it.\<close>

definition greeting_cond :: completion where
  "greeting_cond buf ec n =
     (if failed ec \<or> (n > 0 \<and> buf ! 0 \<noteq> 0x05 \<and> buf ! 0 \<noteq> 0x04) then 0
      else if buf ! 0 = 0x04 then
        (let maxn = length buf in
         if n \<ge> 1 \<and> buf ! 1 \<noteq> 0x01 then 0
         else if n \<ge> 9 \<and> list_ex (\<lambda>i. buf ! i = 0x00) [8..<n] then 0
         else maxn - n)
      else if n \<ge> 2 then
        (let nmethods = unat (buf ! 1); greet_n = 2 + nmethods in
         if n < greet_n then greet_n - n else 0)
      else 258 - n)"

definition userpass_cond :: completion where
  "userpass_cond buf ec n =
     (if failed ec then 0
      else
        let nmax = 513 in
        if n \<ge> 1 \<and> buf ! 0 \<noteq> 0x01 then 0
        else if n < 2 then nmax
        else
          let idlen = unat (buf ! 1);
              pwlen = (if n > 2 + idlen then unat (buf ! (2 + idlen)) else 256)
          in 3 + idlen + pwlen)"

definition request_cond :: completion where
  "request_cond buf ec n =
     (let nmax = 263 in
      if failed ec \<or> (n \<ge> 1 \<and> buf ! 0 \<noteq> 0x05) \<or> (n \<ge> 2 \<and> buf ! 1 \<noteq> 0x01)
         \<or> (n \<ge> 3 \<and> buf ! 2 \<noteq> 0x00) then 0
      else if n < 4 then nmax - n
      else
        let req_n =
          (if buf ! 3 = 0x01 then 10
           else if buf ! 3 = 0x03 then
             (let addr_n = (if n > 4 then unat (buf ! 4) else 256) in 7 + addr_n)
           else if buf ! 3 = 0x04 then 22
           else 0)
        in if n < req_n then req_n - n else 0)"

section \<open>Replies\<close>

text \<open>The assignments to \<open>buffer_[i]\<close>, \<open>buffer_[i + 1]\<close>, and so on.\<close>

definition set_bytes :: "nat \<Rightarrow> byte list \<Rightarrow> connection \<Rightarrow> connection result" where
  "set_bytes i bs c =
     res_bind (put_bytes (c_buffer c) i bs) (\<lambda>(buf, _). Inr (c\<lparr>c_buffer := buf\<rparr>))"

definition port_hi :: "u16 \<Rightarrow> byte" where
  "port_hi p = ucast (drop_bit 8 p AND 0xFF)"

definition port_lo :: "u16 \<Rightarrow> byte" where
  "port_lo p = ucast (p AND 0xFF)"

definition local_endpoint :: "connection \<Rightarrow> endpoint result" where
  "local_endpoint c =
     (case c_target_local c of Some ep \<Rightarrow> Inr ep | None \<Rightarrow> Inl Socket_not_open)"

definition do_connect_reply :: "byte \<Rightarrow> connection \<Rightarrow> handler" where
  "do_connect_reply rep c =
     res_bind (local_endpoint c) (\<lambda>bnd_ep.
     res_bind
       (if rep \<noteq> 0x00 then
          res_bind (set_bytes 0 [0x05, rep, 0x00, 0x01] (c\<lparr>c_buffer := vec_resize 10 (c_buffer c)\<rparr>))
            (\<lambda>c.
          res_bind (set_bytes 4 [0x00, 0x00, 0x00, 0x00] c) (\<lambda>c.
          set_bytes 8 [0x00, 0x00] c))
        else if is_v4 (ep_address bnd_ep) then
          res_bind (set_bytes 0 [0x05, rep, 0x00, 0x01] (c\<lparr>c_buffer := vec_resize 10 (c_buffer c)\<rparr>))
            (\<lambda>c.
          res_bind (to_v4_bytes (ep_address bnd_ep)) (\<lambda>bnd_bytes.
          res_bind (set_bytes 4 [bnd_bytes ! 0, bnd_bytes ! 1, bnd_bytes ! 2, bnd_bytes ! 3] c)
            (\<lambda>c.
          set_bytes 8 [port_hi (ep_port bnd_ep), port_lo (ep_port bnd_ep)] c)))
        else
          res_bind (set_bytes 0 [0x05, rep, 0x00, 0x04] (c\<lparr>c_buffer := vec_resize 22 (c_buffer c)\<rparr>))
            (\<lambda>c.
          res_bind (to_v6_bytes (ep_address bnd_ep)) (\<lambda>bnd_bytes.
          res_bind (set_bytes 4 bnd_bytes c) (\<lambda>c.
          set_bytes 20 [port_hi (ep_port bnd_ep), port_lo (ep_port bnd_ep)] c))))
       (\<lambda>c. Inr (c, [Write_reply])))"

definition do_connect_reply_v4 :: "byte \<Rightarrow> connection \<Rightarrow> handler" where
  "do_connect_reply_v4 rep c =
     res_bind (local_endpoint c) (\<lambda>bnd_ep.
     res_bind (set_bytes 0 [0x04, rep] (c\<lparr>c_buffer := vec_resize 8 (c_buffer c)\<rparr>)) (\<lambda>c.
     res_bind
       (if rep \<noteq> 90 then
          res_bind (set_bytes 2 [0x00, 0x00] c) (\<lambda>c.
          set_bytes 4 [0x00, 0x00, 0x00, 0x00] c)
        else
          res_bind (set_bytes 2 [port_hi (ep_port bnd_ep), port_lo (ep_port bnd_ep)] c) (\<lambda>c.
          if is_v4 (ep_address bnd_ep) then
            res_bind (to_v4_bytes (ep_address bnd_ep)) (\<lambda>bnd_bytes.
            set_bytes 4 [bnd_bytes ! 0, bnd_bytes ! 1, bnd_bytes ! 2, bnd_bytes ! 3] c)
          else set_bytes 4 [0x00, 0x00, 0x00, 0x00] c))
       (\<lambda>c. Inr (c, [Write_reply_v4]))))"

section \<open>Greeting and authentication\<close>

definition do_server_choice :: "connection \<Rightarrow> handler" where
  "do_server_choice c = Inr (c\<lparr>c_buffer := [0x05, c_server_choice c]\<rparr>, [Write_choice])"

definition parse_socks_greeting :: "connection \<Rightarrow> handler" where
  "parse_socks_greeting c =
     (if c_buffer c = [] then stop_with (Asio_code Asio_message_size) ''Empty SOCKS greeting'' c
      else res_bind (get_byte (c_buffer c) 0) (\<lambda>ver.
        if ver \<noteq> 0x05
        then stop_with (Asio_code Asio_no_protocol_option) ''Bad SOCKS version'' c
        else if length (c_buffer c) = 1
        then stop_with (Asio_code Asio_message_size) ''Empty SOCKS auth methods'' c
        else res_bind (get_byte (c_buffer c) 1) (\<lambda>nmethods.
          if unat nmethods \<noteq> length (c_buffer c) - 2
          then stop_with (Asio_code Asio_message_size) ''Missing SOCKS auth methods'' c
          else if list_ex (\<lambda>i. c_buffer c ! i = 0x02) [2..<length (c_buffer c)]
          then do_server_choice (c\<lparr>c_server_choice := 0x02\<rparr>)
          else if list_ex (\<lambda>i. c_buffer c ! i = 0x00) [2..<length (c_buffer c)]
          then do_server_choice (c\<lparr>c_server_choice := 0x00\<rparr>)
          else do_server_choice (c\<lparr>c_server_choice := 0xFF\<rparr>))))"

definition do_userpass_greet :: "connection \<Rightarrow> handler" where
  "do_userpass_greet c = Inr (c\<lparr>c_buffer := vec_resize 513 (c_buffer c)\<rparr>, [Read_userpass])"

definition do_read_connect_request :: "connection \<Rightarrow> handler" where
  "do_read_connect_request c = Inr (c\<lparr>c_buffer := vec_resize 263 (c_buffer c)\<rparr>, [Read_request])"

definition parse_userpass_greeting :: "connection \<Rightarrow> handler" where
  "parse_userpass_greeting c =
     (if c_buffer c = [] then stop_with (Asio_code Asio_message_size) ''Empty userpass greeting'' c
      else res_bind (get_byte (c_buffer c) 0) (\<lambda>ver.
        if ver \<noteq> 0x01
        then stop_with (Asio_code Asio_no_protocol_option) ''Bad userpass version'' c
        else if length (c_buffer c) = 1
        then stop_with (Asio_code Asio_message_size) ''Missing SOCKS username'' c
        else res_bind (get_byte (c_buffer c) 1) (\<lambda>b1.
          let idlen = unat b1 in
          if length (c_buffer c) < idlen + 2
          then stop_with (Asio_code Asio_message_size) ''Incomplete SOCKS username'' c
          else if length (c_buffer c) < idlen + 3
          then stop_with (Asio_code Asio_message_size) ''Missing SOCKS password'' c
          else res_bind (get_byte (c_buffer c) (2 + idlen)) (\<lambda>bp.
            let passlen = unat bp in
            if length (c_buffer c) < idlen + 3 + passlen
            then stop_with (Asio_code Asio_message_size) ''Incomplete SOCKS password'' c
            else
              res_bind (get_bytes (c_buffer c) 2 idlen) (\<lambda>username.
              res_bind (get_bytes (c_buffer c) (2 + idlen) passlen) (\<lambda>password.
              Inr (c\<lparr>c_log := c_log c @ [Log_userpass username password], c_buffer := [0x01, 0x00]\<rparr>,
                [Write_userpass_reply])))))))"

section \<open>The connect request\<close>

text \<open>A log entry followed by an error reply.\<close>

definition refuse :: "error_code \<Rightarrow> string \<Rightarrow> byte \<Rightarrow> connection \<Rightarrow> handler" where
  "refuse ec what rep c = do_connect_reply rep (fail ec what c)"

definition refuse_v4 :: "error_code \<Rightarrow> string \<Rightarrow> byte \<Rightarrow> connection \<Rightarrow> handler" where
  "refuse_v4 ec what rep c = do_connect_reply_v4 rep (fail ec what c)"

definition do_target_connect :: "connection \<Rightarrow> handler" where
  "do_target_connect c = Inr (c, [Connect_target])"

definition do_target_connect_v4 :: "connection \<Rightarrow> handler" where
  "do_target_connect_v4 c = Inr (c, [Connect_target_v4])"

text \<open>\<open>port |= b; port <<= 8; port |= b'\<close>.\<close>

definition port_of_bytes :: "byte \<Rightarrow> byte \<Rightarrow> u16" where
  "port_of_bytes hi lo =
     (let port = (0 :: u16); port = port OR ucast hi; port = push_bit 8 port in port OR ucast lo)"

definition make_address_v4_bytes :: "byte list \<Rightarrow> address" where
  "make_address_v4_bytes bs = Address_v4 (be_word bs)"

definition parse_connect_v4_address :: "connection \<Rightarrow> handler" where
  "parse_connect_v4_address c =
     (if length (c_buffer c) = 10 then
        res_bind (get_bytes (c_buffer c) 4 4) (\<lambda>addr.
        res_bind (get_byte (c_buffer c) 8) (\<lambda>b8.
        res_bind (get_byte (c_buffer c) 9) (\<lambda>b9.
        do_target_connect (c\<lparr>c_target :=
          \<lparr>ep_address = make_address_v4_bytes addr, ep_port = port_of_bytes b8 b9\<rparr>\<rparr>))))
      else refuse (Asio_code Asio_message_size) ''Invalid SOCKS ipv4 address'' 0x08 c)"

definition parse_connect_v6_address :: "connection \<Rightarrow> handler" where
  "parse_connect_v6_address c =
     (if length (c_buffer c) = 22 then
        res_bind (get_bytes (c_buffer c) 4 16) (\<lambda>addr.
        res_bind (get_byte (c_buffer c) 20) (\<lambda>b20.
        res_bind (get_byte (c_buffer c) 21) (\<lambda>b21.
        do_target_connect (c\<lparr>c_target :=
          \<lparr>ep_address = make_address_v6 addr, ep_port = port_of_bytes b20 b21\<rparr>\<rparr>))))
      else refuse (Asio_code Asio_message_size) ''Invalid SOCKS ipv6 address'' 0x08 c)"

definition parse_connect_domain :: "connection \<Rightarrow> handler" where
  "parse_connect_domain c =
     res_bind (get_byte (c_buffer c) 4) (\<lambda>b4.
     if length (c_buffer c) = 7 + unat b4 then
       res_bind (get_bytes (c_buffer c) 5 (unat b4)) (\<lambda>host.
       res_bind (get_byte (c_buffer c) (length (c_buffer c) - 2)) (\<lambda>hi.
       res_bind (get_byte (c_buffer c) (length (c_buffer c) - 1)) (\<lambda>lo.
       Inr (c, [Resolve (map char_of_byte host) (to_string (port_of_bytes hi lo))]))))
     else refuse (Asio_code Asio_message_size) ''Invalid SOCKS domain address'' 0x08 c)"

definition parse_socks_connect :: "connection \<Rightarrow> handler" where
  "parse_socks_connect c =
     (if c_buffer c = [] then stop_with (Asio_code Asio_message_size) ''Empty SOCKS connect'' c
      else res_bind (get_byte (c_buffer c) 0) (\<lambda>ver.
      if ver \<noteq> 0x05
      then refuse (Asio_code Asio_no_protocol_option) ''Bad SOCKS request version'' 0x02 c
      else if length (c_buffer c) = 1
      then refuse (Asio_code Asio_message_size) ''Missing SOCKS command'' 0x02 c
      else res_bind (get_byte (c_buffer c) 1) (\<lambda>cmd.
      if cmd \<noteq> 0x01
      then refuse (Asio_code Asio_message_size) ''Invalid SOCKS connect command'' 0x07 c
      else if length (c_buffer c) = 2
      then refuse (Asio_code Asio_message_size) ''Missing SOCKS reserved byte'' 0x02 c
      else res_bind (get_byte (c_buffer c) 2) (\<lambda>rsv.
      if rsv \<noteq> 0x00
      then refuse (Asio_code Asio_message_size) ''Invalid SOCKS reserved byte'' 0x02 c
      else if length (c_buffer c) = 3
      then refuse (Asio_code Asio_message_size) ''Missing SOCKS address type'' 0x02 c
      else res_bind (get_byte (c_buffer c) 3) (\<lambda>atyp.
      if atyp \<noteq> 0x01 \<and> atyp \<noteq> 0x03 \<and> atyp \<noteq> 0x04
      then refuse (Asio_code Asio_message_size) ''Invalid SOCKS address type'' 0x08 c
      else if atyp = 0x01 then parse_connect_v4_address c
      else if atyp = 0x04 then parse_connect_v6_address c
      else parse_connect_domain c)))))"

definition parse_socks_connect_v4 :: "connection \<Rightarrow> handler" where
  "parse_socks_connect_v4 c =
     (if c_buffer c = [] then stop_with (Asio_code Asio_message_size) ''Empty SOCKS connect'' c
      else res_bind (get_byte (c_buffer c) 0) (\<lambda>ver.
      if ver \<noteq> 0x04
      then refuse_v4 (Asio_code Asio_no_protocol_option) ''Bad request version'' 91 c
      else if length (c_buffer c) = 1
      then refuse_v4 (Asio_code Asio_message_size) ''Missing SOCKS command'' 91 c
      else res_bind (get_byte (c_buffer c) 1) (\<lambda>cmd.
      if cmd \<noteq> 0x01
      then refuse_v4 (Asio_code Asio_message_size) ''Invalid SOCKS connect command'' 91 c
      else if length (c_buffer c) \<ge> 8 then
        res_bind (get_byte (c_buffer c) 2) (\<lambda>b2.
        res_bind (get_byte (c_buffer c) 3) (\<lambda>b3.
        res_bind (get_bytes (c_buffer c) 4 4) (\<lambda>addr.
        do_target_connect_v4 (c\<lparr>c_target :=
          \<lparr>ep_address = make_address_v4_bytes addr, ep_port = port_of_bytes b2 b3\<rparr>\<rparr>))))
      else refuse_v4 (Asio_code Asio_message_size) ''Invalid SOCKS ipv4 address'' 91 c)))"

section \<open>Relay\<close>

definition do_relay_from_client :: "connection \<Rightarrow> handler" where
  "do_relay_from_client c = Inr (c\<lparr>c_buffer := vec_resize 1024 (c_buffer c)\<rparr>, [Read_client])"

definition do_relay_from_target :: "connection \<Rightarrow> handler" where
  "do_relay_from_target c =
     Inr (c\<lparr>c_target_buffer := vec_resize 1024 (c_target_buffer c)\<rparr>, [Read_target])"

definition do_relay_to_target :: "connection \<Rightarrow> handler" where
  "do_relay_to_target c = Inr (c, [Write_target])"

definition do_relay_to_client :: "connection \<Rightarrow> handler" where
  "do_relay_to_client c = Inr (c, [Write_client])"

definition do_relay :: "connection \<Rightarrow> handler" where
  "do_relay c =
     res_bind (do_relay_from_client c) (\<lambda>(c, ops1).
     res_bind (do_relay_from_target c) (\<lambda>(c, ops2). Inr (c, ops1 @ ops2)))"

section \<open>Completion handlers\<close>

text \<open>
  \<open>start\<close> prints the address of the client, which \<open>socket_.remote_endpoint()\<close> returns; the
  argument is None when the client has disconnected already.
\<close>

definition start :: "endpoint option \<Rightarrow> connection \<Rightarrow> handler" where
  "start peer c =
     (case peer of None \<Rightarrow> Inl Socket_not_connected | Some ep \<Rightarrow> Inr (c, [Read_greeting]))"

definition on_greeting :: "error_code \<Rightarrow> nat \<Rightarrow> connection \<Rightarrow> handler" where
  "on_greeting ec n c =
     (if \<not> failed ec then
        (let c = c\<lparr>c_buffer := vec_resize n (c_buffer c)\<rparr> in
         res_bind (get_byte (c_buffer c) 0) (\<lambda>ver.
         if ver = 0x05 then parse_socks_greeting c
         else if ver = 0x04 then parse_socks_connect_v4 c
         else stop_with ec ''Failure to read SOCKS greeting'' c))
      else stop_with ec ''Failure to read SOCKS greeting'' c)"

definition on_choice_written :: "error_code \<Rightarrow> connection \<Rightarrow> handler" where
  "on_choice_written ec c =
     (if failed ec then stop_with ec ''Cannot write greeting response'' c
      else if c_server_choice c = 0xFF
      then stop_with ec ''No compatible client auth method'' c
      else if c_server_choice c = 0x02 then do_userpass_greet c
      else do_read_connect_request c)"

definition on_userpass :: "error_code \<Rightarrow> nat \<Rightarrow> connection \<Rightarrow> handler" where
  "on_userpass ec n c =
     (if \<not> failed ec then parse_userpass_greeting (c\<lparr>c_buffer := vec_resize n (c_buffer c)\<rparr>)
      else stop_with ec ''Failure to read SOCKS userpass greeting'' c)"

definition on_userpass_reply_written :: "error_code \<Rightarrow> connection \<Rightarrow> handler" where
  "on_userpass_reply_written ec c =
     (if failed ec then stop_with ec ''Cannot write userpass response'' c
      else do_read_connect_request c)"

definition on_request :: "error_code \<Rightarrow> nat \<Rightarrow> connection \<Rightarrow> handler" where
  "on_request ec n c =
     (if \<not> failed ec then parse_socks_connect (c\<lparr>c_buffer := vec_resize n (c_buffer c)\<rparr>)
      else stop_with ec ''Failure to read SOCKS connect'' c)"

text \<open>A successful resolution has at least one result, whose first is taken.\<close>

definition on_resolved :: "error_code \<Rightarrow> endpoint list \<Rightarrow> connection \<Rightarrow> handler" where
  "on_resolved ec eps c =
     (if failed ec then
        res_bind (get_byte (c_buffer c) 4) (\<lambda>b4.
        res_bind (get_bytes (c_buffer c) 5 (unat b4)) (\<lambda>host.
        refuse ec ''Cannot resolve domain name'' 0x04 c))
      else
        (case eps of [] \<Rightarrow> Inl Out_of_bounds
         | ep # _ \<Rightarrow> do_target_connect (c\<lparr>c_target := ep\<rparr>)))"

definition on_connected :: "error_code \<Rightarrow> connection \<Rightarrow> handler" where
  "on_connected ec c =
     (if failed ec then refuse ec ''Cannot connect to target'' 0x04 c
      else do_connect_reply 0x00 c)"

definition on_connected_v4 :: "error_code \<Rightarrow> connection \<Rightarrow> handler" where
  "on_connected_v4 ec c =
     (if failed ec then refuse_v4 ec ''Cannot connect to target'' 91 c
      else do_connect_reply_v4 90 c)"

definition on_reply_written :: "error_code \<Rightarrow> connection \<Rightarrow> handler" where
  "on_reply_written ec c =
     (if failed ec then stop_with ec ''Cannot write connect reply'' c
      else res_bind (get_byte (c_buffer c) 1) (\<lambda>rep.
        if rep = 0x00 then do_relay c else Inr (c\<lparr>c_closed := True\<rparr>, [])))"

definition on_reply_v4_written :: "error_code \<Rightarrow> connection \<Rightarrow> handler" where
  "on_reply_v4_written ec c =
     (if failed ec then stop_with ec ''Cannot write connect reply'' c
      else res_bind (get_byte (c_buffer c) 0) (\<lambda>v.
        res_bind (get_byte (c_buffer c) 1) (\<lambda>rep.
        if (v = 0x05 \<and> rep = 0x00) \<or> (v = 0x04 \<and> rep = 90) then do_relay c
        else Inr (c\<lparr>c_closed := True\<rparr>, []))))"

definition on_client_read :: "error_code \<Rightarrow> nat \<Rightarrow> connection \<Rightarrow> handler" where
  "on_client_read ec n c =
     (if ec = eof then stop_with ec ''Client disconnected'' c
      else if failed ec then stop_with ec ''Cannot read from client'' c
      else do_relay_to_target (c\<lparr>c_buffer := vec_resize n (c_buffer c)\<rparr>))"

definition on_target_written :: "error_code \<Rightarrow> connection \<Rightarrow> handler" where
  "on_target_written ec c =
     (if failed ec then stop_with ec ''Cannot write to target'' c else do_relay_from_client c)"

definition on_target_read :: "error_code \<Rightarrow> nat \<Rightarrow> connection \<Rightarrow> handler" where
  "on_target_read ec n c =
     (if failed ec then stop_with ec ''Application server disconnected'' c
      else if failed ec then stop_with ec ''Cannot read from target'' c
      else do_relay_to_client (c\<lparr>c_target_buffer := vec_resize n (c_target_buffer c)\<rparr>))"

definition on_client_written :: "error_code \<Rightarrow> connection \<Rightarrow> handler" where
  "on_client_written ec c =
     (if failed ec then stop_with ec ''Cannot write to client'' c else do_relay_from_target c)"

end
