(* ===== verification/Server_Machine.thy ===== *)
theory Server_Machine
  imports Server "HOL-Library.Sublist"
begin

text \<open>
  A connection of the server as a state machine: the operations in flight, the outcomes
  Asio may deliver for each, and the step that runs a completion handler.  The ghost
  \<open>s_sent\<close> is what has been written to the client, and a run lists the operations that have
  completed.  The invariant says what the buffers hold at each operation and what the client has
  been sent.
\<close>

section \<open>Outcomes and steps\<close>

text \<open>
  \<open>Read_done buf n ec\<close>: the memory of the buffer, the bytes read and the code;
  \<open>Connect_done l ec\<close>: the target socket's local endpoint, if the socket has been opened.
\<close>

datatype outcome =
    Read_done buffer nat error_code
  | Write_done nat error_code
  | Resolve_done "endpoint list" error_code
  | Connect_done "endpoint option" error_code

fun handle :: "op \<Rightarrow> outcome \<Rightarrow> connection \<Rightarrow> handler" where
  "handle Read_greeting (Read_done buf n ec) c = on_greeting ec n (c\<lparr>c_buffer := buf\<rparr>)"
| "handle Write_choice (Write_done k ec) c = on_choice_written ec c"
| "handle Read_userpass (Read_done buf n ec) c = on_userpass ec n (c\<lparr>c_buffer := buf\<rparr>)"
| "handle Write_userpass_reply (Write_done k ec) c = on_userpass_reply_written ec c"
| "handle Read_request (Read_done buf n ec) c = on_request ec n (c\<lparr>c_buffer := buf\<rparr>)"
| "handle (Resolve host service) (Resolve_done eps ec) c = on_resolved ec eps c"
| "handle Connect_target (Connect_done l ec) c = on_connected ec (c\<lparr>c_target_local := l\<rparr>)"
| "handle Connect_target_v4 (Connect_done l ec) c = on_connected_v4 ec (c\<lparr>c_target_local := l\<rparr>)"
| "handle Write_reply (Write_done k ec) c = on_reply_written ec c"
| "handle Write_reply_v4 (Write_done k ec) c = on_reply_v4_written ec c"
| "handle Read_client (Read_done buf n ec) c = on_client_read ec n (c\<lparr>c_buffer := buf\<rparr>)"
| "handle Write_target (Write_done k ec) c = on_target_written ec c"
| "handle Read_target (Read_done buf n ec) c = on_target_read ec n (c\<lparr>c_target_buffer := buf\<rparr>)"
| "handle Write_client (Write_done k ec) c = on_client_written ec c"
| "handle _ _ c = Inr (c, [])"

text \<open>
  What Asio may deliver: a read fills at most its buffer, leaves the bytes it did not
  transfer, and ends without an error only when the buffer is full or the completion
  condition is 0; \<open>async_write\<close> without an error has written everything, \<open>async_write_some\<close>
  may have written less.
\<close>

definition read_done :: "completion \<Rightarrow> buffer \<Rightarrow> buffer \<Rightarrow> nat \<Rightarrow> error_code \<Rightarrow> bool" where
  "read_done cond old buf n ec \<longleftrightarrow>
     length buf = length old \<and> n \<le> length old \<and> drop n buf = drop n old
     \<and> (\<not> failed ec \<longrightarrow> n = length old \<or> cond buf ec n = 0)"

definition write_done :: "buffer \<Rightarrow> nat \<Rightarrow> error_code \<Rightarrow> bool" where
  "write_done buf k ec \<longleftrightarrow> k \<le> length buf \<and> (\<not> failed ec \<longrightarrow> k = length buf)"

fun allowed :: "op \<Rightarrow> outcome \<Rightarrow> connection \<Rightarrow> bool" where
  "allowed Read_greeting (Read_done buf n ec) c = read_done greeting_cond (c_buffer c) buf n ec"
| "allowed Write_choice (Write_done k ec) c = write_done (c_buffer c) k ec"
| "allowed Read_userpass (Read_done buf n ec) c = read_done userpass_cond (c_buffer c) buf n ec"
| "allowed Write_userpass_reply (Write_done k ec) c = write_done (c_buffer c) k ec"
| "allowed Read_request (Read_done buf n ec) c = read_done request_cond (c_buffer c) buf n ec"
| "allowed (Resolve host service) (Resolve_done eps ec) c = (\<not> failed ec \<longrightarrow> eps \<noteq> [])"
| "allowed Connect_target (Connect_done l ec) c = (\<not> failed ec \<longrightarrow> l \<noteq> None)"
| "allowed Connect_target_v4 (Connect_done l ec) c = (\<not> failed ec \<longrightarrow> l \<noteq> None)"
| "allowed Write_reply (Write_done k ec) c = write_done (c_buffer c) k ec"
| "allowed Write_reply_v4 (Write_done k ec) c = write_done (c_buffer c) k ec"
| "allowed Read_client (Read_done buf n ec) c =
     (length buf = length (c_buffer c) \<and> n \<le> length buf)"
| "allowed Write_target (Write_done k ec) c = (k \<le> length (c_buffer c))"
| "allowed Read_target (Read_done buf n ec) c =
     (length buf = length (c_target_buffer c) \<and> n \<le> length buf)"
| "allowed Write_client (Write_done k ec) c = (k \<le> length (c_target_buffer c))"
| "allowed _ _ c = False"

text \<open>The bytes an operation has written to the client.\<close>

fun to_client :: "op \<Rightarrow> outcome \<Rightarrow> connection \<Rightarrow> byte list" where
  "to_client Write_choice (Write_done k ec) c = take k (c_buffer c)"
| "to_client Write_userpass_reply (Write_done k ec) c = take k (c_buffer c)"
| "to_client Write_reply (Write_done k ec) c = take k (c_buffer c)"
| "to_client Write_reply_v4 (Write_done k ec) c = take k (c_buffer c)"
| "to_client Write_client (Write_done k ec) c = take k (c_target_buffer c)"
| "to_client _ _ c = []"

record server_state =
  s_conn :: connection
  s_ops :: "op list"
  s_sent :: "byte list"

definition complete :: "op \<Rightarrow> outcome \<Rightarrow> server_state \<Rightarrow> server_state result" where
  "complete opn out S =
     res_bind (handle opn out (s_conn S)) (\<lambda>(c, new).
     Inr \<lparr>s_conn = c, s_ops = remove1 opn (s_ops S) @ new,
          s_sent = s_sent S @ to_client opn out (s_conn S)\<rparr>)"

definition server_start :: server_state where
  "server_start = \<lparr>s_conn = connection_new, s_ops = [Read_greeting], s_sent = []\<rparr>"

inductive server_step :: "server_state \<Rightarrow> server_state \<Rightarrow> bool" where
  step: "opn \<in> set (s_ops S) \<Longrightarrow> allowed opn out (s_conn S) \<Longrightarrow> complete opn out S = Inr S'
    \<Longrightarrow> server_step S S'"

inductive server_reachable :: "server_state \<Rightarrow> bool" where
  start: "server_reachable server_start"
| step: "server_reachable S \<Longrightarrow> server_step S S' \<Longrightarrow> server_reachable S'"

inductive_cases server_stepE: "server_step S S'"

section \<open>Runs\<close>

text \<open>A run is the sequence of the operations that complete, with their outcomes.\<close>

inductive server_run :: "server_state \<Rightarrow> (op \<times> outcome) list \<Rightarrow> server_state \<Rightarrow> bool" where
  stay: "server_run S [] S"
| step: "opn \<in> set (s_ops S) \<Longrightarrow> allowed opn res (s_conn S) \<Longrightarrow> complete opn res S = Inr S1
    \<Longrightarrow> server_run S1 es S' \<Longrightarrow> server_run S ((opn, res) # es) S'"

lemma server_run_reachable: "server_run S es S' \<Longrightarrow> server_reachable S \<Longrightarrow> server_reachable S'"
proof (induction rule: server_run.induct)
  case (step opn S res S1 es S')
  from server_step.step [OF step(1-3)] have "server_reachable S1"
    by (rule server_reachable.step [OF step(6)])
  with step(5) show ?case .
qed

lemma server_run_append: "server_run S es S1 \<Longrightarrow> server_run S1 es' S' \<Longrightarrow> server_run S (es @ es') S'"
  by (induction rule: server_run.induct) (auto intro: server_run.step)

lemma server_run_single:
  assumes "allowed opn res c" and "handle opn res c = Inr (c', new)"
    and "server_run \<lparr>s_conn = c', s_ops = new, s_sent = out @ to_client opn res c\<rparr> es S'"
  shows "server_run \<lparr>s_conn = c, s_ops = [opn], s_sent = out\<rparr> ((opn, res) # es) S'"
  by (rule server_run.step [OF _ _ _ assms(3)]) (use assms in \<open>simp_all add: complete_def\<close>)

text \<open>The reachable states are the ends of the runs.\<close>

lemma server_reachable_iff_run: "server_reachable S \<longleftrightarrow> (\<exists>es. server_run server_start es S)"
proof
  show "server_reachable S \<Longrightarrow> \<exists>es. server_run server_start es S"
  proof (induction rule: server_reachable.induct)
    case start
    show ?case using server_run.stay by blast
  next
    case (step S S')
    then obtain es where es: "server_run server_start es S" by blast
    from step(2) obtain opn res where "server_run S [(opn, res)] S'"
      by (auto elim!: server_stepE intro: server_run.intros)
    with server_run_append [OF es] show ?case by blast
  qed
qed (auto intro: server_run_reachable server_reachable.start)

section \<open>The replies\<close>

lemma port_hi_lo: "[port_hi p, port_lo p] = be_bytes 2 p"
proof -
  have "(ucast (drop_bit 8 p AND 0xFF) :: byte) = ucast (drop_bit 8 p)"
  proof -
    have "drop_bit 8 p AND 0xFF = take_bit 8 (drop_bit 8 p)"
      by (simp add: take_bit_eq_mask mask_eq_exp_minus_1)
    then show ?thesis by (simp only:) (rule bit_word_eqI, auto simp: bit_simps)
  qed
  then show ?thesis using port_bytes [of p] by (simp add: port_hi_def port_lo_def)
qed

lemma port_of_bytes_eq: "port_of_bytes hi lo = be_word [hi, lo]"
  by (simp add: port_of_bytes_def be_word_two)

lemma set_bytes_eq:
  "i + length bs \<le> length (c_buffer c) \<Longrightarrow> set_bytes i bs c
    = Inr (c\<lparr>c_buffer := take i (c_buffer c) @ bs @ drop (i + length bs) (c_buffer c)\<rparr>)"
proof -
  have put: "i + length bs \<le> length buf \<Longrightarrow> put_bytes buf i bs
      = Inr (take i buf @ bs @ drop (i + length bs) buf, i + length bs)" for buf
  proof (induction bs arbitrary: buf i)
    case (Cons b bs)
    then have "i < length buf" by simp
    with Cons show ?case
      by (simp add: put_byte_def take_Suc_conv_app_nth drop_update_cancel)
  qed simp
  assume "i + length bs \<le> length (c_buffer c)"
  then show ?thesis by (simp add: set_bytes_def put)
qed

lemma length_vec_resize [simp]: "length (vec_resize n v) = n"
  by (simp add: vec_resize_def)

lemma vec_resize_take [simp]: "n \<le> length v \<Longrightarrow> vec_resize n v = take n v"
  by (simp add: vec_resize_def)

lemma do_connect_reply_closed:
  "c_target_local c = None \<Longrightarrow> do_connect_reply rep c = Inl Socket_not_open"
  "c_target_local c = None \<Longrightarrow> do_connect_reply_v4 rep c = Inl Socket_not_open"
  by (simp_all add: do_connect_reply_def do_connect_reply_v4_def local_endpoint_def)

lemma do_connect_reply_open:
  assumes "c_target_local c = Some ep"
  shows "do_connect_reply rep c
    = Inr (c\<lparr>c_buffer := connect_reply_bytes rep (if rep = 0 then ep else endpoint_default)\<rparr>,
        [Write_reply])"
proof (cases "rep = 0")
  case False
  have "be_bytes 4 (0 :: u32) @ be_bytes 2 (0 :: u16) = [0, 0, 0, 0, 0, 0]"
    by (simp add: be_bytes_two be_bytes_four)
  with False assms show ?thesis
    by (simp add: do_connect_reply_def local_endpoint_def set_bytes_eq connect_reply_bytes_def
        endpoint_bytes_def)
next
  case True
  show ?thesis
  proof (cases "ep_address ep")
    case (Address_v4 ip)
    have "[be_bytes 4 ip ! 0, be_bytes 4 ip ! 1, be_bytes 4 ip ! 2, be_bytes 4 ip ! 3] = be_bytes 4 ip"
      by (simp add: be_bytes_four)
    with True Address_v4 assms show ?thesis
      by (simp add: do_connect_reply_def local_endpoint_def set_bytes_eq connect_reply_bytes_def
          endpoint_bytes_def port_hi_lo)
  next
    case (Address_v6 ip)
    with True assms show ?thesis
      by (simp add: do_connect_reply_def local_endpoint_def set_bytes_eq connect_reply_bytes_def
          endpoint_bytes_def port_hi_lo)
  qed
qed

fun v4_or_zero :: "address \<Rightarrow> u32" where
  "v4_or_zero (Address_v4 ip) = ip"
| "v4_or_zero (Address_v6 ip) = 0"

lemma do_connect_reply_v4_open:
  assumes "c_target_local c = Some ep"
  shows "do_connect_reply_v4 rep c
    = Inr (c\<lparr>c_buffer := (if rep = 90 then connect_reply_v4_bytes 4 90 (v4_or_zero (ep_address ep)) (ep_port ep)
        else connect_reply_v4_bytes 4 rep 0 0)\<rparr>, [Write_reply_v4])"
proof (cases "rep = 90")
  case False
  with assms show ?thesis
    by (simp add: do_connect_reply_v4_def local_endpoint_def set_bytes_eq connect_reply_v4_bytes_def
        be_bytes_two be_bytes_four)
next
  case True
  then show ?thesis
    using assms
    by (cases "ep_address ep")
      (simp_all add: do_connect_reply_v4_def local_endpoint_def set_bytes_eq
        connect_reply_v4_bytes_def port_hi_lo be_bytes_four)
qed

lemmas do_connect_reply_simps = do_connect_reply_closed do_connect_reply_open
  do_connect_reply_v4_open refuse_def refuse_v4_def fail_def

section \<open>The invariant\<close>

text \<open>
  What the client has been sent when the connect request is read: the choice of method 0, or
  the choice of method 2 and the acceptance of the credentials.
\<close>

definition greeted :: "byte list \<Rightarrow> bool" where
  "greeted out \<longleftrightarrow> out = [0x05, 0x00] \<or> out = [0x05, 0x02, 0x01, 0x00]"

text \<open>The connection's first operations run one at a time, in a state that \<open>single_ok\<close> describes.\<close>

fun single_ok :: "op \<Rightarrow> connection \<Rightarrow> byte list \<Rightarrow> bool" where
  "single_ok Read_greeting c out = (c_buffer c = replicate 258 0 \<and> c_target_local c = None \<and> out = [])"
| "single_ok Write_choice c out =
     (c_buffer c = [0x05, c_server_choice c] \<and> c_server_choice c \<in> {0x00, 0x02, 0xFF}
      \<and> c_target_local c = None \<and> out = [])"
| "single_ok Read_userpass c out =
     (length (c_buffer c) = 513 \<and> c_target_local c = None \<and> out = [0x05, 0x02])"
| "single_ok Write_userpass_reply c out =
     (c_buffer c = [0x01, 0x00] \<and> c_target_local c = None \<and> out = [0x05, 0x02])"
| "single_ok Read_request c out =
     (length (c_buffer c) = 263 \<and> c_target_local c = None \<and> greeted out)"
| "single_ok (Resolve host service) c out =
     (7 \<le> length (c_buffer c) \<and> length (c_buffer c) = 7 + unat (c_buffer c ! 4)
      \<and> c_target_local c = None \<and> greeted out)"
| "single_ok Connect_target c out = (c_target_local c = None \<and> greeted out)"
| "single_ok Connect_target_v4 c out = (c_target_local c = None \<and> out = [])"
| "single_ok Write_reply c out =
     (\<exists>ep rep. c_target_local c = Some ep \<and> greeted out
        \<and> c_buffer c = connect_reply_bytes rep (if rep = 0 then ep else endpoint_default))"
| "single_ok Write_reply_v4 c out =
     (\<exists>ep rep. c_target_local c = Some ep \<and> out = []
        \<and> c_buffer c = (if rep = 90
            then connect_reply_v4_bytes 4 90 (v4_or_zero (ep_address ep)) (ep_port ep)
            else connect_reply_v4_bytes 4 rep 0 0))"
| "single_ok _ c out = False"

text \<open>What a client has been sent once its data is relayed.\<close>

definition granted :: "connection \<Rightarrow> byte list \<Rightarrow> bool" where
  "granted c out \<longleftrightarrow> (\<exists>ep. c_target_local c = Some ep
     \<and> ((\<exists>h. greeted h \<and> prefix (h @ connect_reply_bytes 0 ep) out)
        \<or> prefix (connect_reply_v4_bytes 4 90 (v4_or_zero (ep_address ep)) (ep_port ep)) out))"

text \<open>
  While data is relayed, at most one operation is in flight in each direction, and an
  operation that reads has a buffer of 1024 bytes.
\<close>

fun upstream :: "op \<Rightarrow> bool" where
  "upstream Read_client = True"
| "upstream Write_target = True"
| "upstream _ = False"

fun downstream :: "op \<Rightarrow> bool" where
  "downstream Read_target = True"
| "downstream Write_client = True"
| "downstream _ = False"

definition relay_ok :: "connection \<Rightarrow> op list \<Rightarrow> byte list \<Rightarrow> bool" where
  "relay_ok c ops out \<longleftrightarrow> granted c out
     \<and> (\<forall>opn \<in> set ops. upstream opn \<or> downstream opn)
     \<and> length (filter upstream ops) \<le> 1 \<and> length (filter downstream ops) \<le> 1
     \<and> (Read_client \<in> set ops \<longrightarrow> length (c_buffer c) = 1024)
     \<and> (Read_target \<in> set ops \<longrightarrow> length (c_target_buffer c) = 1024)"

definition ops_ok :: "connection \<Rightarrow> op list \<Rightarrow> byte list \<Rightarrow> bool" where
  "ops_ok c ops out \<longleftrightarrow> ops = [] \<or> (\<exists>opn. ops = [opn] \<and> single_ok opn c out) \<or> relay_ok c ops out"

definition server_inv :: "server_state \<Rightarrow> bool" where
  "server_inv S \<longleftrightarrow> ops_ok (s_conn S) (s_ops S) (s_sent S)"

lemma ops_ok_Nil [simp, intro]: "ops_ok c [] out"
  and ops_ok_relay: "relay_ok c ops out \<Longrightarrow> ops_ok c ops out"
  by (simp_all add: ops_ok_def)

lemma ops_ok_single [simp]:
  "\<not> upstream opn \<Longrightarrow> \<not> downstream opn \<Longrightarrow> ops_ok c [opn] out \<longleftrightarrow> single_ok opn c out"
  by (simp add: ops_ok_def relay_ok_def)

text \<open>The post condition of a handler: no fault but the unopened target socket.\<close>

abbreviation handler_post :: "byte list \<Rightarrow> handler \<Rightarrow> bool" where
  "handler_post out m \<equiv> res_post (\<lambda>e. e = Socket_not_open) (\<lambda>(c, ops). ops_ok c ops out) m"

lemma stop_with_post [intro, simp]: "handler_post out (stop_with ec what c)"
  by (auto simp: stop_with_def)

lemma do_connect_reply_post [intro]:
  assumes "greeted out"
  shows "handler_post out (do_connect_reply rep c)"
proof (cases "c_target_local c")
  case (Some ep)
  let ?c = "c\<lparr>c_buffer := connect_reply_bytes rep (if rep = 0 then ep else endpoint_default)\<rparr>"
  have "single_ok Write_reply ?c out"
    unfolding single_ok.simps using assms Some by (intro exI [of _ ep] exI [of _ rep]) simp
  then show ?thesis by (simp only: do_connect_reply_open [OF Some]) simp
qed (simp add: do_connect_reply_closed)

lemma do_connect_reply_v4_post [intro]:
  assumes "out = []"
  shows "handler_post out (do_connect_reply_v4 rep c)"
proof (cases "c_target_local c")
  case (Some ep)
  let ?c = "c\<lparr>c_buffer := (if rep = 90 then connect_reply_v4_bytes 4 90 (v4_or_zero (ep_address ep)) (ep_port ep)
        else connect_reply_v4_bytes 4 rep 0 0)\<rparr>"
  have "single_ok Write_reply_v4 ?c out"
    unfolding single_ok.simps using assms Some by (intro exI [of _ ep] exI [of _ rep]) simp
  then show ?thesis by (simp only: do_connect_reply_v4_open [OF Some]) simp
qed (simp add: do_connect_reply_closed)

lemma refuse_post [intro]:
  "greeted out \<Longrightarrow> handler_post out (refuse ec what rep c)"
  "out = [] \<Longrightarrow> handler_post out (refuse_v4 ec what rep c)"
  unfolding refuse_def refuse_v4_def
  by (rule do_connect_reply_post, assumption) (rule do_connect_reply_v4_post, assumption)

lemma parse_socks_greeting_post:
  assumes "c_target_local c = None" and "out = []"
  shows "handler_post out (parse_socks_greeting c)"
  using assms
  by (cases "c_buffer c" rule: list_two_cases)
    (simp_all add: parse_socks_greeting_def do_server_choice_def)

lemma parse_socks_connect_v4_post:
  assumes "c_target_local c = None" and "out = []"
  shows "handler_post out (parse_socks_connect_v4 c)"
  using assms
  by (cases "c_buffer c" rule: list_two_cases)
    (auto simp: parse_socks_connect_v4_def do_target_connect_v4_def)

lemma parse_userpass_greeting_post:
  assumes "c_target_local c = None" and "out = [0x05, 0x02]"
  shows "handler_post out (parse_userpass_greeting c)"
  using assms
  by (cases "c_buffer c" rule: list_two_cases)
    (auto simp: parse_userpass_greeting_def Let_def)

lemma parse_connect_address_post:
  assumes "c_target_local c = None" and "greeted out"
  shows "handler_post out (parse_connect_v4_address c)" "handler_post out (parse_connect_v6_address c)"
  using assms
  by (auto simp: parse_connect_v4_address_def parse_connect_v6_address_def do_target_connect_def)

lemma parse_connect_domain_post:
  assumes "c_target_local c = None" and "greeted out" and "4 < length (c_buffer c)"
  shows "handler_post out (parse_connect_domain c)"
  using assms by (auto simp: parse_connect_domain_def)

lemma parse_socks_connect_post:
  assumes "c_target_local c = None" and "greeted out"
    and "length (c_buffer c) = 4 \<Longrightarrow> c_buffer c ! 3 \<noteq> 0x03 \<or> c_buffer c ! 0 \<noteq> 0x05
      \<or> c_buffer c ! 1 \<noteq> 0x01 \<or> c_buffer c ! 2 \<noteq> 0x00"
  shows "handler_post out (parse_socks_connect c)"
proof (cases "4 < length (c_buffer c)")
  case True
  then have "c_buffer c \<noteq> []" by auto
  with True assms show ?thesis
    by (auto simp: parse_socks_connect_def intro: parse_connect_address_post parse_connect_domain_post)
next
  case False
  then consider "c_buffer c = []" | "length (c_buffer c) = 1" | "length (c_buffer c) = 2"
    | "length (c_buffer c) = 3" | "length (c_buffer c) = 4"
    by (auto simp: not_less le_less numeral_eq_Suc less_Suc_eq)
  then show ?thesis
  proof cases
    case 5
    then have "c_buffer c \<noteq> []" by auto
    with 5 assms(1,2) assms(3) [OF 5] show ?thesis
      by (auto simp: parse_socks_connect_def intro: parse_connect_address_post)
  qed (use assms in \<open>auto simp: parse_socks_connect_def\<close>)
qed

lemma on_greeting_post:
  assumes "single_ok Read_greeting c out" and "read_done greeting_cond (c_buffer c) buf n ec"
  shows "handler_post out (on_greeting ec n (c\<lparr>c_buffer := buf\<rparr>))"
proof (cases "failed ec")
  case False
  have buf: "length buf = 258" "n \<le> 258" "drop n buf = drop n (replicate 258 0)"
    "n = 258 \<or> greeting_cond buf ec n = 0"
    using assms False by (auto simp: read_done_def)
  have "n \<noteq> 0"
  proof
    assume "n = 0"
    with buf have "greeting_cond (replicate 258 0) ec 0 = 0" by simp
    with False show False by (simp add: greeting_cond_def)
  qed
  with buf have "Suc 0 \<le> length (take n buf)" by simp
  with False buf assms(1) show ?thesis
    by (auto simp: on_greeting_def Let_def
        intro: parse_socks_greeting_post parse_socks_connect_v4_post)
qed (simp add: on_greeting_def)

lemma on_request_post:
  assumes "single_ok Read_request c out" and "read_done request_cond (c_buffer c) buf n ec"
  shows "handler_post out (on_request ec n (c\<lparr>c_buffer := buf\<rparr>))"
proof (cases "failed ec")
  case False
  have buf: "length buf = 263" "n \<le> 263" "n = 263 \<or> request_cond buf ec n = 0"
    using assms False by (auto simp: read_done_def)
  let ?c = "c\<lparr>c_buffer := vec_resize n buf\<rparr>"
  have "c_buffer ?c ! 3 \<noteq> 0x03 \<or> c_buffer ?c ! 0 \<noteq> 0x05 \<or> c_buffer ?c ! 1 \<noteq> 0x01
      \<or> c_buffer ?c ! 2 \<noteq> 0x00" if "length (c_buffer ?c) = 4"
    using that buf False by (auto simp: request_cond_def Let_def split: if_splits)
  moreover have "c_target_local ?c = None" "greeted out" using assms(1) by simp_all
  ultimately have "handler_post out (parse_socks_connect ?c)" by (intro parse_socks_connect_post)
  with False show ?thesis by (simp add: on_request_def)
qed (simp add: on_request_def)

lemma on_resolved_post:
  assumes "single_ok (Resolve host service) c out" and "\<not> failed ec \<Longrightarrow> eps \<noteq> []"
  shows "handler_post out (on_resolved ec eps c)"
  using assms
  by (auto simp: on_resolved_def do_target_connect_def neq_Nil_conv)

lemma on_connected_post:
  assumes "greeted out"
  shows "handler_post out (on_connected ec c)"
  using assms by (auto simp: on_connected_def)

lemma on_connected_v4_post: "handler_post [] (on_connected_v4 ec c)"
  by (auto simp: on_connected_v4_def)

lemma granted_cong: "c_target_local c' = c_target_local c \<Longrightarrow> granted c' out \<longleftrightarrow> granted c out"
  by (simp add: granted_def)

lemma granted_buffers [simp]:
  "granted (c\<lparr>c_buffer := b\<rparr>) out = granted c out"
  "granted (c\<lparr>c_target_buffer := b\<rparr>) out = granted c out"
  by (simp_all add: granted_def)

lemma granted_append:
  assumes "granted c out"
  shows "granted c (out @ rest)"
proof -
  from assms obtain ep where ep: "c_target_local c = Some ep"
    and out: "(\<exists>h. greeted h \<and> prefix (h @ connect_reply_bytes 0 ep) out)
      \<or> prefix (connect_reply_v4_bytes 4 90 (v4_or_zero (ep_address ep)) (ep_port ep)) out"
    unfolding granted_def by blast
  from out show ?thesis
  proof
    assume "\<exists>h. greeted h \<and> prefix (h @ connect_reply_bytes 0 ep) out"
    then obtain h where "greeted h" and "prefix (h @ connect_reply_bytes 0 ep) out" by blast
    then show ?thesis
      unfolding granted_def using ep prefix_prefix [of "h @ connect_reply_bytes 0 ep" out rest] by blast
  next
    assume "prefix (connect_reply_v4_bytes 4 90 (v4_or_zero (ep_address ep)) (ep_port ep)) out"
    from prefix_prefix [OF this] ep show ?thesis unfolding granted_def by blast
  qed
qed

lemma relay_started:
  "granted c out \<Longrightarrow> handler_post out (do_relay c)"
  by (auto simp: do_relay_def do_relay_from_client_def do_relay_from_target_def
      relay_ok_def intro!: ops_ok_relay)

lemma on_reply_written_post:
  assumes "single_ok Write_reply c out" and "write_done (c_buffer c) k ec"
  shows "handler_post (out @ take k (c_buffer c)) (on_reply_written ec c)"
proof (cases "failed ec")
  case False
  from assms obtain ep rep where local: "c_target_local c = Some ep" and out: "greeted out"
    and buf: "c_buffer c = connect_reply_bytes rep (if rep = 0 then ep else endpoint_default)"
    by auto
  have all: "take k (c_buffer c) = c_buffer c" using False assms(2) by (simp add: write_done_def)
  have rep: "get_byte (c_buffer c) 1 = Inr rep"
    unfolding buf by (simp add: connect_reply_bytes_def)
  have "granted c (out @ c_buffer c)" if "rep = 0"
    unfolding granted_def buf using that local out
    by (intro exI [of _ ep] conjI disjI1 exI [of _ out]) simp_all
  with False show ?thesis
    unfolding all by (simp add: on_reply_written_def rep relay_started del: One_nat_def)
qed (simp add: on_reply_written_def)

lemma on_reply_v4_written_post:
  assumes "single_ok Write_reply_v4 c out" and "write_done (c_buffer c) k ec"
  shows "handler_post (out @ take k (c_buffer c)) (on_reply_v4_written ec c)"
proof (cases "failed ec")
  case False
  from assms obtain ep rep where local: "c_target_local c = Some ep" and out: "out = []"
    and buf: "c_buffer c = (if rep = 90
        then connect_reply_v4_bytes 4 90 (v4_or_zero (ep_address ep)) (ep_port ep)
        else connect_reply_v4_bytes 4 rep 0 0)"
    by auto
  have all: "take k (c_buffer c) = c_buffer c" using False assms(2) by (simp add: write_done_def)
  have rep: "get_byte (c_buffer c) 0 = Inr 4" "get_byte (c_buffer c) 1 = Inr rep"
    unfolding buf by (simp_all add: connect_reply_v4_bytes_def)
  have "granted c (out @ c_buffer c)" if "rep = 90"
    unfolding granted_def buf using that local out by auto
  with False show ?thesis
    unfolding all by (simp add: on_reply_v4_written_def rep relay_started del: One_nat_def)
qed (simp add: on_reply_v4_written_def)

text \<open>One handler of a connection that has not begun to relay.\<close>

lemma single_post:
  assumes "single_ok opn c out" and "allowed opn res c"
  shows "handler_post (out @ to_client opn res c) (handle opn res c)"
  using assms
proof (cases "(opn, res, c)" rule: allowed.cases)
  case (1 buf n ec c)
  with assms on_greeting_post show ?thesis by auto
next
  case (2 k ec c)
  with assms show ?thesis
    by (auto simp: on_choice_written_def do_userpass_greet_def do_read_connect_request_def
        write_done_def greeted_def)
next
  case (3 buf n ec c)
  with assms show ?thesis
    by (auto simp: on_userpass_def read_done_def intro!: parse_userpass_greeting_post)
next
  case (4 k ec c)
  with assms show ?thesis
    by (auto simp: on_userpass_reply_written_def do_read_connect_request_def write_done_def
        greeted_def)
next
  case (5 buf n ec c)
  with assms on_request_post show ?thesis by auto
next
  case (6 host service eps ec c)
  with assms on_resolved_post [of host service c out ec eps] show ?thesis by auto
next
  case (9 k ec c)
  with assms on_reply_written_post show ?thesis by auto
next
  case (10 k ec c)
  with assms on_reply_v4_written_post show ?thesis by auto
qed (use assms in \<open>auto intro: on_connected_post on_connected_v4_post\<close>)

text \<open>A step of the relay replaces an operation by the next one of its direction, or by none.\<close>

lemma length_filter_remove1:
  "x \<in> set xs \<Longrightarrow> length (filter P (remove1 x xs)) = length (filter P xs) - (if P x then 1 else 0)"
proof (induction xs)
  case (Cons y ys)
  have "0 < length (filter P ys)" if "x \<in> set ys" "P x"
    using that by (auto simp: filter_empty_conv)
  with Cons show ?case by auto
qed simp

lemma relay_up_step:
  assumes "relay_ok c ops out" and "opn \<in> set ops" and "upstream opn"
    and "c_target_local c' = c_target_local c" and "c_target_buffer c' = c_target_buffer c"
    and "new = [] \<or> new = [Write_target] \<or> new = [Read_client] \<and> length (c_buffer c') = 1024"
  shows "relay_ok c' (remove1 opn ops @ new) (out @ rest)"
proof -
  define rem where "rem = remove1 opn ops"
  have sub: "set rem \<subseteq> set ops" unfolding rem_def by (rule set_remove1_subset)
  have "length (filter upstream rem) = 0" "length (filter downstream rem) \<le> 1"
    using assms(1-3) length_filter_remove1 [OF assms(2), of upstream]
      length_filter_remove1 [OF assms(2), of downstream]
    unfolding relay_ok_def rem_def by auto
  moreover from this(1) have "Read_client \<notin> set rem" by (auto simp: filter_empty_conv)
  moreover have "\<forall>opn \<in> set rem. upstream opn \<or> downstream opn"
    and "Read_target \<in> set rem \<longrightarrow> length (c_target_buffer c') = 1024"
    using assms(1,5) sub unfolding relay_ok_def by auto
  moreover have "granted c' (out @ rest)"
    using assms(1) granted_cong [OF assms(4)] granted_append by (simp add: relay_ok_def)
  ultimately show ?thesis
    using assms(6) unfolding relay_ok_def rem_def [symmetric] by (elim disjE conjE) simp_all
qed

lemma relay_down_step:
  assumes "relay_ok c ops out" and "opn \<in> set ops" and "downstream opn"
    and "c_target_local c' = c_target_local c" and "c_buffer c' = c_buffer c"
    and "new = [] \<or> new = [Write_client] \<or> new = [Read_target] \<and> length (c_target_buffer c') = 1024"
  shows "relay_ok c' (remove1 opn ops @ new) (out @ rest)"
proof -
  define rem where "rem = remove1 opn ops"
  have sub: "set rem \<subseteq> set ops" unfolding rem_def by (rule set_remove1_subset)
  have "length (filter downstream rem) = 0" "length (filter upstream rem) \<le> 1"
    using assms(1-3) length_filter_remove1 [OF assms(2), of downstream]
      length_filter_remove1 [OF assms(2), of upstream]
    unfolding relay_ok_def rem_def by auto
  moreover from this(1) have "Read_target \<notin> set rem" by (auto simp: filter_empty_conv)
  moreover have "\<forall>opn \<in> set rem. upstream opn \<or> downstream opn"
    and "Read_client \<in> set rem \<longrightarrow> length (c_buffer c') = 1024"
    using assms(1,5) sub unfolding relay_ok_def by auto
  moreover have "granted c' (out @ rest)"
    using assms(1) granted_cong [OF assms(4)] granted_append by (simp add: relay_ok_def)
  ultimately show ?thesis
    using assms(6) unfolding relay_ok_def rem_def [symmetric] by (elim disjE conjE) simp_all
qed

lemma relay_ops_cases:
  assumes "upstream opn \<or> downstream opn"
  obtains "opn = Read_client" | "opn = Write_target" | "opn = Read_target" | "opn = Write_client"
  using assms by (cases opn) simp_all

lemmas relay_defs = on_client_read_def on_target_written_def on_target_read_def
  on_client_written_def stop_with_def fail_def do_relay_to_target_def do_relay_from_client_def
  do_relay_to_client_def do_relay_from_target_def

lemma relay_handle:
  assumes "upstream opn \<or> downstream opn"
  shows "\<exists>c' new. handle opn res c = Inr (c', new) \<and> c_target_local c' = c_target_local c
    \<and> (upstream opn \<longrightarrow> c_target_buffer c' = c_target_buffer c
      \<and> (new = [] \<or> new = [Write_target] \<or> new = [Read_client] \<and> length (c_buffer c') = 1024))
    \<and> (downstream opn \<longrightarrow> c_buffer c' = c_buffer c
      \<and> (new = [] \<or> new = [Write_client] \<or> new = [Read_target] \<and> length (c_target_buffer c') = 1024))"
  using assms
proof (cases rule: relay_ops_cases)
  case 1
  then show ?thesis by (cases res) (simp_all add: relay_defs)
next
  case 2
  then show ?thesis by (cases res) (simp_all add: relay_defs)
next
  case 3
  then show ?thesis by (cases res) (simp_all add: relay_defs)
next
  case 4
  then show ?thesis by (cases res) (simp_all add: relay_defs)
qed

lemma relay_step_ok:
  assumes ok: "relay_ok (s_conn S) (s_ops S) (s_sent S)" and "opn \<in> set (s_ops S)"
  obtains S' where "complete opn res S = Inr S'" and "relay_ok (s_conn S') (s_ops S') (s_sent S')"
proof -
  from assms have dir: "upstream opn \<or> downstream opn" by (auto simp: relay_ok_def)
  then obtain c' new where h: "handle opn res (s_conn S) = Inr (c', new)"
    and l: "c_target_local c' = c_target_local (s_conn S)"
    and up: "upstream opn \<Longrightarrow> c_target_buffer c' = c_target_buffer (s_conn S)
      \<and> (new = [] \<or> new = [Write_target] \<or> new = [Read_client] \<and> length (c_buffer c') = 1024)"
    and down: "downstream opn \<Longrightarrow> c_buffer c' = c_buffer (s_conn S)
      \<and> (new = [] \<or> new = [Write_client] \<or> new = [Read_target] \<and> length (c_target_buffer c') = 1024)"
    using relay_handle [OF dir, of res "s_conn S"] by blast
  from dir have "relay_ok c' (remove1 opn (s_ops S) @ new) (s_sent S @ to_client opn res (s_conn S))"
    using relay_up_step [OF ok assms(2) _ l] relay_down_step [OF ok assms(2) _ l] up down by blast
  with that h show ?thesis by (simp add: complete_def)
qed

lemma server_step_post:
  assumes "server_inv S" and "opn \<in> set (s_ops S)" and "allowed opn res (s_conn S)"
  shows "res_post (\<lambda>e. e = Socket_not_open) server_inv (complete opn res S)"
proof (cases "relay_ok (s_conn S) (s_ops S) (s_sent S)")
  case True
  from relay_step_ok [OF this assms(2), of res] show ?thesis
    by (metis res_post_simps(2) server_inv_def ops_ok_relay)
next
  case False
  with assms(1,2) have ops: "s_ops S = [opn]" and ok: "single_ok opn (s_conn S) (s_sent S)"
    by (auto simp: server_inv_def ops_ok_def)
  show ?thesis
    unfolding complete_def
    by (rule res_post_bind_prod [OF single_post [OF ok assms(3)]]) (simp add: ops server_inv_def)
qed

lemma server_start_inv: "server_inv server_start"
  by (simp add: server_inv_def server_start_def connection_new_def)

lemma server_reachable_inv: "server_reachable S \<Longrightarrow> server_inv S"
proof (induction rule: server_reachable.induct)
  case start
  show ?case by (rule server_start_inv)
next
  case (step S S')
  from step(2) show ?case
    by (rule server_stepE) (use step(3) server_step_post [of S] res_post_InrD in fastforce)
qed

section \<open>A run to the relay\<close>

text \<open>A SOCKS4 request for \<open>127.0.0.1:80\<close>, granted with the local endpoint \<open>0.0.0.0:0\<close>.\<close>

definition demo_request :: "byte list" where
  "demo_request = [4, 1, 0, 80, 127, 0, 0, 1, 0]"

definition demo_target :: endpoint where
  "demo_target = \<lparr>ep_address = Address_v4 0x7F000001, ep_port = 80\<rparr>"

definition demo_relay :: server_state where
  "demo_relay =
     \<lparr>s_conn = connection_new\<lparr>c_buffer := vec_resize 1024 [4, 90, 0, 0, 0, 0, 0, 0],
        c_target_buffer := vec_resize 1024 [], c_target := demo_target,
        c_target_local := Some endpoint_default\<rparr>,
      s_ops = [Read_client, Read_target], s_sent = [4, 90, 0, 0, 0, 0, 0, 0]\<rparr>"

definition demo_events :: "(op \<times> outcome) list" where
  "demo_events =
     [(Read_greeting, Read_done (demo_request @ replicate 249 0) 9 ec_ok),
      (Connect_target_v4, Connect_done (Some endpoint_default) ec_ok),
      (Write_reply_v4, Write_done 8 ec_ok)]"

lemma demo_run: "server_run server_start demo_events demo_relay"
proof -
  let ?c1 = "connection_new\<lparr>c_buffer := demo_request, c_target := demo_target\<rparr>"
  let ?c2 = "?c1\<lparr>c_buffer := [4, 90, 0, 0, 0, 0, 0, 0], c_target_local := Some endpoint_default\<rparr>"
  let ?S1 = "\<lparr>s_conn = ?c1, s_ops = [Connect_target_v4], s_sent = []\<rparr>"
  let ?S2 = "\<lparr>s_conn = ?c2, s_ops = [Write_reply_v4], s_sent = []\<rparr>"
  let ?r = "Read_done (demo_request @ replicate 249 0) 9 ec_ok"
  have cond: "greeting_cond (demo_request @ replicate 249 0) ec_ok 9 = 0"
    by (simp add: greeting_cond_def demo_request_def upt_rec)
  have a1: "Read_greeting \<in> set (s_ops server_start)" "allowed Read_greeting ?r (s_conn server_start)"
    using cond by (simp_all add: read_done_def server_start_def connection_new_def demo_request_def)
  have c1: "complete Read_greeting ?r server_start = Inr ?S1"
    by (simp add: complete_def server_start_def on_greeting_def Let_def parse_socks_connect_v4_def
        demo_request_def connection_new_def do_target_connect_v4_def demo_target_def
        make_address_v4_bytes_def port_of_bytes_eq be_word_def)
  have c2: "complete Connect_target_v4 (Connect_done (Some endpoint_default) ec_ok) ?S1 = Inr ?S2"
    by (simp add: complete_def on_connected_v4_def do_connect_reply_v4_open connect_reply_v4_bytes_def
        be_bytes_two be_bytes_four)
  have c3: "complete Write_reply_v4 (Write_done 8 ec_ok) ?S2 = Inr demo_relay"
    by (simp add: complete_def on_reply_v4_written_def do_relay_def do_relay_from_client_def
        do_relay_from_target_def demo_relay_def connection_new_def)
  show ?thesis
    unfolding demo_events_def
    by (intro server_run.step [OF a1 c1] server_run.step [OF _ _ c2] server_run.step [OF _ _ c3]
        server_run.stay) (simp_all add: write_done_def)
qed

lemma demo_reachable: "server_reachable demo_relay"
  by (rule server_run_reachable [OF demo_run server_reachable.start])

section \<open>Properties\<close>

text \<open>
  C4 (server_memory_safe).  In every state a connection can reach, whatever bytes the client
  sends and however Asio splits and fails the operations, no completion handler indexes
  outside its vectors or casts an address to the wrong version; the only way a handler can
  fail is the exception of \<open>local_endpoint()\<close> on a target socket that was never opened.
\<close>
theorem server_memory_safe:
  assumes "server_reachable S" and "opn \<in> set (s_ops S)" and "allowed opn res (s_conn S)"
  shows "case complete opn res S of Inl e \<Rightarrow> e = Socket_not_open | Inr S' \<Rightarrow> server_reachable S'"
proof (cases "complete opn res S")
  case (Inl e)
  with server_step_post [OF server_reachable_inv [OF assms(1)] assms(2,3)] show ?thesis by simp
next
  case (Inr S')
  from server_step.step [OF assms(2,3) Inr] assms(1) show ?thesis
    by (simp add: Inr server_reachable.step)
qed

theorem server_memory_safe_witness:
  "complete Read_greeting (Read_done (5 # 1 # 0 # replicate 255 0) 3 ec_ok) server_start \<noteq> Inl Out_of_bounds"
proof -
  let ?b = "5 # 1 # 0 # replicate 255 (0 :: byte)"
  have "read_done greeting_cond (replicate 258 0) ?b 3 ec_ok"
    by (simp add: read_done_def greeting_cond_def Let_def numeral_eq_Suc)
  then have "allowed Read_greeting (Read_done ?b 3 ec_ok) (s_conn server_start)"
    by (simp add: server_start_def connection_new_def)
  moreover have "Read_greeting \<in> set (s_ops server_start)" by (simp add: server_start_def)
  ultimately show ?thesis
    using server_memory_safe [OF server_reachable.start, of Read_greeting "Read_done ?b 3 ec_ok"]
    by (auto split: sum.splits)
qed

text \<open>
  C38 (relay_drops_short_writes).  The relay writes with \<open>async_write_some\<close>, which may take only
  part of the buffer, and its handlers do not look at the count: after a write of \<open>k\<close> of the
  client's bytes to the target, whatever \<open>k\<close> is, the connection goes on to the next read into
  the same buffer, exactly as if all had been written; the remaining bytes are never sent.
\<close>
theorem relay_drops_short_writes:
  assumes "server_reachable S" and "Write_target \<in> set (s_ops S)"
    and "k \<le> length (c_buffer (s_conn S))"
  shows "\<exists>S'. server_step S S' \<and> Read_client \<in> set (s_ops S') \<and> Write_target \<notin> set (s_ops S')
    \<and> complete Write_target (Write_done k ec_ok) S = Inr S'
    \<and> complete Write_target (Write_done (length (c_buffer (s_conn S))) ec_ok) S = Inr S'"
proof -
  let ?S' = "\<lparr>s_conn = (s_conn S)\<lparr>c_buffer := vec_resize 1024 (c_buffer (s_conn S))\<rparr>,
    s_ops = remove1 Write_target (s_ops S) @ [Read_client], s_sent = s_sent S\<rparr>"
  have c: "complete Write_target (Write_done j ec_ok) S = Inr ?S'" for j
    by (simp add: complete_def on_target_written_def do_relay_from_client_def)
  have "relay_ok (s_conn S) (s_ops S) (s_sent S)"
    using server_reachable_inv [OF assms(1)] assms(2) by (auto simp: server_inv_def ops_ok_def)
  then have "length (filter upstream (remove1 Write_target (s_ops S))) = 0"
    using length_filter_remove1 [OF assms(2), of upstream] by (simp add: relay_ok_def)
  then have "Write_target \<notin> set (remove1 Write_target (s_ops S))" by (auto simp: filter_empty_conv)
  moreover have "server_step S ?S'"
    using server_step.step [OF assms(2) _ c, of k] assms(3) by simp
  ultimately show ?thesis using c [of k] c [of "length (c_buffer (s_conn S))"] by auto
qed

theorem relay_drops_short_writes_witness:
  "\<exists>S S'. server_reachable S \<and> c_buffer (s_conn S) = [7, 8, 9]
    \<and> complete Write_target (Write_done 1 ec_ok) S = Inr S' \<and> Read_client \<in> set (s_ops S')"
proof -
  let ?r = "Read_done (7 # 8 # 9 # replicate 1021 0) 3 ec_ok"
  let ?S = "\<lparr>s_conn = (s_conn demo_relay)\<lparr>c_buffer := [7, 8, 9]\<rparr>,
    s_ops = [Read_target, Write_target], s_sent = s_sent demo_relay\<rparr>"
  have "complete Read_client ?r demo_relay = Inr ?S"
    by (simp add: complete_def demo_relay_def on_client_read_def do_relay_to_target_def numeral_eq_Suc)
  moreover have "allowed Read_client ?r (s_conn demo_relay)" by (simp add: demo_relay_def)
  moreover have "Read_client \<in> set (s_ops demo_relay)" by (simp add: demo_relay_def)
  ultimately have "server_step demo_relay ?S" by (intro server_step.step)
  with demo_reachable have r: "server_reachable ?S" by (rule server_reachable.step)
  have "Write_target \<in> set (s_ops ?S)" "1 \<le> length (c_buffer (s_conn ?S))" by simp_all
  from relay_drops_short_writes [OF r this] obtain S' where
    "complete Write_target (Write_done 1 ec_ok) ?S = Inr S'" "Read_client \<in> set (s_ops S')" by blast
  moreover have "c_buffer (s_conn ?S) = [7, 8, 9]" by simp
  ultimately show ?thesis using r by blast
qed

end
