(* ===== verification/Test_Stream.thy ===== *)
theory Test_Stream
  imports Asio_Streams
begin

text \<open>
  \<open>test::stream\<close> (\<open>test/unit/stream.hpp\<close>), the stream the unit tests connect through: it
  serves scripted bytes, records what is written, and can be told to report an error from
  the \<open>fail_at\<close>-th operation on.  It is interpreted as a \<open>raw_stream\<close>, so everything proved
  for the stream interface holds for it.
\<close>

record test_stream =
  ts_out :: "byte list"
  ts_n_read :: nat
  ts_max_read_some :: nat
  ts_in :: "byte list"
  ts_fail_at :: nat
  ts_fail_with :: error_code

text \<open>\<open>std::size_t(-1)\<close> on a 64-bit platform.\<close>

definition size_max :: nat where
  "size_max = 2 ^ 64 - 1"

definition test_stream_new :: "nat \<Rightarrow> error_code \<Rightarrow> test_stream" where
  "test_stream_new fail_at fail_with =
     \<lparr>ts_out = [], ts_n_read = 0, ts_max_read_some = size_max, ts_in = [],
      ts_fail_at = fail_at, ts_fail_with = fail_with\<rparr>"

definition ts_reset_read :: "test_stream \<Rightarrow> byte list \<Rightarrow> test_stream" where
  "ts_reset_read s data =
     s\<lparr>ts_out := data, ts_n_read := 0, ts_max_read_some := size_max\<rparr>"

definition ts_append_read :: "test_stream \<Rightarrow> byte list \<Rightarrow> test_stream" where
  "ts_append_read s data = s\<lparr>ts_out := ts_out s @ data\<rparr>"

definition ts_reset_write :: "test_stream \<Rightarrow> test_stream" where
  "ts_reset_write s = s\<lparr>ts_in := []\<rparr>"

definition ts_maybe_fail :: "test_stream \<Rightarrow> error_code \<Rightarrow> error_code \<times> test_stream" where
  "ts_maybe_fail s ec =
     (if ts_fail_at s = 0 then (ts_fail_with s, s)
      else (ec, s\<lparr>ts_fail_at := ts_fail_at s - 1\<rparr>))"

definition ts_copy_out :: "test_stream \<Rightarrow> nat \<Rightarrow> byte list \<times> test_stream" where
  "ts_copy_out s k =
     (let n = min k (min (length (ts_out s) - ts_n_read s) (ts_max_read_some s))
      in (take n (drop (ts_n_read s) (ts_out s)), s\<lparr>ts_n_read := ts_n_read s + n\<rparr>))"

definition ts_read_some ::
    "test_stream \<Rightarrow> nat \<Rightarrow> error_code \<Rightarrow> byte list \<times> error_code \<times> test_stream" where
  "ts_read_some s k ec =
     (let (ec, s) = ts_maybe_fail s ec; (bs, s) = ts_copy_out s k;
          ec = (if \<not> failed ec \<and> length bs \<noteq> k then eof else ec)
      in (bs, ec, s))"

definition ts_copy_in :: "test_stream \<Rightarrow> byte list \<Rightarrow> nat \<times> test_stream" where
  "ts_copy_in s bs = (length bs, s\<lparr>ts_in := ts_in s @ bs\<rparr>)"

definition ts_write_some ::
    "test_stream \<Rightarrow> byte list \<Rightarrow> error_code \<Rightarrow> nat \<times> error_code \<times> test_stream" where
  "ts_write_some s bs ec =
     (let (ec, s) = ts_maybe_fail s ec; (n, s) = ts_copy_in s bs in (n, ec, s))"

text \<open>
  The asynchronous members do the transfer at once and post the handler, bound to its outcome,
  on the queue of the executor.
\<close>

definition ts_async_read_some ::
    "test_stream \<Rightarrow> nat \<Rightarrow> (error_code \<Rightarrow> nat \<Rightarrow> 'h) \<Rightarrow> 'h list \<Rightarrow> byte list \<times> test_stream \<times> 'h list" where
  "ts_async_read_some s k handler queue =
     (let (bs, ec, s) = ts_read_some s k ec_ok in (bs, s, queue @ [handler ec (length bs)]))"

definition ts_async_write_some ::
    "test_stream \<Rightarrow> byte list \<Rightarrow> (error_code \<Rightarrow> nat \<Rightarrow> 'h) \<Rightarrow> 'h list \<Rightarrow> test_stream \<times> 'h list" where
  "ts_async_write_some s bs handler queue =
     (let (n, ec, s) = ts_write_some s bs ec_ok in (s, queue @ [handler ec n]))"

text \<open>The comparison of the bytes written with a sequence of buffers.\<close>

fun ts_equal_chunks :: "byte list list \<Rightarrow> nat \<Rightarrow> byte list \<Rightarrow> nat \<Rightarrow> bool" where
  "ts_equal_chunks [] len data checked = True"
| "ts_equal_chunks (b # bs) len data checked =
     (if checked < len then
        (let k = (if length b > len - checked then len - checked else length b)
         in take k (drop checked data) = take k b \<and> ts_equal_chunks bs len data (checked + k))
      else True)"

definition ts_equal_buffers :: "byte list list \<Rightarrow> nat \<Rightarrow> byte list \<Rightarrow> bool" where
  "ts_equal_buffers bufs len data \<longleftrightarrow> len = length data \<and> ts_equal_chunks bufs len data 0"

definition ts_equal_write_buffers :: "test_stream \<Rightarrow> byte list list \<Rightarrow> bool" where
  "ts_equal_write_buffers s bufs \<longleftrightarrow>
     ts_equal_buffers bufs (sum_list (map length bufs)) (ts_in s)"

section \<open>The test stream as a stream\<close>

text \<open>Asio hands \<open>read_some\<close> and \<open>write_some\<close> a cleared error code.\<close>

definition ts_rd :: "test_stream \<Rightarrow> nat \<Rightarrow> byte list \<times> error_code \<times> test_stream" where
  "ts_rd s k = ts_read_some s k ec_ok"

definition ts_wr :: "test_stream \<Rightarrow> byte list \<Rightarrow> nat \<times> error_code \<times> test_stream" where
  "ts_wr s bs = ts_write_some s bs ec_ok"

definition ts_inv :: "test_stream \<Rightarrow> bool" where
  "ts_inv s \<longleftrightarrow> ts_n_read s \<le> length (ts_out s)"

definition ts_received :: "test_stream \<Rightarrow> byte list" where
  "ts_received s = take (ts_n_read s) (ts_out s)"

definition ts_ops :: "test_stream stream_ops" where
  "ts_ops = composed ts_rd ts_wr"

lemmas ts_defs = ts_rd_def ts_wr_def ts_read_some_def ts_write_some_def ts_copy_out_def
  ts_copy_in_def ts_maybe_fail_def ts_inv_def ts_received_def

interpretation ts: raw_stream ts_rd ts_wr ts_inv ts_in ts_received
proof (unfold_locales, goal_cases)
  case (1 s k bs ec s')
  then show ?case
    by (auto simp: ts_defs Let_def take_add split: if_splits)
next
  case (2 s k bs ec s')
  then show ?case by (auto simp: ts_defs Let_def split: if_splits)
next
  case (3 s bs k ec s')
  then show ?case by (auto simp: ts_defs Let_def split: if_splits)
next
  case (4 s bs k ec s')
  then show ?case by (auto simp: ts_defs Let_def split: if_splits)
qed

text \<open>
  A stream with no failure to report serves a read that its script covers in full, and a
  shorter script as far as it goes, with \<open>eof\<close>.
\<close>

definition ts_quiet :: "test_stream \<Rightarrow> bool" where
  "ts_quiet s \<longleftrightarrow> ts_fail_at s = 0 \<and> ts_fail_with s = ec_ok \<and> ts_n_read s \<le> length (ts_out s)
     \<and> length (ts_out s) \<le> ts_max_read_some s"

definition ts_pending :: "test_stream \<Rightarrow> byte list" where
  "ts_pending s = drop (ts_n_read s) (ts_out s)"

lemma ts_write_quiet:
  assumes "ts_quiet s" and "bs \<noteq> []"
  shows "asio_write ts_ops s bs = (length bs, ec_ok, s\<lparr>ts_in := ts_in s @ bs\<rparr>)"
  using assms by (cases bs) (simp_all add: ts_ops_def composed_def ts_defs ts_quiet_def)

lemma ts_rd_quiet:
  assumes "ts_quiet s"
  shows "ts_rd s k =
    (take k (ts_pending s), if k \<le> length (ts_pending s) then ec_ok else eof,
     s\<lparr>ts_n_read := ts_n_read s + min k (length (ts_pending s))\<rparr>)"
  using assms
  by (auto simp: ts_defs ts_quiet_def ts_pending_def Let_def min_def)

lemma ts_quiet_write [simp]:
  "ts_quiet (s\<lparr>ts_in := bs\<rparr>) = ts_quiet s" "ts_pending (s\<lparr>ts_in := bs\<rparr>) = ts_pending s"
  by (simp_all add: ts_quiet_def ts_pending_def)

lemma ts_quiet_read:
  "ts_quiet s \<Longrightarrow> k \<le> length (ts_pending s) \<Longrightarrow> ts_quiet (s\<lparr>ts_n_read := ts_n_read s + k\<rparr>)"
  "ts_pending (s\<lparr>ts_n_read := ts_n_read s + k\<rparr>) = drop k (ts_pending s)"
  by (auto simp: ts_quiet_def ts_pending_def add.commute)

lemma ts_read_quiet:
  assumes "ts_quiet s" and "0 < m" and "c buf ec_ok 0 \<noteq> 0" and "m \<le> c buf ec_ok 0"
    and "m \<le> length (ts_pending s)"
  shows "asio_read ts_ops s buf m c
    = (take m (ts_pending s) @ drop m buf, m, ec_ok, s\<lparr>ts_n_read := ts_n_read s + m\<rparr>)"
proof -
  from \<open>0 < m\<close> obtain k where k: "m = Suc k" by (cases m) auto
  show ?thesis
    using assms by (simp add: k ts_ops_def composed_def ts_rd_quiet min_absorb1 min_absorb2)
qed

lemma ts_read_short:
  assumes "ts_quiet s" and "c buf ec_ok 0 \<noteq> 0" and "m \<le> c buf ec_ok 0" and "stops_on_failure c"
    and "length (ts_pending s) < m"
  shows "asio_read ts_ops s buf m c
    = (overlay (ts_pending s) buf, length (ts_pending s), eof,
       s\<lparr>ts_n_read := ts_n_read s + length (ts_pending s)\<rparr>)"
proof -
  from assms(5) obtain k where k: "m = Suc (Suc k) \<or> m = Suc 0 \<and> k = 0"
    by (metis less_nat_zero_code not0_implies_Suc)
  with assms show ?thesis
    by (auto simp: ts_ops_def composed_def ts_rd_quiet min_absorb1 min_absorb2 overlay_def
        stops_on_failureD)
qed

text \<open>A stream that serves a script, as the tests set one up, and its first state.\<close>

definition scripted :: "byte list \<Rightarrow> test_stream" where
  "scripted script = ts_reset_read (test_stream_new 0 ec_ok) script"

lemma scripted_simps [simp]:
  "length script \<le> size_max \<Longrightarrow> ts_quiet (scripted script)" "ts_inv (scripted script)"
  "ts_pending (scripted script) = script" "ts_in (scripted script) = []"
  "ts_received (scripted script) = []"
  by (simp_all add: scripted_def ts_reset_read_def test_stream_new_def ts_quiet_def ts_inv_def
      ts_pending_def ts_received_def)

lemma ts_sync_stream: "sync_stream ts_ops ts_inv ts_in ts_received"
  unfolding ts_ops_def by (rule ts.sync_stream_axioms)

text \<open>A quiet stream stays quiet, so the contract holds with that as the invariant too.\<close>

interpretation quiet: raw_stream ts_rd ts_wr ts_quiet ts_in ts_received
proof (unfold_locales, goal_cases)
  case (1 s k bs ec s')
  then show ?case
    using ts.rd_effect [of s k bs ec s'] ts_rd_quiet [of s k]
    by (auto simp: ts_quiet_def ts_inv_def ts_pending_def)
next
  case (2 s k bs ec s')
  then show ?case using ts.rd_progress [of s k bs ec s'] by (simp add: ts_quiet_def ts_inv_def)
next
  case (3 s bs k ec s')
  then show ?case by (auto simp: ts_defs ts_quiet_def Let_def split: if_splits)
next
  case (4 s bs k ec s')
  then show ?case using ts.wr_progress [of s bs k ec s'] by (simp add: ts_quiet_def ts_inv_def)
qed

lemma ts_quiet_stream: "sync_stream ts_ops ts_quiet ts_in ts_received"
  unfolding ts_ops_def by (rule quiet.sync_stream_axioms)

end
