(* ===== verification/Connect_V5.thy ===== *)
theory Connect_V5
  imports Messages_V5 Test_Stream
begin

text \<open>
  The blocking SOCKS5 connect operations (\<open>include/boost/socks/impl/connect.hpp\<close>).  An
  operation takes the stream's composed operations \<open>ops\<close> and its state \<open>s\<close>, and returns the
  state behind it; the 513-byte stack buffer, whose contents are indeterminate, is an
  argument.  A write or a read through \<open>asio::buffer(buffer, k)\<close> with more than the buffer's
  bytes is \<open>Out_of_bounds\<close>.
\<close>

section \<open>Buffered input and output\<close>

definition write_buffer ::
    "'s stream_ops \<Rightarrow> 's \<Rightarrow> buffer \<Rightarrow> nat \<Rightarrow> (error_code \<times> 's) result" where
  "write_buffer ops s buf n =
     res_bind (const_buffer buf n) (\<lambda>bs.
     let (_, ec, s) = asio_write ops s bs in Inr (ec, s))"

definition read_buffer ::
    "'s stream_ops \<Rightarrow> 's \<Rightarrow> buffer \<Rightarrow> nat \<Rightarrow> completion
      \<Rightarrow> (buffer \<times> nat \<times> error_code \<times> 's) result" where
  "read_buffer ops s buf m c =
     (if m \<le> length buf then Inr (asio_read ops s buf m c) else Inl Out_of_bounds)"

section \<open>Greeting and authentication\<close>

text \<open>The sub-negotiation inside \<open>authenticate\<close>, entered when the server chose method 2.\<close>

definition authenticate_userpass ::
    "'s stream_ops \<Rightarrow> 's \<Rightarrow> buffer \<Rightarrow> nat \<Rightarrow> auth_options
      \<Rightarrow> (byte \<times> buffer \<times> error_code \<times> 's) result" where
  "authenticate_userpass ops s buf n opt =
     res_bind (prepare_userpass_request buf n opt) (\<lambda>(buf, n2).
     res_bind (write_buffer ops s buf n2) (\<lambda>(ec, s).
     if failed ec then Inr (0, buf, ec, s)
     else
       res_bind (read_buffer ops s buf 2 transfer_all) (\<lambda>(buf, n, ec, s).
       res_bind (if \<not> failed ec \<or> ec = eof then validate_userpass_reply buf n ec
                 else Inr ec) (\<lambda>ec.
       res_bind (get_byte buf 1) (\<lambda>b. Inr (b, buf, ec, s))))))"

definition authenticate ::
    "'s stream_ops \<Rightarrow> 's \<Rightarrow> buffer \<Rightarrow> nat \<Rightarrow> auth_options
      \<Rightarrow> (byte \<times> buffer \<times> error_code \<times> 's) result" where
  "authenticate ops s buf n opt =
     res_bind (prepare_greeting buf n opt) (\<lambda>(buf, gn).
     boost_assert (gn > 2) (
     res_bind (write_buffer ops s buf gn) (\<lambda>(ec, s).
     if failed ec then Inr (0, buf, ec, s)
     else
       res_bind (read_buffer ops s buf 2 transfer_all) (\<lambda>(buf, rn, ec, s).
       res_bind (if \<not> failed ec \<or> ec = eof then validate_server_choice buf rn opt ec
                 else Inr ec) (\<lambda>ec.
       res_bind (get_byte buf 1) (\<lambda>choice.
       if failed ec then Inr (choice, buf, ec, s)
       else if choice = auth_method_value Auth_userpass
       then authenticate_userpass ops s buf n opt
       else Inr (choice, buf, ec, s)))))))"

section \<open>Connect request and reply\<close>

definition write_connect_request ::
    "'s stream_ops \<Rightarrow> 's \<Rightarrow> buffer \<Rightarrow> nat \<Rightarrow> target \<Rightarrow> (nat \<times> buffer \<times> error_code \<times> 's) result" where
  "write_connect_request ops s buf n target_host =
     res_bind (prepare_request buf n target_host) (\<lambda>(buf, n).
     res_bind (write_buffer ops s buf n) (\<lambda>(ec, s). Inr (n, buf, ec, s)))"

definition read_reply_cond :: completion where
  "read_reply_cond buf ec n =
     (if (n = 10 \<and> to_address_type (ucast (buf ! 3)) = Atyp_ip_v4) \<or> failed ec then 0
      else 22 - n)"

definition read_connect_reply ::
    "'s stream_ops \<Rightarrow> 's \<Rightarrow> buffer \<Rightarrow> nat \<Rightarrow> (endpoint \<times> buffer \<times> error_code \<times> 's) result" where
  "read_connect_reply ops s buf n =
     res_bind (read_buffer ops s buf 22 read_reply_cond) (\<lambda>(buf, n, ec, s).
     if failed ec \<and> ec \<noteq> eof then Inr (endpoint_default, buf, ec, s)
     else if n \<noteq> 10 \<and> n \<noteq> 22
       then Inr (endpoint_default, buf, make_error_code Err_bad_reply_size, s)
     else res_bind (parse_reply_v5 buf n) (\<lambda>(ep, ec). Inr (ep, buf, ec, s)))"

section \<open>The connect functions\<close>

definition connect_endpoint ::
    "'s stream_ops \<Rightarrow> 's \<Rightarrow> buffer \<Rightarrow> endpoint \<Rightarrow> auth_options
      \<Rightarrow> (endpoint \<times> error_code \<times> 's) result" where
  "connect_endpoint ops s buf target_host opt =
     res_bind (authenticate ops s buf 513 opt) (\<lambda>(_, buf, ec, s).
     if failed ec then Inr (endpoint_default, ec, s)
     else
       res_bind (write_connect_request ops s buf 513 (To_endpoint target_host))
         (\<lambda>(_, buf, ec, s).
       if failed ec then Inr (endpoint_default, ec, s)
       else
         res_bind (read_connect_reply ops s buf 513) (\<lambda>(ep, _, ec, s). Inr (ep, ec, s))))"

definition connect_domain ::
    "'s stream_ops \<Rightarrow> 's \<Rightarrow> buffer \<Rightarrow> string \<Rightarrow> u16 \<Rightarrow> auth_options
      \<Rightarrow> (endpoint \<times> error_code \<times> 's) result" where
  "connect_domain ops s buf target_host target_port opt =
     res_bind (authenticate ops s buf 513 opt) (\<lambda>(_, buf, ec, s).
     if failed ec then Inr (endpoint_default, ec, s)
     else
       let target = \<lparr>de_domain = target_host, de_port = target_port\<rparr> in
       res_bind (write_connect_request ops s buf 513 (To_domain target))
         (\<lambda>(_, buf, ec, s).
       if failed ec then Inr (endpoint_default, ec, s)
       else
         res_bind (read_connect_reply ops s buf 513) (\<lambda>(ep, _, ec, s).
         if failed ec then Inr (endpoint_default, ec, s) else Inr (ep, ec, s))))"

lemma stops_read_reply_cond [simp]: "stops_on_failure read_reply_cond"
  by (simp add: stops_on_failure_def read_reply_cond_def)

section \<open>What the operations do, over any stream\<close>

text \<open>
  The bytes of the sub-negotiation for the method \<open>m\<close> the server chose, as sent and as
  received, and the ways a call can fault: only an assertion on the caller's sizes.
\<close>

definition auth_tx :: "auth_options \<Rightarrow> byte \<Rightarrow> byte list" where
  "auth_tx opt m = (if m = 0x02 then userpass_bytes opt else [])"

definition auth_rx :: "byte \<Rightarrow> byte list" where
  "auth_rx m = (if m = 0x02 then [0x01, 0x00] else [])"

definition oversized_auth :: "auth_options \<Rightarrow> bool" where
  "oversized_auth opt \<longleftrightarrow> is_userpass opt \<and> (255 < length (user opt) \<or> 255 < length (pass opt))"

definition auth_fault :: "auth_options \<Rightarrow> fault \<Rightarrow> bool" where
  "auth_fault opt e \<longleftrightarrow> e = Assertion_failed \<and> oversized_auth opt"

definition connect_fault :: "auth_options \<Rightarrow> target \<Rightarrow> fault \<Rightarrow> bool" where
  "connect_fault opt t e \<longleftrightarrow> e = Assertion_failed
     \<and> (oversized_auth opt \<or> 513 < length (connect_request_bytes t))"

context sync_stream begin

lemma write_buffer_post:
  assumes "inv s" and "n \<le> length buf"
  shows "res_post E (\<lambda>(ec, s'). inv s' \<and> received s' = received s
      \<and> (\<exists>k. sent s' = sent s @ take k (take n buf))
      \<and> (\<not> failed ec \<longrightarrow> sent s' = sent s @ take n buf)) (write_buffer ops s buf n)"
proof -
  obtain k ec s' where w: "asio_write ops s (take n buf) = (k, ec, s')" by (metis prod_cases3)
  from assms write_inv [OF assms(1) w] write_sent [OF assms(1) w] write_received [OF assms(1) w]
    write_ok [OF assms(1) w] show ?thesis
    by (auto simp: write_buffer_def w)
qed

lemma read_buffer_post:
  assumes "inv s" and "m \<le> length buf" and "stops_on_failure c"
  shows "res_post E (\<lambda>(buf', n, ec, s'). inv s' \<and> length buf' = length buf \<and> n \<le> m
      \<and> sent s' = sent s \<and> received s' = received s @ take n buf'
      \<and> (\<not> failed ec \<longrightarrow> n = m \<or> c buf' ec n = 0)) (read_buffer ops s buf m c)"
proof -
  obtain buf' n ec s' where r: "asio_read ops s buf m c = (buf', n, ec, s')"
    by (metis prod_cases4)
  from read_facts [OF assms r] read_complete [OF assms r] assms(2) show ?thesis
    by (auto simp: read_buffer_def r)
qed

lemma authenticate_userpass_post:
  assumes "inv s" and "length buf = 513" and "is_userpass opt"
  shows "res_post (auth_fault opt) (\<lambda>(c, buf', ec, s'). inv s' \<and> length buf' = 513
      \<and> (\<not> failed ec \<longrightarrow> sent s' = sent s @ userpass_bytes opt
           \<and> received s' = received s @ [0x01, 0x00]))
    (authenticate_userpass ops s buf 513 opt)"
proof (cases "length (user opt) \<le> 255 \<and> length (pass opt) \<le> 255")
  case False
  with assms show ?thesis
    by (simp add: authenticate_userpass_def prepare_userpass_request_eq auth_fault_def
        oversized_auth_def) linarith
next
  case True
  let ?buf = "overlay (userpass_bytes opt) buf" and ?n = "length (userpass_bytes opt)"
  have n: "?n \<le> 513" using True by (simp add: length_userpass_bytes)
  then have len: "length ?buf = 513" using assms by (simp add: length_overlay)
  have prep: "prepare_userpass_request buf 513 opt = Inr (?buf, ?n)"
    using True n assms by (simp add: prepare_userpass_request_eq)
  show ?thesis
    unfolding authenticate_userpass_def prep res_bind.simps prod.case
  proof (rule res_post_bind_prod [OF write_buffer_post])
    fix ec s1
    assume w: "inv s1 \<and> received s1 = received s \<and> (\<exists>k. sent s1 = sent s @ take k (take ?n ?buf))
      \<and> (\<not> failed ec \<longrightarrow> sent s1 = sent s @ take ?n ?buf)"
    have "2 \<le> length ?buf" using len by simp
    note rd = read_buffer_post [OF conjunct1 [OF w] this stops_transfer_all]
    show "res_post (auth_fault opt) (\<lambda>(c, buf', ec, s'). inv s' \<and> length buf' = 513
        \<and> (\<not> failed ec \<longrightarrow> sent s' = sent s @ userpass_bytes opt
             \<and> received s' = received s @ [0x01, 0x00]))
      (if failed ec then Inr (0, ?buf, ec, s1)
       else res_bind (read_buffer ops s1 ?buf 2 transfer_all) (\<lambda>(buf, n, ec, s).
         res_bind (if \<not> failed ec \<or> ec = eof then validate_userpass_reply buf n ec
                   else Inr ec) (\<lambda>ec. res_bind (get_byte buf 1) (\<lambda>b. Inr (b, buf, ec, s)))))"
    proof (cases "failed ec")
      case False
      then show ?thesis
        unfolding if_not_P [OF False]
        by (intro res_post_bind_quad [OF rd] res_post_bind [OF userpass_reply_checked])
          (use w len in auto)
    qed (use w len in simp)
  qed (use assms len n in simp_all)
qed

text \<open>What \<open>authenticate\<close> establishes, with \<open>s\<close> the state it starts in.\<close>

definition auth_done :: "auth_options \<Rightarrow> 's \<Rightarrow> byte \<times> buffer \<times> error_code \<times> 's \<Rightarrow> bool" where
  "auth_done opt s = (\<lambda>(c, buf', ec, s'). inv s' \<and> length buf' = 513
      \<and> (\<not> failed ec \<longrightarrow> (\<exists>m \<in> set (greeting_methods opt).
           sent s' = sent s @ greeting_bytes opt @ auth_tx opt m
           \<and> received s' = received s @ [0x05, m] @ auth_rx m)))"

lemma authenticate_choice_post:
  assumes "inv s1" and "length buf = 513" and "sent s1 = sent s @ greeting_bytes opt"
    and "\<not> failed ec \<Longrightarrow> received s1 = received s @ [0x05, choice]"
    and "\<not> failed ec \<Longrightarrow> choice \<in> set (greeting_methods opt)"
  shows "res_post (auth_fault opt) (auth_done opt s)
    (if failed ec then Inr (choice, buf, ec, s1)
     else if choice = auth_method_value Auth_userpass
       then authenticate_userpass ops s1 buf 513 opt else Inr (choice, buf, ec, s1))"
proof (cases "\<not> failed ec \<and> choice = 2")
  case True
  then have "is_userpass opt" using assms(5) by (auto simp: greeting_methods_def split: if_splits)
  note up = authenticate_userpass_post [OF assms(1,2) this]
  have "res_post (auth_fault opt) (auth_done opt s) (authenticate_userpass ops s1 buf 513 opt)"
    using True assms
    by (intro res_post_mono [OF up])
      (auto intro!: bexI [of _ "2 :: byte"] simp: auth_done_def auth_tx_def auth_rx_def)
  with True show ?thesis by simp
next
  case False
  with assms show ?thesis
    by (auto intro!: bexI [of _ "choice"] simp: auth_done_def auth_tx_def auth_rx_def)
qed

lemma authenticate_post:
  assumes "inv s" and "length buf = 513"
  shows "res_post (auth_fault opt) (auth_done opt s) (authenticate ops s buf 513 opt)"
proof -
  let ?buf = "overlay (greeting_bytes opt) buf" and ?n = "length (greeting_bytes opt)"
  have n: "2 < ?n" "?n \<le> 513" by (simp_all add: length_greeting_bytes)
  then have len: "length ?buf = 513" using assms by (simp add: length_overlay)
  have prep: "prepare_greeting buf 513 opt = Inr (?buf, ?n)"
    using n assms by (simp add: prepare_greeting_eq)
  show ?thesis
    unfolding authenticate_def prep res_bind.simps prod.case boost_assert_True [OF n(1)]
  proof (rule res_post_bind_prod [OF write_buffer_post])
    fix ec s1
    assume w: "inv s1 \<and> received s1 = received s \<and> (\<exists>k. sent s1 = sent s @ take k (take ?n ?buf))
      \<and> (\<not> failed ec \<longrightarrow> sent s1 = sent s @ take ?n ?buf)"
    have "2 \<le> length ?buf" using len by simp
    note rd = read_buffer_post [OF conjunct1 [OF w] this stops_transfer_all]
    show "res_post (auth_fault opt) (auth_done opt s)
      (if failed ec then Inr (0, ?buf, ec, s1)
       else res_bind (read_buffer ops s1 ?buf 2 transfer_all) (\<lambda>(buf, rn, ec, s).
         res_bind (if \<not> failed ec \<or> ec = eof then validate_server_choice buf rn opt ec
                   else Inr ec) (\<lambda>ec. res_bind (get_byte buf 1) (\<lambda>choice.
           if failed ec then Inr (choice, buf, ec, s)
           else if choice = auth_method_value Auth_userpass
             then authenticate_userpass ops s buf 513 opt
           else Inr (choice, buf, ec, s)))))"
    proof (cases "failed ec")
      case False
      then show ?thesis
        unfolding if_not_P [OF False]
        by (intro res_post_bind_quad [OF rd] res_post_bind [OF server_choice_checked])
          (use w len in \<open>auto simp del: auth_method_value.simps split del: if_split
            intro!: authenticate_choice_post\<close>)
    qed (use w len in \<open>simp add: auth_done_def\<close>)
  qed (use assms len n in simp_all)
qed

lemma read_connect_reply_post:
  assumes "inv s" and "length buf = 513"
  shows "res_post E (\<lambda>(ep, buf', ec, s'). inv s' \<and> sent s' = sent s
      \<and> (failed ec \<longrightarrow> ep = endpoint_default)
      \<and> (\<not> failed ec \<longrightarrow> ec = make_error_code Err_succeeded
           \<and> (\<exists>rsv. received s' = received s @ [0x05, 0x00, rsv] @ endpoint_bytes ep)))
    (read_connect_reply ops s buf n)"
proof -
  have "22 \<le> length buf" using assms by simp
  note rd = read_buffer_post [OF assms(1) this stops_read_reply_cond]
  have parse: "res_post E (\<lambda>(ep, ec). (failed ec \<longrightarrow> ep = endpoint_default)
      \<and> (\<not> failed ec \<longrightarrow> ec = make_error_code Err_succeeded
          \<and> (\<exists>rsv. take n' buf' = [0x05, 0x00, rsv] @ endpoint_bytes ep)))
    (parse_reply_v5 buf' n')" if "n' = 10 \<or> n' = 22" "n' \<le> length buf'" for n' buf'
  proof (cases "decode_reply_v5 (take n' buf')")
    case (Inl e)
    then show ?thesis using decode_reply_v5_InlD [OF Inl] that by (simp add: parse_reply_v5_eq)
  next
    case (Inr ep)
    then show ?thesis using decode_reply_v5_InrD [OF Inr] that by (simp add: parse_reply_v5_eq)
  qed
  show ?thesis
    unfolding read_connect_reply_def
    by (intro res_post_bind_quad [OF rd])
      (use assms in \<open>auto intro!: res_post_bind_prod [OF parse]\<close>)
qed

text \<open>What a whole connect to the target \<open>t\<close> establishes.\<close>

definition connect_done ::
    "target \<Rightarrow> auth_options \<Rightarrow> 's \<Rightarrow> endpoint \<times> error_code \<times> 's \<Rightarrow> bool" where
  "connect_done t opt s = (\<lambda>(ep, ec, s'). inv s'
      \<and> (failed ec \<longrightarrow> ep = endpoint_default)
      \<and> (\<not> failed ec \<longrightarrow> ec = make_error_code Err_succeeded
          \<and> (\<exists>m \<in> set (greeting_methods opt). \<exists>rsv.
              sent s' = sent s @ greeting_bytes opt @ auth_tx opt m @ connect_request_bytes t
              \<and> received s' = received s @ [0x05, m] @ auth_rx m
                   @ [0x05, 0x00, rsv] @ endpoint_bytes ep)))"

lemma connect_tail_post:
  assumes "auth_done opt s (c, buf, ec, s1)" and "\<not> failed ec"
    and k: "\<And>ep ec s. (failed ec \<Longrightarrow> ep = endpoint_default) \<Longrightarrow> k ep ec s = Inr (ep, ec, s)"
  shows "res_post (connect_fault opt t) (connect_done t opt s)
    (res_bind (write_connect_request ops s1 buf 513 t) (\<lambda>(_, buf, ec, s).
       if failed ec then Inr (endpoint_default, ec, s)
       else res_bind (read_connect_reply ops s buf 513) (\<lambda>(ep, _, ec, s). k ep ec s)))"
proof (cases "length (connect_request_bytes t) \<le> 513")
  case False
  with assms show ?thesis
    by (simp add: write_connect_request_def prepare_request_eq auth_done_def connect_fault_def)
next
  case True
  let ?buf = "overlay (connect_request_bytes t) buf" and ?n = "length (connect_request_bytes t)"
  from assms have buf: "length buf = 513" and inv: "inv s1"
    by (simp_all add: auth_done_def)
  have len: "length ?buf = 513" using True buf by (simp add: length_overlay)
  have prep: "prepare_request buf 513 t = Inr (?buf, ?n)"
    using True buf by (simp add: prepare_request_eq)
  have n: "?n \<le> length ?buf" using True len by simp
  show ?thesis
    unfolding write_connect_request_def prep res_bind.simps prod.case res_bind_assoc
      res_bind_case_prod
  proof (rule res_post_bind_prod [OF write_buffer_post [OF inv n]])
    fix ec1 s2
    assume w: "inv s2 \<and> received s2 = received s1 \<and> (\<exists>k. sent s2 = sent s1 @ take k (take ?n ?buf))
      \<and> (\<not> failed ec1 \<longrightarrow> sent s2 = sent s1 @ take ?n ?buf)"
    note reply = read_connect_reply_post [OF conjunct1 [OF w] len]
    show "res_post (connect_fault opt t) (connect_done t opt s)
      (if failed ec1 then Inr (endpoint_default, ec1, s2)
       else res_bind (read_connect_reply ops s2 ?buf 513) (\<lambda>(ep, _, ec, s). k ep ec s))"
    proof (cases "failed ec1")
      case False
      show ?thesis
        unfolding if_not_P [OF False]
        by (intro res_post_bind_quad [OF reply])
          (use assms w False in \<open>auto simp: connect_done_def auth_done_def k\<close>)
    qed (use w in \<open>simp add: connect_done_def\<close>)
  qed
qed

lemma connect_any_post:
  assumes "inv s" and "length buf = 513"
    and "\<And>ep ec s. (failed ec \<Longrightarrow> ep = endpoint_default) \<Longrightarrow> k ep ec s = Inr (ep, ec, s)"
  shows "res_post (connect_fault opt t) (connect_done t opt s)
    (res_bind (authenticate ops s buf 513 opt) (\<lambda>(_, buf, ec, s).
       if failed ec then Inr (endpoint_default, ec, s)
       else res_bind (write_connect_request ops s buf 513 t) (\<lambda>(_, buf, ec, s).
         if failed ec then Inr (endpoint_default, ec, s)
         else res_bind (read_connect_reply ops s buf 513) (\<lambda>(ep, _, ec, s). k ep ec s))))"
proof (rule res_post_bind_quad [OF res_post_mono [OF authenticate_post [OF assms(1,2)]]])
  show "auth_fault opt e \<Longrightarrow> connect_fault opt t e" for e
    by (simp add: auth_fault_def connect_fault_def)
  show "auth_done opt s x \<Longrightarrow> case x of (a, b, c, d) \<Rightarrow> auth_done opt s (a, b, c, d)" for x
    by (cases x) auto
  fix c buf1 ec s1
  assume a: "auth_done opt s (c, buf1, ec, s1)"
  show "res_post (connect_fault opt t) (connect_done t opt s)
    (if failed ec then Inr (endpoint_default, ec, s1)
     else res_bind (write_connect_request ops s1 buf1 513 t) (\<lambda>(_, buf, ec, s).
       if failed ec then Inr (endpoint_default, ec, s)
       else res_bind (read_connect_reply ops s buf 513) (\<lambda>(ep, _, ec, s). k ep ec s)))"
  proof (cases "failed ec")
    case True
    with a show ?thesis by (simp add: connect_done_def auth_done_def)
  next
    case False
    from connect_tail_post [OF a False assms(3)] show ?thesis unfolding if_not_P [OF False] .
  qed
qed

lemma connect_endpoint_post:
  assumes "inv s" and "length buf = 513"
  shows "res_post (connect_fault opt (To_endpoint t)) (connect_done (To_endpoint t) opt s)
    (connect_endpoint ops s buf t opt)"
  unfolding connect_endpoint_def by (rule connect_any_post [OF assms]) simp

lemma connect_domain_post:
  assumes "inv s" and "length buf = 513"
  shows "res_post (connect_fault opt (To_domain \<lparr>de_domain = d, de_port = p\<rparr>))
    (connect_done (To_domain \<lparr>de_domain = d, de_port = p\<rparr>) opt s)
    (connect_domain ops s buf d p opt)"
  unfolding connect_domain_def Let_def
  by (rule connect_any_post [OF assms,
        of "\<lambda>ep ec s. if failed ec then Inr (endpoint_default, ec, s) else Inr (ep, ec, s)"]) auto

end

section \<open>A whole connect over the test stream\<close>

text \<open>The overload set \<open>connect\<close>: an endpoint, or a host name and a port.\<close>

fun connect_to ::
    "'s stream_ops \<Rightarrow> 's \<Rightarrow> buffer \<Rightarrow> target \<Rightarrow> auth_options
      \<Rightarrow> (endpoint \<times> error_code \<times> 's) result" where
  "connect_to ops s buf (To_endpoint t) opt = connect_endpoint ops s buf t opt"
| "connect_to ops s buf (To_domain d) opt =
     connect_domain ops s buf (de_domain d) (de_port d) opt"

lemma connect_to_eq:
  "connect_to ops s buf t opt =
    res_bind (authenticate ops s buf 513 opt) (\<lambda>(_, buf, ec, s).
       if failed ec then Inr (endpoint_default, ec, s)
       else res_bind (write_connect_request ops s buf 513 t) (\<lambda>(_, buf, ec, s).
         if failed ec then Inr (endpoint_default, ec, s)
         else res_bind (read_connect_reply ops s buf 513) (\<lambda>(ep, _, ec, s).
           if failed ec \<and> (case t of To_endpoint _ \<Rightarrow> False | To_domain _ \<Rightarrow> True) then Inr (endpoint_default, ec, s)
           else Inr (ep, ec, s))))"
  by (cases t) (simp_all add: connect_endpoint_def connect_domain_def cong: if_cong)

lemma ts_write_buffer_quiet:
  assumes "ts_quiet s" and "bs \<noteq> []" and "length bs \<le> length buf"
  obtains s' where "write_buffer ts_ops s (overlay bs buf) (length bs) = Inr (ec_ok, s')"
    and "ts_quiet s'" and "ts_pending s' = ts_pending s" and "ts_in s' = ts_in s @ bs"
  using assms by (simp add: write_buffer_def ts_write_quiet length_overlay)

lemma ts_read_buffer_quiet:
  assumes "ts_quiet s" and "ts_pending s = xs @ rest" and "m = length xs" and "0 < m"
    and "m \<le> length buf" and "m \<le> c buf ec_ok 0"
  obtains s' where "read_buffer ts_ops s buf m c = Inr (overlay xs buf, m, ec_ok, s')"
    and "ts_quiet s'" and "ts_pending s' = rest" and "ts_in s' = ts_in s"
proof -
  let ?s' = "s\<lparr>ts_n_read := ts_n_read s + m\<rparr>"
  have "c buf ec_ok 0 \<noteq> 0" using assms(4,6) by linarith
  from ts_read_quiet [of s m c buf, OF assms(1,4) this assms(6)] assms
  have "read_buffer ts_ops s buf m c = Inr (overlay xs buf, m, ec_ok, ?s')"
    by (simp add: read_buffer_def overlay_def)
  moreover have "ts_quiet ?s'" "ts_pending ?s' = rest" "ts_in ?s' = ts_in s"
    using assms(1-3) ts_quiet_read [of s m] by simp_all
  ultimately show ?thesis by (rule that)
qed

lemma authenticate_userpass_quiet:
  assumes "ts_quiet s" and "length buf = 513" and "\<not> oversized_auth opt" and "is_userpass opt"
    and "ts_pending s = [0x01, 0x00] @ rest"
  shows "\<exists>c buf' s'. authenticate_userpass ts_ops s buf 513 opt = Inr (c, buf', ec_ok, s')
    \<and> length buf' = 513 \<and> ts_quiet s' \<and> ts_pending s' = rest
    \<and> ts_in s' = ts_in s @ userpass_bytes opt"
proof -
  let ?b1 = "overlay (userpass_bytes opt) buf"
  have len: "length (userpass_bytes opt) \<le> 513" "userpass_bytes opt \<noteq> []"
    using assms(3,4) by (auto simp: length_userpass_bytes oversized_auth_def userpass_bytes_def)
  then have b1: "length ?b1 = 513" using assms(2) by (simp add: length_overlay)
  have prep: "prepare_userpass_request buf 513 opt = Inr (?b1, length (userpass_bytes opt))"
    using assms len by (simp add: prepare_userpass_request_eq oversized_auth_def)
  obtain s1 where w: "write_buffer ts_ops s ?b1 (length (userpass_bytes opt)) = Inr (ec_ok, s1)"
    and s1: "ts_quiet s1" "ts_pending s1 = [0x01, 0x00] @ rest" "ts_in s1 = ts_in s @ userpass_bytes opt"
    using ts_write_buffer_quiet [OF assms(1), of "userpass_bytes opt" buf] len assms(2,5) by auto
  obtain s2 where r: "read_buffer ts_ops s1 ?b1 2 transfer_all
      = Inr (overlay [0x01, 0x00] ?b1, 2, ec_ok, s2)"
    and s2: "ts_quiet s2" "ts_pending s2 = rest" "ts_in s2 = ts_in s1"
    using ts_read_buffer_quiet [OF s1(1,2), of 2 ?b1 transfer_all] b1 by (auto simp: transfer_all_def)
  have "validate_userpass_reply (overlay [0x01, 0x00] ?b1) 2 ec_ok = Inr ec_ok"
    using b1 by (simp add: validate_userpass_reply_eq overlay_def)
  with s1 s2 b1 show ?thesis
    by (simp add: authenticate_userpass_def prep w r get_byte_def length_overlay)
qed

lemma authenticate_quiet:
  assumes "ts_quiet s" and "length buf = 513" and "\<not> oversized_auth opt"
    and "m \<in> set (greeting_methods opt)" and "ts_pending s = [0x05, m] @ auth_rx m @ rest"
  shows "\<exists>c buf' s'. authenticate ts_ops s buf 513 opt = Inr (c, buf', ec_ok, s')
    \<and> length buf' = 513 \<and> ts_quiet s' \<and> ts_pending s' = rest
    \<and> ts_in s' = ts_in s @ greeting_bytes opt @ auth_tx opt m"
proof -
  let ?b1 = "overlay (greeting_bytes opt) buf"
  let ?b2 = "overlay [0x05, m] ?b1"
  have len: "length ?b1 = 513" "length ?b2 = 513" "2 < length (greeting_bytes opt)"
    "length (greeting_bytes opt) \<le> 513"
    using assms(2) by (simp_all add: length_overlay length_greeting_bytes)
  have ne: "greeting_bytes opt \<noteq> []" by (simp add: greeting_bytes_def)
  have prep: "prepare_greeting buf 513 opt = Inr (?b1, length (greeting_bytes opt))"
    using assms(2) len by (simp add: prepare_greeting_eq)
  obtain s1 where w: "write_buffer ts_ops s ?b1 (length (greeting_bytes opt)) = Inr (ec_ok, s1)"
    and s1: "ts_quiet s1" "ts_pending s1 = [0x05, m] @ auth_rx m @ rest"
      "ts_in s1 = ts_in s @ greeting_bytes opt"
    using ts_write_buffer_quiet [OF assms(1) ne, of buf] len assms(2,5) by auto
  obtain s2 where r: "read_buffer ts_ops s1 ?b1 2 transfer_all = Inr (?b2, 2, ec_ok, s2)"
    and s2: "ts_quiet s2" "ts_pending s2 = auth_rx m @ rest" "ts_in s2 = ts_in s1"
    using ts_read_buffer_quiet [OF s1(1,2), of 2 ?b1 transfer_all] len by (auto simp: transfer_all_def)
  have "validate_server_choice ?b2 2 opt ec_ok = Inr ec_ok" "get_byte ?b2 1 = Inr m"
    using assms(4) len by (simp_all add: validate_server_choice_eq overlay_def get_byte_def)
  with len(3) have auth: "authenticate ts_ops s buf 513 opt =
      (if m = 2 then authenticate_userpass ts_ops s2 ?b2 513 opt else Inr (m, ?b2, ec_ok, s2))"
    by (simp add: authenticate_def prep w r)
  show ?thesis
  proof (cases "m = 2")
    case True
    with assms(4) have up: "is_userpass opt" by (auto simp: greeting_methods_def split: if_splits)
    have "ts_pending s2 = [0x01, 0x00] @ rest" using s2 True by (simp add: auth_rx_def)
    from authenticate_userpass_quiet [OF s2(1) len(2) assms(3) up this] s1 s2 True auth
    show ?thesis by (simp add: auth_tx_def)
  next
    case False
    with auth s1 s2 len show ?thesis by (simp add: auth_rx_def auth_tx_def)
  qed
qed

lemma write_connect_request_quiet:
  assumes "ts_quiet s" and "length buf = 513" and "length (connect_request_bytes t) \<le> 513"
  shows "\<exists>n buf' s'. write_connect_request ts_ops s buf 513 t = Inr (n, buf', ec_ok, s')
    \<and> length buf' = 513 \<and> ts_quiet s' \<and> ts_pending s' = ts_pending s
    \<and> ts_in s' = ts_in s @ connect_request_bytes t"
proof -
  have ne: "connect_request_bytes t \<noteq> []" by (simp add: connect_request_bytes_def)
  obtain s1 where "write_buffer ts_ops s (overlay (connect_request_bytes t) buf)
      (length (connect_request_bytes t)) = Inr (ec_ok, s1)"
    and "ts_quiet s1" "ts_pending s1 = ts_pending s" "ts_in s1 = ts_in s @ connect_request_bytes t"
    using ts_write_buffer_quiet [OF assms(1) ne, of buf] assms(2,3) by auto
  with assms show ?thesis
    by (simp add: write_connect_request_def prepare_request_eq length_overlay)
qed

lemma read_connect_reply_quiet:
  assumes "ts_quiet s" and "length buf = 513"
  shows "\<exists>buf' s'. read_connect_reply ts_ops s buf k
      = Inr (fst (reply_v5 (take 22 (ts_pending s))), buf',
          snd (reply_v5 (take 22 (ts_pending s))), s')
    \<and> ts_in s' = ts_in s \<and> ts_pending s' = drop 22 (ts_pending s)"
proof -
  let ?n = "min 22 (length (ts_pending s))"
  let ?buf = "overlay (take 22 (ts_pending s)) buf"
  let ?s' = "s\<lparr>ts_n_read := ts_n_read s + ?n\<rparr>"
  have c: "read_reply_cond buf ec_ok 0 = 22" by (simp add: read_reply_cond_def)
  have read: "read_buffer ts_ops s buf 22 read_reply_cond
      = Inr (?buf, ?n, if 22 \<le> length (ts_pending s) then ec_ok else eof, ?s')"
  proof (cases "22 \<le> length (ts_pending s)")
    case True
    with assms c ts_read_quiet [of s 22 read_reply_cond buf] show ?thesis
      by (simp add: read_buffer_def overlay_def min_absorb1)
  next
    case False
    with assms c ts_read_short [of s read_reply_cond buf 22] show ?thesis
      by (simp add: read_buffer_def min_absorb2)
  qed
  have "ts_pending ?s' = drop 22 (ts_pending s)"
    by (simp add: ts_quiet_read(2) min_def)
  moreover have "parse_reply_v5 ?buf ?n
      = Inr (reply_outcome Err_succeeded (decode_reply_v5 (take 22 (ts_pending s))))"
    if "?n = 10 \<or> ?n = 22"
    using that assms(2) by (subst parse_reply_v5_eq) (auto simp: length_overlay)
  ultimately show ?thesis
    by (auto simp: read_connect_reply_def read reply_v5_def split: prod.splits)
qed

lemma connect_to_quiet:
  assumes "ts_quiet s" and "length buf = 513" and "\<not> oversized_auth opt"
    and "m \<in> set (greeting_methods opt)" and "length (connect_request_bytes t) \<le> 513"
    and "ts_pending s = [0x05, m] @ auth_rx m @ reply"
  shows "\<exists>s'. connect_to ts_ops s buf t opt
      = Inr (fst (reply_v5 (take 22 reply)), snd (reply_v5 (take 22 reply)), s')
    \<and> ts_in s' = ts_in s @ greeting_bytes opt @ auth_tx opt m @ connect_request_bytes t
    \<and> ts_pending s' = drop 22 reply"
proof -
  from authenticate_quiet [OF assms(1-4,6)] obtain c buf1 s1
    where a: "authenticate ts_ops s buf 513 opt = Inr (c, buf1, ec_ok, s1)"
      and s1: "length buf1 = 513" "ts_quiet s1" "ts_pending s1 = reply"
        "ts_in s1 = ts_in s @ greeting_bytes opt @ auth_tx opt m" by blast
  from write_connect_request_quiet [OF s1(2,1) assms(5)] obtain n buf2 s2
    where w: "write_connect_request ts_ops s1 buf1 513 t = Inr (n, buf2, ec_ok, s2)"
      and s2: "length buf2 = 513" "ts_quiet s2" "ts_pending s2 = ts_pending s1"
        "ts_in s2 = ts_in s1 @ connect_request_bytes t" by blast
  have def: "failed (snd (reply_v5 r)) \<Longrightarrow> fst (reply_v5 r) = endpoint_default" for r
    by (cases "decode_reply_v5 r") (auto simp: reply_v5_def split: if_splits)
  from read_connect_reply_quiet [OF s2(2,1), of 513] s1 s2 def [of "take 22 reply"] show ?thesis
    by (auto simp: connect_to_eq a w)
qed

lemma connect_to_post:
  assumes "sync_stream ops good sent received" and "good s" and "length buf = 513"
  shows "res_post (connect_fault opt t) (sync_stream.connect_done good sent received t opt s)
    (connect_to ops s buf t opt)"
proof (cases t)
  case (To_endpoint ep)
  with sync_stream.connect_endpoint_post [OF assms] show ?thesis by simp
next
  case (To_domain d)
  with sync_stream.connect_domain_post [OF assms, of opt "de_domain d" "de_port d"]
  show ?thesis by simp
qed

section \<open>Properties\<close>

text \<open>
  C1 (connect_success_sound).  Over any stream whose composed operations keep the documented
  contract, and whatever the server sends: when \<open>connect\<close>, in either overload, reports no
  error, the code is \<open>succeeded\<close>, and the client has written exactly its greeting, the
  sub-negotiation of one method it offered and the request for the target, and has read
  exactly the server's choice of that method, its acceptance of the credentials and one
  complete successful reply, whose endpoint is the one returned.
\<close>
theorem connect_success_sound:
  assumes "sync_stream ops good sent received" and "good s" and "length buf = 513"
    and "connect_to ops s buf t opt = Inr (ep, ec, s')" and "\<not> failed ec"
  shows "ec = make_error_code Err_succeeded
    \<and> (\<exists>m \<in> set (greeting_methods opt). \<exists>rsv.
        sent s' = sent s @ greeting_bytes opt @ (if m = 0x02 then userpass_bytes opt else [])
          @ connect_request_bytes t
        \<and> received s' = received s @ [0x05, m] @ (if m = 0x02 then [0x01, 0x00] else [])
          @ [0x05, 0x00, rsv] @ endpoint_bytes ep)"
  using res_post_InrD [OF connect_to_post [OF assms(1-3)] assms(4)] assms(5)
  by (simp add: sync_stream.connect_done_def [OF assms(1)] auth_tx_def auth_rx_def)

theorem connect_success_sound_witness:
  "\<exists>s'. connect_to ts_ops (scripted [5, 0, 5, 0, 0, 1, 127, 0, 0, 1, 4, 56]) (replicate 513 0)
      (To_endpoint endpoint_default) auth_none
      = Inr (\<lparr>ep_address = Address_v4 0x7F000001, ep_port = 1080\<rparr>, make_error_code Err_succeeded, s')
    \<and> take 3 (ts_in s') = [5, 1, 0]"
proof -
  let ?s = "scripted [5, 0, 5, 0, 0, 1, 127, 0, 0, 1, 4, 56]"
  let ?ep = "\<lparr>ep_address = Address_v4 0x7F000001, ep_port = 1080\<rparr>"
  obtain s' where run: "connect_to ts_ops ?s (replicate 513 0) (To_endpoint endpoint_default) auth_none
      = Inr (?ep, make_error_code Err_succeeded, s')"
    using connect_to_quiet [of ?s "replicate 513 0" auth_none 0 "To_endpoint endpoint_default"
        "[5, 0, 0, 1, 127, 0, 0, 1, 4, 56]"]
    by (auto simp: size_max_def oversized_auth_def greeting_methods_def auth_rx_def
        length_connect_request_bytes dst_addr_size_endpoint_def reply_v5_def be_word_def)
  have "ts_inv ?s" "length (replicate 513 (0::byte)) = 513" "\<not> failed (make_error_code Err_succeeded)"
    by simp_all
  from connect_success_sound [OF ts_sync_stream this(1,2) run this(3)] run show ?thesis
    by (auto simp: greeting_bytes_def greeting_methods_def)
qed

text \<open>
  C19 (connect_fails_closed).  Over any such stream, \<open>connect\<close> returns with the stream's
  invariant kept, and with the default endpoint whenever it reports an error; it never reads
  or writes outside its 513-byte buffer, and the only way it can fail to return is one of its
  assertions, for credentials over 255 characters or a request over 513 bytes.
\<close>
theorem connect_fails_closed:
  assumes "sync_stream ops good sent received" and "good s" and "length buf = 513"
  shows "case connect_to ops s buf t opt of
      Inl e \<Rightarrow> e = Assertion_failed
        \<and> (is_userpass opt \<and> (255 < length (user opt) \<or> 255 < length (pass opt))
           \<or> 513 < length (connect_request_bytes t))
    | Inr (ep, ec, s') \<Rightarrow> good s' \<and> (failed ec \<longrightarrow> ep = endpoint_default)"
  using connect_to_post [OF assms, of opt t]
  by (auto simp: res_post_def connect_fault_def oversized_auth_def
      sync_stream.connect_done_def [OF assms(1)] split: sum.splits)

theorem connect_fails_closed_witness:
  "case connect_to ts_ops (scripted [4]) (replicate 513 0) (To_endpoint endpoint_default) auth_none of
     Inl e \<Rightarrow> False | Inr (ep, ec, s') \<Rightarrow> ts_inv s' \<and> (failed ec \<longrightarrow> ep = endpoint_default)"
  using connect_fails_closed [OF ts_sync_stream, of "scripted [4]" "replicate 513 0"
      auth_none "To_endpoint endpoint_default"]
  by (auto simp: length_connect_request_bytes dst_addr_size_endpoint_def
      split: sum.splits)

text \<open>
  Against a server that picks a method the client offered,
  accepts the credentials and answers with a reply of any code and any bound endpoint,
  \<open>connect\<close> over the test stream returns that endpoint with \<open>succeeded\<close> for code 0, and the
  default endpoint with the error of the code otherwise; it has then written the whole
  dialogue and consumed exactly the server's bytes.
\<close>
theorem connect_scripted_server:
  assumes "m \<in> set (greeting_methods opt)"
    and "is_userpass opt \<longrightarrow> length (user opt) \<le> 255 \<and> length (pass opt) \<le> 255"
    and "length (connect_request_bytes t) \<le> 513" and "length buf = 513"
    and "script = [0x05, m] @ (if m = 0x02 then [0x01, 0x00] else []) @ connect_reply_bytes rep ep"
  shows "\<exists>s'. connect_to ts_ops (scripted script) buf t opt
      = Inr (if rep = 0 then ep else endpoint_default,
          make_error_code (error_of_reply (to_reply_code (ucast rep))), s')
    \<and> ts_in s' = greeting_bytes opt @ (if m = 0x02 then userpass_bytes opt else [])
        @ connect_request_bytes t
    \<and> ts_pending s' = []"
proof -
  let ?r = "connect_reply_bytes rep ep"
  have len: "length ?r = 10 \<or> length ?r = 22" "length script \<le> size_max"
    using assms(5) by (simp_all add: length_connect_reply_bytes size_max_def)
  have t22: "take 22 ?r = ?r" "drop 22 ?r = []" using len by auto
  have ok: "to_reply_code 0 = Rep_succeeded" by (simp add: to_reply_code_def)
  have "reply_v5 ?r = (if rep = 0 then ep else endpoint_default,
      make_error_code (error_of_reply (to_reply_code (ucast rep))))"
    using len(1) ok by (simp add: reply_v5_def decode_reply_v5_bytes)
  with connect_to_quiet [of "scripted script" buf opt m t ?r] assms len(2) t22 show ?thesis
    by (auto simp: oversized_auth_def auth_rx_def auth_tx_def)
qed

theorem connect_scripted_server_witness:
  "\<exists>s'. connect_to ts_ops (scripted [5, 2, 1, 0, 5, 5, 0, 1, 0, 0, 0, 0, 0, 0]) (replicate 513 0)
      (To_domain \<lparr>de_domain = ''x.y'', de_port = 80\<rparr>) (auth_userpass ''u'' ''p'')
    = Inr (endpoint_default, make_error_code Err_connection_refused, s') \<and> ts_pending s' = []"
  using connect_scripted_server [of 2 "auth_userpass ''u'' ''p''"
      "To_domain \<lparr>de_domain = ''x.y'', de_port = 80\<rparr>" "replicate 513 0"
      "[5, 2, 1, 0, 5, 5, 0, 1, 0, 0, 0, 0, 0, 0]" 5 endpoint_default]
  by (auto simp: greeting_methods_def length_connect_request_bytes dst_addr_size_domain_def
      connect_reply_bytes_def endpoint_bytes_def to_reply_code_def be_bytes_four be_bytes_two)

text \<open>
  C33 (connect_overread).  The completion condition of the reply stops at ten bytes only if a
  read ends exactly there.  When the server's IPv4 reply and the first bytes of the proxied
  connection arrive together, a successful CONNECT is reported as \<open>bad_reply_size\<close>, and up
  to 12 bytes of the application's data are gone from the stream.
\<close>
theorem connect_overread:
  assumes "is_v4 (ep_address ep)" and "data \<noteq> []" and "length data \<le> 1000"
    and "length (connect_request_bytes t) \<le> 513" and "length buf = 513"
  shows "\<exists>s'. connect_to ts_ops (scripted ([0x05, 0x00] @ connect_reply_bytes 0 ep @ data)) buf t
        auth_none
      = Inr (endpoint_default, make_error_code Err_bad_reply_size, s')
    \<and> ts_pending s' = drop 12 data"
proof -
  let ?r = "connect_reply_bytes 0 ep @ data"
  from assms(1) have v4: "\<not> is_v6 (ep_address ep)" by (cases "ep_address ep") auto
  then have len: "length (connect_reply_bytes 0 ep) = 10" by (simp add: length_connect_reply_bytes)
  obtain body where "connect_reply_bytes 0 ep = [5, 0, 0, 1] @ body"
    using v4 by (cases "ep_address ep") (auto simp: connect_reply_bytes_def endpoint_bytes_def)
  with len have "reply_v5 (take 22 ?r) = (endpoint_default, make_error_code Err_bad_reply_size)"
    using assms(2) by (auto simp: reply_v5_def min_def)
  with connect_to_quiet [of "scripted ([0x05, 0x00] @ ?r)" buf auth_none 0 t ?r] assms(3-5) len
  show ?thesis
    by (auto simp: oversized_auth_def auth_rx_def greeting_methods_def size_max_def)
qed

theorem connect_overread_witness:
  "\<exists>s'. connect_to ts_ops (scripted ([5, 0] @ connect_reply_bytes 0 endpoint_default @ [72, 105]))
      (replicate 513 0) (To_endpoint endpoint_default) auth_none
    = Inr (endpoint_default, make_error_code Err_bad_reply_size, s') \<and> ts_pending s' = []"
  using connect_overread [of endpoint_default "[72, 105]" "To_endpoint endpoint_default"
      "replicate 513 0"]
  by (simp add: length_connect_request_bytes dst_addr_size_endpoint_def)

end
