(* ===== verification/Server_Client.thy ===== *)
theory Server_Client
  imports Server_Machine Connect_V5
begin

text \<open>
  The server against the client's messages: the reference reading of a connect request and
  the server's parser, the completion conditions on the messages the client sends, and the
  server's replies in the client's parsers.
\<close>

section \<open>The request, as RFC 1928 lays it out\<close>

fun decode_request :: "byte list \<Rightarrow> target option" where
  "decode_request (ver # cmd # rsv # atyp # body) =
     (if ver \<noteq> 0x05 \<or> cmd \<noteq> 0x01 \<or> rsv \<noteq> 0x00 then None
      else if atyp = 0x01 then
        (if length body = 6
         then Some (To_endpoint \<lparr>ep_address = Address_v4 (be_word (take 4 body)),
                                  ep_port = be_word (drop 4 body)\<rparr>)
         else None)
      else if atyp = 0x04 then
        (if length body = 18
         then Some (To_endpoint \<lparr>ep_address = Address_v6 (be_word (take 16 body)),
                                  ep_port = be_word (drop 16 body)\<rparr>)
         else None)
      else if atyp = 0x03 then
        (case body of [] \<Rightarrow> None
         | len # rest \<Rightarrow>
             if length rest = unat len + 2
             then Some (To_domain \<lparr>de_domain = map char_of_byte (take (unat len) rest),
                                   de_port = be_word (drop (unat len) rest)\<rparr>)
             else None)
      else None)"
| "decode_request _ = None"

lemma decode_request_bytes:
  assumes "\<And>d. t = To_domain d \<Longrightarrow> length (de_domain d) \<le> 255"
  shows "decode_request (connect_request_bytes t) = Some t"
proof (cases t)
  case (To_endpoint ep)
  then show ?thesis
    by (cases ep; cases "ep_address ep")
      (simp_all add: connect_request_bytes_def endpoint_bytes_def wire_simps del: be_bytes.simps)
next
  case (To_domain d)
  with assms have "unat (word_of_nat (length (de_domain d)) :: byte) = length (de_domain d)"
    by (simp add: unat_of_nat)
  with To_domain show ?thesis
    by (simp add: connect_request_bytes_def domain_bytes_def wire_simps o_def del: be_bytes.simps)
qed

section \<open>The server's parser\<close>

text \<open>What the parser starts for a target, in a connection with its target socket closed.\<close>

fun start_target :: "target \<Rightarrow> connection \<Rightarrow> connection \<times> op list" where
  "start_target (To_endpoint ep) c = (c\<lparr>c_target := ep\<rparr>, [Connect_target])"
| "start_target (To_domain d) c = (c, [Resolve (de_domain d) (to_string (de_port d))])"

lemma refuse_closed:
  "c_target_local c = None \<Longrightarrow> refuse ec what rep c = Inl Socket_not_open"
  "c_target_local c = None \<Longrightarrow> refuse_v4 ec what rep c = Inl Socket_not_open"
  by (simp_all add: refuse_def refuse_v4_def fail_def do_connect_reply_closed)

lemma port_at: "i + 2 = length xs \<Longrightarrow> be_word [xs ! i, xs ! Suc i] = (be_word (drop i xs) :: u16)"
proof -
  assume i: "i + 2 = length xs"
  then have "drop i xs = take 2 (drop i xs)" by simp
  also have "\<dots> = [xs ! i, xs ! (i + 1)]" using i by (intro slice_two) simp
  finally show ?thesis by simp
qed

lemma parse_domain_eq:
  assumes "c_target_local c = None" and "c_buffer c = 5 # 1 # 0 # 3 # len # rest"
  shows "parse_connect_domain c
    = (if length rest = unat len + 2
       then Inr (c, [Resolve (map char_of_byte (take (unat len) rest))
              (to_string (be_word (drop (unat len) rest)))])
       else Inl Socket_not_open)"
proof (cases "length rest = unat len + 2")
  case True
  have "take 2 (drop (unat len) rest) = [rest ! unat len, rest ! Suc (unat len)]"
    using True slice_two [of "unat len" rest] by simp
  moreover have "take 2 (drop (unat len) rest) = drop (unat len) rest" using True by simp
  ultimately show ?thesis
    using assms True
    by (simp add: parse_connect_domain_def port_of_bytes_eq numeral_eq_Suc)
next
  case False
  with assms show ?thesis by (simp add: parse_connect_domain_def refuse_closed)
qed

lemma parse_socks_connect_eq:
  assumes "c_target_local c = None" and "c_buffer c \<noteq> []" and "c_buffer c \<noteq> [5, 1, 0, 3]"
  shows "parse_socks_connect c
    = (case decode_request (c_buffer c) of
        Some t \<Rightarrow> Inr (start_target t c)
      | None \<Rightarrow> Inl Socket_not_open)"
proof (cases "c_buffer c" rule: decode_request.cases)
  case (1 ver cmd rsv atyp body)
  have six: "length body = 6 \<Longrightarrow> be_word [body ! 4, body ! 5] = (be_word (drop 4 body) :: u16)"
    using port_at [of 4 body] by simp
  have eighteen: "length body = 18 \<Longrightarrow> be_word [body ! 16, body ! 17] = (be_word (drop 16 body) :: u16)"
    using port_at [of 16 body] by simp
  show ?thesis
  proof (cases "ver = 5 \<and> cmd = 1 \<and> rsv = 0 \<and> atyp = 3")
    case True
    with 1 assms(3) obtain len rest where "body = len # rest" by (cases body) auto
    with True 1 assms show ?thesis
      by (simp add: parse_socks_connect_def parse_domain_eq)
  next
    case False
    with 1 assms(1) six eighteen show ?thesis
      by (auto simp: parse_socks_connect_def parse_connect_v4_address_def
          parse_connect_v6_address_def refuse_closed do_target_connect_def port_of_bytes_eq
          make_address_v4_bytes_def make_address_v6_def)
  qed
qed (use assms in \<open>auto simp: parse_socks_connect_def refuse_closed\<close>)

section \<open>The completion conditions on the client's messages\<close>

lemma nth_overlay_take: "i < k \<Longrightarrow> k \<le> length msg \<Longrightarrow> overlay (take k msg) old ! i = msg ! i"
  by (simp add: overlay_def nth_append)

lemma connect_request_bytes_nth:
  "connect_request_bytes t ! 0 = 5" "connect_request_bytes t ! Suc 0 = 1"
  "connect_request_bytes t ! 2 = 0"
  "connect_request_bytes (To_endpoint ep) ! 3 = (if is_v6 (ep_address ep) then 4 else 1)"
  "connect_request_bytes (To_domain d) ! 3 = 3"
  "connect_request_bytes (To_domain d) ! 4 = word_of_nat (length (de_domain d))"
  by (cases "ep_address ep";
      simp add: connect_request_bytes_def endpoint_bytes_def domain_bytes_def)+

text \<open>The bytes the condition still asks for after \<open>k\<close> bytes of a request.\<close>

lemma request_cond_prefix:
  assumes "\<And>d. t = To_domain d \<Longrightarrow> length (de_domain d) \<le> 255"
    and "k \<le> length (connect_request_bytes t)"
  shows "request_cond (overlay (take k (connect_request_bytes t)) old) ec_ok k
    = (if k < 4 \<or> k = 4 \<and> t \<in> range To_domain then 263 - k
       else length (connect_request_bytes t) - k)"
proof -
  let ?b = "overlay (take k (connect_request_bytes t)) old"
  have n: "?b ! i = connect_request_bytes t ! i" if "i < k" for i
    using that assms(2) by (rule nth_overlay_take)
  show ?thesis
  proof (cases t)
    case (To_endpoint ep)
    then show ?thesis
      using n [of 0] n [of 1] n [of 2] n [of 3]
      by (auto simp: request_cond_def Let_def connect_request_bytes_nth
          length_connect_request_bytes dst_addr_size_endpoint_def)
  next
    case (To_domain d)
    with assms(1) have "unat (word_of_nat (length (de_domain d)) :: byte) = length (de_domain d)"
      by (simp add: unat_of_nat)
    with To_domain show ?thesis
      using n [of 0] n [of 1] n [of 2] n [of 3] n [of 4]
      by (auto simp: request_cond_def Let_def connect_request_bytes_nth
          length_connect_request_bytes dst_addr_size_domain_def)
  qed
qed

lemma greeting_cond_prefix:
  assumes "k \<le> length (greeting_bytes opt)"
  shows "greeting_cond (overlay (take k (greeting_bytes opt)) (replicate 258 0)) ec_ok k
    = (if k < 2 then 258 - k else length (greeting_bytes opt) - k)"
proof -
  let ?b = "overlay (take k (greeting_bytes opt)) (replicate 258 0)"
  have n: "?b ! i = greeting_bytes opt ! i" if "i < k" for i
    using that assms by (rule nth_overlay_take)
  have zero: "k = 0 \<Longrightarrow> ?b ! 0 = 0" by (simp add: overlay_def)
  have g: "greeting_bytes opt ! 0 = 5" "greeting_bytes opt ! Suc 0 = (if is_userpass opt then 2 else 1)"
    by (simp_all add: greeting_bytes_def greeting_methods_def)
  show ?thesis
    using n [of 0] n [of 1] zero g
    by (cases "k = 0") (auto simp: greeting_cond_def Let_def length_greeting_bytes)
qed

lemma on_greeting_bytes:
  assumes "length old = 258"
  shows "on_greeting ec_ok (length (greeting_bytes opt)) (c\<lparr>c_buffer := overlay (greeting_bytes opt) old\<rparr>)
    = Inr (c\<lparr>c_server_choice := auth_code opt, c_buffer := [5, auth_code opt]\<rparr>, [Write_choice])"
proof -
  have "length (greeting_bytes opt) \<le> 258" by (simp add: length_greeting_bytes)
  then have "vec_resize (length (greeting_bytes opt)) (overlay (greeting_bytes opt) old) = greeting_bytes opt"
    using assms by (simp add: length_overlay)
  then show ?thesis
    by (simp add: on_greeting_def Let_def parse_socks_greeting_def do_server_choice_def
        greeting_bytes_def greeting_methods_def auth_code_def upt_rec)
qed

lemma userpass_read_full:
  assumes "read_done userpass_cond old buf n ec" and "\<not> failed ec" and "length old = 513"
    and "0 < n \<Longrightarrow> buf ! 0 = 0x01"
  shows "n = 513"
proof (rule ccontr)
  assume "n \<noteq> 513"
  with assms have "userpass_cond buf ec n = 0" by (auto simp: read_done_def)
  with assms(2,4) show False by (auto simp: userpass_cond_def Let_def split: if_splits)
qed

lemma on_request_v4_bytes:
  assumes "length old = 258" and "9 + length u \<le> 258"
  shows "on_greeting ec_ok (9 + length u) (c\<lparr>c_buffer := overlay (connect_request_v4_bytes ip port u) old\<rparr>)
    = Inr (c\<lparr>c_buffer := connect_request_v4_bytes ip port u,
             c_target := \<lparr>ep_address = Address_v4 ip, ep_port = port\<rparr>\<rparr>, [Connect_target_v4])"
proof -
  let ?msg = "connect_request_v4_bytes ip port u"
  have len: "length ?msg = 9 + length u" by (simp add: length_connect_request_v4_bytes)
  then have "vec_resize (9 + length u) (overlay ?msg old) = ?msg"
    using assms by (simp add: length_overlay)
  moreover have "?msg ! 0 = 4" "?msg ! Suc 0 = 1" by (simp_all add: connect_request_v4_bytes_def)
  moreover have "[?msg ! 2, ?msg ! 3] = be_bytes 2 port" "take 4 (drop 4 ?msg) = be_bytes 4 ip"
    by (simp_all add: connect_request_v4_bytes_def be_bytes_two)
  moreover have "?msg \<noteq> []" using len by auto
  ultimately show ?thesis
    using len v4_roundtrip [of ip] port_roundtrip [of port]
    by (simp add: on_greeting_def Let_def parse_socks_connect_v4_def do_target_connect_v4_def
        make_address_v4_bytes_def port_of_bytes_eq del: be_bytes.simps)
qed

section \<open>Properties\<close>

text \<open>
  C17 (server_parses_connect).  Fed any nonempty bytes but the bare prefix \<open>05 01 00 03\<close>, with
  the target socket still closed, the server's request parser does exactly what the reference
  reading of RFC 1928 says: it connects to the endpoint or resolves the host and the decimal
  port of a well-formed request.  Any other request, for which the code means to send an error
  reply, ends in an exception instead, as \<open>do_connect_reply\<close> asks an unopened socket for its
  local endpoint.
\<close>
theorem server_parses_connect:
  assumes "c_target_local c = None" and "c_buffer c \<noteq> []" and "c_buffer c \<noteq> [0x05, 0x01, 0x00, 0x03]"
  shows "parse_socks_connect c
    = (case decode_request (c_buffer c) of
        Some (To_endpoint ep) \<Rightarrow> Inr (c\<lparr>c_target := ep\<rparr>, [Connect_target])
      | Some (To_domain d) \<Rightarrow> Inr (c, [Resolve (de_domain d) (to_string (de_port d))])
      | None \<Rightarrow> Inl Socket_not_open)"
  using parse_socks_connect_eq [OF assms] by (simp split: option.splits target.splits)

theorem server_parses_connect_witness:
  "parse_socks_connect (connection_new\<lparr>c_buffer := [5, 2, 0, 1, 127, 0, 0, 1, 0, 80]\<rparr>)
    = Inl Socket_not_open"
  using server_parses_connect [of "connection_new\<lparr>c_buffer := [5, 2, 0, 1, 127, 0, 0, 1, 0, 80]\<rparr>"]
  by (simp add: connection_new_def)

text \<open>
  C16 (client_request_understood).  For every request the client can send with a domain name of
  at most 255 characters: however the bytes arrive, the server's completion condition asks for
  more at every proper prefix and ends the read at the whole message, whatever the vector held
  before; and the parser then connects to the client's endpoint, or resolves the client's host
  name and port.
\<close>
theorem client_request_understood:
  assumes "\<forall>d. t = To_domain d \<longrightarrow> length (de_domain d) \<le> 255" and "length old = 263"
    and "c_target_local c = None"
  shows "(\<forall>k < length (connect_request_bytes t).
        request_cond (overlay (take k (connect_request_bytes t)) old) ec_ok k \<noteq> 0)
    \<and> request_cond (overlay (connect_request_bytes t) old) ec_ok (length (connect_request_bytes t)) = 0
    \<and> on_request ec_ok (length (connect_request_bytes t))
        (c\<lparr>c_buffer := overlay (connect_request_bytes t) old\<rparr>)
      = Inr (start_target t (c\<lparr>c_buffer := connect_request_bytes t\<rparr>))"
proof (intro conjI allI impI)
  let ?msg = "connect_request_bytes t"
  have small: "\<And>d. t = To_domain d \<Longrightarrow> length (de_domain d) \<le> 255" using assms(1) by blast
  show "request_cond (overlay (take k ?msg) old) ec_ok k \<noteq> 0" if "k < length ?msg" for k
    using that by (simp add: request_cond_prefix [OF small])
  have len: "length ?msg \<le> 263" "6 \<le> length ?msg"
    using small by (cases t; simp add: length_connect_request_bytes dst_addr_size_endpoint_def
      dst_addr_size_domain_def)+
  have "\<not> (length ?msg < 4 \<or> length ?msg = 4 \<and> t \<in> range To_domain)" using len(2) by auto
  then show "request_cond (overlay ?msg old) ec_ok (length ?msg) = 0"
    using request_cond_prefix [OF small order_refl, where old = old] by simp
  have "?msg \<noteq> []" "?msg \<noteq> [5, 1, 0, 3]" using len(2) by auto
  moreover have "vec_resize (length ?msg) (overlay ?msg old) = ?msg"
    using len assms(2) by (simp add: length_overlay)
  ultimately show "on_request ec_ok (length ?msg) (c\<lparr>c_buffer := overlay ?msg old\<rparr>)
      = Inr (start_target t (c\<lparr>c_buffer := ?msg\<rparr>))"
    using parse_socks_connect_eq [of "c\<lparr>c_buffer := ?msg\<rparr>"] assms(3)
    by (simp add: on_request_def decode_request_bytes [OF small])
qed

theorem client_request_understood_witness:
  "request_cond (overlay (connect_request_bytes (To_domain \<lparr>de_domain = ''a.b'', de_port = 80\<rparr>))
      (replicate 263 0)) ec_ok 10 = 0"
proof -
  have h: "\<forall>d. To_domain \<lparr>de_domain = ''a.b'', de_port = 80\<rparr> = To_domain d \<longrightarrow> length (de_domain d) \<le> 255"
    by auto
  have "c_target_local connection_new = None" by (simp add: connection_new_def)
  from client_request_understood [OF h length_replicate this] show ?thesis
    by (simp add: length_connect_request_bytes dst_addr_size_domain_def)
qed

text \<open>
  The greeting the client writes for any options is read by
  the server to its end and not beyond, from a fresh connection's vector, and answered with
  the method of those options, in a message that the client's own check accepts.
\<close>
theorem client_greeting_understood:
  "(\<forall>k. greeting_cond (overlay (take k (greeting_bytes opt)) (replicate 258 0)) ec_ok
          (min k (length (greeting_bytes opt))) = 0
        \<longleftrightarrow> length (greeting_bytes opt) \<le> k)
    \<and> on_greeting ec_ok (length (greeting_bytes opt))
        (connection_new\<lparr>c_buffer := overlay (greeting_bytes opt) (replicate 258 0)\<rparr>)
      = Inr (connection_new\<lparr>c_server_choice := auth_code opt, c_buffer := [0x05, auth_code opt]\<rparr>,
          [Write_choice])
    \<and> validate_server_choice [0x05, auth_code opt] 2 opt ec_ok = Inr ec_ok"
proof (intro conjI allI)
  let ?msg = "greeting_bytes opt"
  show "greeting_cond (overlay (take k ?msg) (replicate 258 0)) ec_ok (min k (length ?msg)) = 0
      \<longleftrightarrow> length ?msg \<le> k" for k
    using greeting_cond_prefix [of "min k (length ?msg)" opt] length_greeting_bytes [of opt]
    by (cases "k < length ?msg") (auto simp: min_def take_all)
  show "on_greeting ec_ok (length ?msg) (connection_new\<lparr>c_buffer := overlay ?msg (replicate 258 0)\<rparr>)
      = Inr (connection_new\<lparr>c_server_choice := auth_code opt, c_buffer := [0x05, auth_code opt]\<rparr>,
          [Write_choice])"
    by (rule on_greeting_bytes) simp
  show "validate_server_choice [0x05, auth_code opt] 2 opt ec_ok = Inr ec_ok"
    by (simp add: validate_server_choice_eq auth_code_def greeting_methods_def)
qed

text \<open>
  C30 (server_userpass_never_completes).  The server's read of the credentials can end without
  an error only with all 513 bytes of its vector filled, because the completion condition
  never returns 0 after a good version byte.  So when the client's message is all that
  arrives, the read ends well only if that message happens to be 513 bytes long, with user name
  and password of 255 characters each; for shorter ones the negotiation hangs until the client
  gives up.
\<close>
theorem server_userpass_never_completes:
  assumes "read_done userpass_cond old buf n ec" and "length old = 513"
    and "take n buf = userpass_bytes opt"
  shows "\<not> failed ec \<longrightarrow> length (user opt) + length (pass opt) = 510"
proof
  assume "\<not> failed ec"
  have n: "n \<le> 513" "length buf = 513" using assms(1,2) by (simp_all add: read_done_def)
  then have len: "n = length (userpass_bytes opt)"
    using assms(3) by (metis length_take min.absorb2)
  then have "0 < n" by (simp add: length_userpass_bytes)
  then have "buf ! 0 = take n buf ! 0" by simp
  then have "buf ! 0 = 1" by (simp add: assms(3) userpass_bytes_def)
  with userpass_read_full [OF assms(1) \<open>\<not> failed ec\<close> assms(2)] len
  show "length (user opt) + length (pass opt) = 510" by (simp add: length_userpass_bytes)
qed

theorem server_userpass_never_completes_witness:
  "read_done userpass_cond (replicate 513 0)
      (userpass_bytes (auth_userpass ''u'' ''p'') @ replicate 508 0) 5 eof
    \<and> \<not> read_done userpass_cond (replicate 513 0)
      (userpass_bytes (auth_userpass ''u'' ''p'') @ replicate 508 0) 5 ec_ok"
proof
  let ?buf = "userpass_bytes (auth_userpass ''u'' ''p'') @ replicate 508 0"
  have len: "length (userpass_bytes (auth_userpass ''u'' ''p'')) = 5"
    by (simp add: length_userpass_bytes)
  show "read_done userpass_cond (replicate 513 0) ?buf 5 eof"
    using len by (simp add: read_done_def)
  show "\<not> read_done userpass_cond (replicate 513 0) ?buf 5 ec_ok"
    using server_userpass_never_completes [of "replicate 513 0" ?buf 5 ec_ok "auth_userpass ''u'' ''p''"]
      len by auto
qed

text \<open>
  A SOCKS4 request with a user id of at most 249 characters, once
  it is in the server's vector, makes the server connect to the client's endpoint.  But the
  completion condition reads the command byte before it has arrived: when the first segment
  holds the version byte alone the read ends there, and the connection's handler fails.
\<close>
theorem v4_request_understood:
  assumes "length u \<le> 249" and "ep_address t = Address_v4 ip"
  shows "on_greeting ec_ok (9 + length u)
      (connection_new\<lparr>c_buffer := overlay (connect_request_v4_bytes ip (ep_port t) u) (replicate 258 0)\<rparr>)
      = Inr (connection_new\<lparr>c_buffer := connect_request_v4_bytes ip (ep_port t) u, c_target := t\<rparr>,
          [Connect_target_v4])
    \<and> greeting_cond (overlay (take 1 (connect_request_v4_bytes ip (ep_port t) u)) (replicate 258 0)) ec_ok 1 = 0
    \<and> on_greeting ec_ok 1
      (connection_new\<lparr>c_buffer := overlay (take 1 (connect_request_v4_bytes ip (ep_port t) u)) (replicate 258 0)\<rparr>)
      = Inl Socket_not_open"
proof (intro conjI)
  have "t = \<lparr>ep_address = Address_v4 ip, ep_port = ep_port t\<rparr>" using assms(2) by simp
  with on_request_v4_bytes [where old = "replicate 258 0" and u = u and c = connection_new and ip = ip
      and port = "ep_port t"] assms(1)
  show "on_greeting ec_ok (9 + length u)
      (connection_new\<lparr>c_buffer := overlay (connect_request_v4_bytes ip (ep_port t) u) (replicate 258 0)\<rparr>)
      = Inr (connection_new\<lparr>c_buffer := connect_request_v4_bytes ip (ep_port t) u, c_target := t\<rparr>,
          [Connect_target_v4])"
    by simp
  have one: "take 1 (connect_request_v4_bytes ip (ep_port t) u) = [4]"
    by (simp add: connect_request_v4_bytes_def)
  show "greeting_cond (overlay (take 1 (connect_request_v4_bytes ip (ep_port t) u)) (replicate 258 0)) ec_ok 1 = 0"
    unfolding one by (simp add: greeting_cond_def overlay_def)
  show "on_greeting ec_ok 1
      (connection_new\<lparr>c_buffer := overlay (take 1 (connect_request_v4_bytes ip (ep_port t) u)) (replicate 258 0)\<rparr>)
      = Inl Socket_not_open"
    unfolding one
    by (simp add: on_greeting_def overlay_def parse_socks_connect_v4_def refuse_closed connection_new_def)
qed

theorem v4_request_understood_witness:
  "on_greeting ec_ok 1 (connection_new\<lparr>c_buffer := overlay [4] (replicate 258 0)\<rparr>) = Inl Socket_not_open"
  using v4_request_understood [of "''u''" endpoint_default 0]
  by (simp add: connect_request_v4_bytes_def)

text \<open>
  C31 (server_reply_understood).  The reply the server writes once its target socket is open,
  for any reply code, is a SOCKS5 reply that the client's parser reads back: code 0 gives the
  local endpoint of the server's socket, another code its error with the default endpoint.
\<close>
theorem server_reply_understood:
  assumes "c_target_local c = Some ep"
  shows "\<exists>c'. do_connect_reply rep c = Inr (c', [Write_reply])
    \<and> parse_reply_v5 (c_buffer c') (length (c_buffer c'))
      = Inr (if rep = 0 then ep else endpoint_default,
          make_error_code (error_of_reply (to_reply_code (ucast rep))))"
proof -
  let ?ep = "if rep = 0 then ep else endpoint_default"
  let ?msg = "connect_reply_bytes rep ?ep"
  have ok: "to_reply_code 0 = Rep_succeeded" by (simp add: to_reply_code_def)
  have "overlay ?msg ?msg = ?msg" by (simp add: overlay_def)
  with parse_reply_v5_overlay [of rep ?ep ?msg]
  have "parse_reply_v5 ?msg (length ?msg)
      = Inr (reply_outcome Err_succeeded (decode_reply_v5 ?msg))" by simp
  then show ?thesis
    using ok by (simp add: do_connect_reply_open [OF assms] decode_reply_v5_bytes)
qed

theorem server_reply_understood_witness:
  "\<exists>c'. do_connect_reply 4 (connection_new\<lparr>c_target_local := Some endpoint_default\<rparr>) = Inr (c', [Write_reply])
    \<and> parse_reply_v5 (c_buffer c') (length (c_buffer c'))
      = Inr (endpoint_default, make_error_code Err_host_unreachable)"
  using server_reply_understood [of "connection_new\<lparr>c_target_local := Some endpoint_default\<rparr>"
      endpoint_default 4]
  by (simp add: to_reply_code_def)

text \<open>
  C39 (server_password_shifted).  Given a well-formed username/password message, the server
  accepts it and logs the right user name, but as the password it takes the bytes from the
  length byte on: the length followed by all but the last character.
\<close>
theorem server_password_shifted:
  assumes "length u \<le> 255" and "length p \<le> 255" and "c_buffer c = rfc1929_bytes u p"
  shows "parse_userpass_greeting c
    = Inr (c\<lparr>c_log := c_log c @ [Log_userpass (bytes_of_string u)
              (take (length p) (word_of_nat (length p) # bytes_of_string p))],
            c_buffer := [0x01, 0x00]\<rparr>, [Write_userpass_reply])"
proof -
  have u: "unat (word_of_nat (length u) :: byte) = length u"
    and p: "unat (word_of_nat (length p) :: byte) = length p"
    using assms(1,2) by (simp_all add: unat_of_nat)
  let ?b = "rfc1929_bytes u p"
  have "?b ! 0 = 1" "?b ! 1 = word_of_nat (length u)" "?b ! (2 + length u) = word_of_nat (length p)"
    "length ?b = length u + length p + 3" "take (length u) (drop 2 ?b) = bytes_of_string u"
    "drop (2 + length u) ?b = word_of_nat (length p) # bytes_of_string p" "?b \<noteq> []"
    by (simp_all add: rfc1929_bytes_def nth_append)
  with u p show ?thesis
    by (simp add: parse_userpass_greeting_def assms(3) Let_def)
qed

theorem server_password_shifted_witness:
  "parse_userpass_greeting (connection_new\<lparr>c_buffer := [1, 1, 117, 3, 97, 98, 99]\<rparr>)
    = Inr (connection_new\<lparr>c_log := [Log_userpass [117] [3, 97, 98]], c_buffer := [0x01, 0x00]\<rparr>,
        [Write_userpass_reply])"
  using server_password_shifted [of "''u''" "''abc''"
      "connection_new\<lparr>c_buffer := [1, 1, 117, 3, 97, 98, 99]\<rparr>"]
  by (simp add: rfc1929_bytes_def byte_of_char_def connection_new_def numeral_eq_Suc)

end
