(* ===== verification/Connect_V4.thy ===== *)
theory Connect_V4
  imports Messages_V4 Connect_V5
begin

text \<open>
  The blocking SOCKS4 connect (\<open>connect_v4\<close> of \<open>include/boost/socks/impl/connect_v4.hpp\<close>):
  one request, one reply of eight bytes, both in one vector of the size of the request.
\<close>

definition connect_v4 ::
    "'s stream_ops \<Rightarrow> 's \<Rightarrow> endpoint \<Rightarrow> string \<Rightarrow> (endpoint \<times> error_code \<times> 's) result" where
  "connect_v4 ops s target_host socks_user =
     (let buffer = replicate (9 + length socks_user) 0 in
      res_bind (prepare_request_v4 buffer (length buffer) target_host socks_user)
        (\<lambda>(buffer, n).
      boost_assert (n = length buffer) (
      res_bind (write_buffer ops s buffer n) (\<lambda>(ec, s).
      if failed ec then Inr (endpoint_default, ec, s)
      else
        res_bind (read_buffer ops s buffer 8 transfer_all) (\<lambda>(buffer, n, ec, s).
        if failed ec \<and> ec \<noteq> eof then Inr (endpoint_default, ec, s)
        else if n \<noteq> 8
          then Inr (endpoint_default, make_error_code Err_bad_reply_size, s)
        else res_bind (parse_reply_v4 buffer n) (\<lambda>(ep, ec). Inr (ep, ec, s)))))))"

section \<open>What it does, over any stream\<close>

text \<open>The endpoint the parser takes from a granting reply.\<close>

definition granted_endpoint :: "byte list \<Rightarrow> endpoint" where
  "granted_endpoint msg =
     \<lparr>ep_address = Address_v4 (be_word (take 4 (drop 3 msg))),
      ep_port = be_word (take 2 (drop 2 msg))\<rparr>"

lemma prepare_request_v4_vector:
  "prepare_request_v4 (replicate (9 + length u) 0) (9 + length u) ep u =
    (case ep_address ep of
       Address_v4 ip \<Rightarrow> Inr (connect_request_v4_bytes ip (ep_port ep) u, 9 + length u)
     | Address_v6 ip \<Rightarrow> Inl Bad_address_cast)"
  by (simp add: prepare_request_v4_eq overlay_def length_connect_request_v4_bytes
      split: address.splits)

lemma granted_endpoint_take [simp]: "granted_endpoint (take 8 msg) = granted_endpoint msg"
  by (simp add: granted_endpoint_def drop_take)

lemma parse_reply_v4_post:
  assumes "8 \<le> length buf"
  shows "res_post E (\<lambda>(ep, ec). (failed ec \<longrightarrow> ep = endpoint_default)
      \<and> (\<not> failed ec \<longrightarrow> ec = make_error_code Err_request_granted
          \<and> (buf ! 0 = 0 \<or> buf ! 0 = 4) \<and> buf ! 1 = 90
          \<and> ep = granted_endpoint (take 8 buf)))
    (parse_reply_v4 buf 8)"
  using assms
  by (auto simp: parse_reply_v4_eq to_reply_code_v4_granted_iff) (simp_all add: granted_endpoint_def)

context sync_stream begin

text \<open>What a call to the IPv4 address \<open>ip\<close> establishes.\<close>

definition connect_v4_done ::
    "u32 \<Rightarrow> u16 \<Rightarrow> string \<Rightarrow> 's \<Rightarrow> endpoint \<times> error_code \<times> 's \<Rightarrow> bool" where
  "connect_v4_done ip port u s = (\<lambda>(ep, ec, s'). inv s'
      \<and> (failed ec \<longrightarrow> ep = endpoint_default)
      \<and> (\<not> failed ec \<longrightarrow> ec = make_error_code Err_request_granted
          \<and> sent s' = sent s @ connect_request_v4_bytes ip port u
          \<and> (\<exists>msg. received s' = received s @ msg \<and> length msg = 8
              \<and> (msg ! 0 = 0 \<or> msg ! 0 = 4) \<and> msg ! 1 = 90 \<and> ep = granted_endpoint msg)))"

lemma connect_v4_post:
  assumes "inv s" and "ep_address t = Address_v4 ip"
  shows "res_post (\<lambda>e. False) (connect_v4_done ip (ep_port t) u s) (connect_v4 ops s t u)"
proof -
  let ?msg = "connect_request_v4_bytes ip (ep_port t) u"
  have len: "length ?msg = 9 + length u" by (simp add: length_connect_request_v4_bytes)
  have prep: "prepare_request_v4 (replicate (9 + length u) 0) (9 + length u) t u
      = Inr (?msg, 9 + length u)"
    using assms(2) by (simp add: prepare_request_v4_vector)
  show ?thesis
    unfolding connect_v4_def Let_def length_replicate prep res_bind.simps prod.case
      boost_assert_True [OF len [symmetric]]
  proof (rule res_post_bind_prod [OF write_buffer_post [OF assms(1)]])
    fix ec s1
    assume w: "inv s1 \<and> received s1 = received s
      \<and> (\<exists>k. sent s1 = sent s @ take k (take (9 + length u) ?msg))
      \<and> (\<not> failed ec \<longrightarrow> sent s1 = sent s @ take (9 + length u) ?msg)"
    have "8 \<le> length ?msg" using len by simp
    note rd = read_buffer_post [OF conjunct1 [OF w] this stops_transfer_all]
    show "res_post (\<lambda>e. False) (connect_v4_done ip (ep_port t) u s)
      (if failed ec then Inr (endpoint_default, ec, s1)
       else res_bind (read_buffer ops s1 ?msg 8 transfer_all) (\<lambda>(buffer, n, ec, s).
         if failed ec \<and> ec \<noteq> eof then Inr (endpoint_default, ec, s)
         else if n \<noteq> 8 then Inr (endpoint_default, make_error_code Err_bad_reply_size, s)
         else res_bind (parse_reply_v4 buffer n) (\<lambda>(ep, ec). Inr (ep, ec, s))))"
    proof (cases "failed ec")
      case False
      show ?thesis
        unfolding if_not_P [OF False]
        by (intro res_post_bind_quad [OF rd])
          (use w len False in \<open>auto simp: connect_v4_done_def
            intro!: res_post_bind_prod [OF parse_reply_v4_post]\<close>)
    qed (use w in \<open>simp add: connect_v4_done_def\<close>)
  qed (use len in simp)
qed

end

section \<open>Over the test stream\<close>

lemma connect_v4_quiet:
  assumes "ts_quiet s" and "ep_address t = Address_v4 ip" and "ver = 0 \<or> ver = 4"
    and "ts_pending s = connect_reply_v4_bytes ver 90 bnd port @ rest"
  shows "\<exists>s'. connect_v4 ts_ops s t u
      = Inr (\<lparr>ep_address = Address_v4 (push_bit 24 (ucast (ucast port :: byte)) OR drop_bit 8 bnd),
               ep_port = port\<rparr>, make_error_code Err_request_granted, s')
    \<and> ts_in s' = ts_in s @ connect_request_v4_bytes ip (ep_port t) u \<and> ts_pending s' = rest"
proof -
  let ?msg = "connect_request_v4_bytes ip (ep_port t) u" and ?r = "connect_reply_v4_bytes ver 90 bnd port"
  let ?s1 = "s\<lparr>ts_in := ts_in s @ ?msg\<rparr>"
  have len: "length ?msg = 9 + length u" "length ?r = 8"
    by (simp_all add: length_connect_request_v4_bytes length_connect_reply_v4_bytes)
  then have "?msg \<noteq> []" by auto
  have prep: "prepare_request_v4 (replicate (9 + length u) 0) (9 + length u) t u
      = Inr (?msg, 9 + length u)"
    using assms(2) by (simp add: prepare_request_v4_vector)
  have w: "write_buffer ts_ops s ?msg (9 + length u) = Inr (ec_ok, ?s1)"
    using ts_write_quiet [OF assms(1) \<open>?msg \<noteq> []\<close>] len by (simp add: write_buffer_def)
  have q1: "ts_quiet ?s1" "ts_pending ?s1 = ?r @ rest"
    using assms(1,4) by (simp_all add: ts_quiet_def ts_pending_def ts_inv_def)
  have rd: "read_buffer ts_ops ?s1 ?msg 8 transfer_all
      = Inr (overlay ?r ?msg, 8, ec_ok, ?s1\<lparr>ts_n_read := ts_n_read s + 8\<rparr>)"
    using ts_read_quiet [OF q1(1), of 8 transfer_all ?msg] q1(2) len
    by (simp add: read_buffer_def overlay_def transfer_all_def)
  have "drop 8 (ts_pending s) = rest" using assms(4) len(2) by simp
  then have pend: "ts_pending (?s1\<lparr>ts_n_read := ts_n_read s + 8\<rparr>) = rest"
    by (simp add: ts_pending_def add.commute)
  have "parse_reply_v4 (overlay ?r ?msg) 8
      = Inr (\<lparr>ep_address = Address_v4 (push_bit 24 (ucast (ucast port :: byte)) OR drop_bit 8 bnd),
               ep_port = port\<rparr>, make_error_code Err_request_granted)"
    using parse_reply_v4_bytes [OF assms(3), of ?msg 90 bnd port] len by simp
  then show ?thesis
    using pend
    by (simp add: connect_v4_def Let_def prep len boost_assert_True w rd)
qed

section \<open>Properties\<close>

text \<open>
  C24 (connect_v4_safe_and_sound).  Over any stream that keeps the documented contract and for
  any IPv4 target and user id, \<open>connect_v4\<close> returns: no assertion of its own fails and no
  access leaves its vector, since 9 bytes and the user id always hold the reply.  An error
  comes with the default endpoint; without one the code is \<open>request_granted\<close>, the request
  was written whole, and exactly one eight-byte reply was read, of version 0 or 4 and code
  90, from which the endpoint was taken.
\<close>
theorem connect_v4_safe_and_sound:
  assumes "sync_stream ops good sent received" and "good s" and "ep_address t = Address_v4 ip"
  shows "\<exists>ep ec s'. connect_v4 ops s t u = Inr (ep, ec, s') \<and> good s'
    \<and> (failed ec \<longrightarrow> ep = endpoint_default)
    \<and> (\<not> failed ec \<longrightarrow> ec = make_error_code Err_request_granted
        \<and> sent s' = sent s @ connect_request_v4_bytes ip (ep_port t) u
        \<and> (\<exists>msg. received s' = received s @ msg \<and> length msg = 8
            \<and> (msg ! 0 = 0 \<or> msg ! 0 = 4) \<and> msg ! 1 = 90 \<and> ep = granted_endpoint msg))"
proof -
  note post = sync_stream.connect_v4_post [OF assms(1-3), of u]
  obtain ep ec s' where run: "connect_v4 ops s t u = Inr (ep, ec, s')"
    using post by (cases "connect_v4 ops s t u") auto
  from res_post_InrD [OF post run] run show ?thesis
    by (simp add: sync_stream.connect_v4_done_def [OF assms(1)])
qed

theorem connect_v4_safe_and_sound_witness:
  "\<exists>ep ec s'. connect_v4 ts_ops (scripted [0, 90, 0, 0, 0, 0, 0, 0]) endpoint_default ''user''
    = Inr (ep, ec, s') \<and> ts_inv s' \<and> (failed ec \<longrightarrow> ep = endpoint_default)"
proof -
  have "ts_inv (scripted [0, 90, 0, 0, 0, 0, 0, 0])" and "ep_address endpoint_default = Address_v4 0"
    by simp_all
  from connect_v4_safe_and_sound [OF ts_sync_stream this, of "''user''"] show ?thesis by blast
qed

text \<open>
  An IPv6 target has no SOCKS4 request: \<open>connect_v4\<close> ends in the
  exception \<open>to_v4()\<close> throws, before it touches the stream, instead of reporting an error
  code.
\<close>
theorem connect_v4_v6_target:
  assumes "ep_address t = Address_v6 ip"
  shows "connect_v4 ops s t u = Inl Bad_address_cast"
  using assms by (simp add: connect_v4_def prepare_request_v4_vector)

theorem connect_v4_v6_target_witness:
  "connect_v4 ts_ops (scripted []) \<lparr>ep_address = Address_v6 1, ep_port = 80\<rparr> '''' = Inl Bad_address_cast"
  using connect_v4_v6_target [of "\<lparr>ep_address = Address_v6 1, ep_port = 80\<rparr>" 1] by simp

end
