(* ===== verification/Connect_Async.thy ===== *)
theory Connect_Async
  imports Connect_V4
begin

text \<open>
  The asynchronous connects: the stackless coroutines \<open>connect_op\<close> (\<open>impl/connect.hpp\<close>) and
  \<open>connect_v4_op\<close> (\<open>impl/connect_v4.hpp\<close>) as state machines.  A call of \<open>operator()\<close> resumes
  the coroutine where it last yielded, with the code and the byte count of the operation it
  waited for, and runs to the next \<open>BOOST_ASIO_CORO_YIELD\<close> or to the completion.  The state
  between two calls is the resume point, the vector and the parameters; local variables do
  not survive a yield.

  \<open>asio::async_write\<close> and \<open>asio::async_read\<close> transfer what their blocking counterparts
  transfer and hand the outcome to the handler, so the driver, the part of Asio's executor
  that the coroutine sees, takes the same record of composed operations.
\<close>

section \<open>What a call of the coroutine asks for\<close>

datatype action =
    Async_write nat
  | Async_read nat completion
  | Complete error_code endpoint
  | No_action

text \<open>The resume points, one for each yield and one behind the end of the coroutine's body.\<close>

datatype v5_point = V5_start | V5_greeting_sent | V5_choice_read | V5_userpass_sent
  | V5_userpass_read | V5_request_sent | V5_reply_read | V5_end

record connect_op =
  op_buf :: buffer
  op_target :: target
  op_opt :: auth_options
  op_coro :: v5_point

definition connect_op_new :: "target \<Rightarrow> auth_options \<Rightarrow> connect_op" where
  "connect_op_new target_host opt =
     \<lparr>op_buf = replicate 513 0, op_target = target_host, op_opt = opt, op_coro = V5_start\<rparr>"

text \<open>The label \<open>complete\<close>: the memory is freed and the handler is called.\<close>

definition op_complete ::
    "connect_op \<Rightarrow> error_code \<Rightarrow> endpoint \<Rightarrow> (connect_op \<times> action) result" where
  "op_complete self ec ep = Inr (self\<lparr>op_buf := [], op_coro := V5_end\<rparr>, Complete ec ep)"

text \<open>The part from \<open>Send the CONNECT request\<close> to the next yield.\<close>

definition op_send_request :: "connect_op \<Rightarrow> (connect_op \<times> action) result" where
  "op_send_request self =
     res_bind (prepare_request (op_buf self) (length (op_buf self)) (op_target self))
       (\<lambda>(buf, n).
     Inr (self\<lparr>op_buf := buf, op_coro := V5_request_sent\<rparr>, Async_write n))"

fun connect_op_resume ::
    "v5_point \<Rightarrow> connect_op \<Rightarrow> error_code \<Rightarrow> nat \<Rightarrow> (connect_op \<times> action) result" where
  "connect_op_resume V5_start self ec n =
     res_bind (prepare_greeting (op_buf self) (length (op_buf self)) (op_opt self)) (\<lambda>(buf, n).
     boost_assert (n > 2)
       (Inr (self\<lparr>op_buf := buf, op_coro := V5_greeting_sent\<rparr>, Async_write n)))"
| "connect_op_resume V5_greeting_sent self ec n =
     (if failed ec then op_complete self ec endpoint_default
      else Inr (self\<lparr>op_coro := V5_choice_read\<rparr>, Async_read 2 transfer_all))"
| "connect_op_resume V5_choice_read self ec n =
     res_bind (if \<not> failed ec \<or> ec = eof
               then validate_server_choice (op_buf self) n (op_opt self) ec else Inr ec) (\<lambda>ec.
     if failed ec then op_complete self ec endpoint_default
     else
       res_bind (get_byte (op_buf self) 1) (\<lambda>choice.
       if choice = auth_method_value Auth_userpass
       then
         res_bind (prepare_userpass_request (op_buf self) (length (op_buf self)) (op_opt self))
           (\<lambda>(buf, n).
         Inr (self\<lparr>op_buf := buf, op_coro := V5_userpass_sent\<rparr>, Async_write n))
       else op_send_request self))"
| "connect_op_resume V5_userpass_sent self ec n =
     (if failed ec then op_complete self ec endpoint_default
      else Inr (self\<lparr>op_coro := V5_userpass_read\<rparr>, Async_read 2 transfer_all))"
| "connect_op_resume V5_userpass_read self ec n =
     res_bind (validate_userpass_reply (op_buf self) n ec) (\<lambda>ec.
     if failed ec \<and> ec \<noteq> eof then op_complete self ec endpoint_default
     else op_send_request self)"
| "connect_op_resume V5_request_sent self ec n =
     (if failed ec then op_complete self ec endpoint_default
      else Inr (self\<lparr>op_coro := V5_reply_read\<rparr>, Async_read 22 read_reply_cond))"
| "connect_op_resume V5_reply_read self ec n =
     (if failed ec \<and> ec \<noteq> eof then op_complete self ec endpoint_default
      else if n \<noteq> 10 \<and> n \<noteq> 22
        then op_complete self (make_error_code Err_bad_reply_size) endpoint_default
      else res_bind (parse_reply_v5 (op_buf self) n) (\<lambda>(ep, ec). op_complete self ec ep))"
| "connect_op_resume V5_end self ec n = Inr (self, No_action)"

definition connect_op_call ::
    "connect_op \<Rightarrow> error_code \<Rightarrow> nat \<Rightarrow> (connect_op \<times> action) result" where
  "connect_op_call self ec n = connect_op_resume (op_coro self) self ec n"

section \<open>The SOCKS4 coroutine\<close>

datatype v4_point = V4_start | V4_request_sent | V4_reply_read | V4_end

record connect_v4_op =
  op4_buf :: buffer
  op4_coro :: v4_point

definition connect_v4_op_new :: "endpoint \<Rightarrow> string \<Rightarrow> connect_v4_op result" where
  "connect_v4_op_new target_host socks_user =
     (let buf = replicate (9 + length socks_user) 0 in
      res_bind (prepare_request_v4 buf (length buf) target_host socks_user) (\<lambda>(buf, n).
      boost_assert (n = length buf) (Inr \<lparr>op4_buf = buf, op4_coro = V4_start\<rparr>)))"

definition op4_complete ::
    "connect_v4_op \<Rightarrow> error_code \<Rightarrow> endpoint \<Rightarrow> (connect_v4_op \<times> action) result" where
  "op4_complete self ec ep = Inr (self\<lparr>op4_buf := [], op4_coro := V4_end\<rparr>, Complete ec ep)"

text \<open>The vector's capacity is at least its size, so its assertion follows from the size's.\<close>

fun connect_v4_op_resume ::
    "v4_point \<Rightarrow> connect_v4_op \<Rightarrow> error_code \<Rightarrow> nat \<Rightarrow> (connect_v4_op \<times> action) result" where
  "connect_v4_op_resume V4_start self ec n =
     Inr (self\<lparr>op4_coro := V4_request_sent\<rparr>, Async_write (length (op4_buf self)))"
| "connect_v4_op_resume V4_request_sent self ec n =
     (if failed ec then op4_complete self ec endpoint_default
      else boost_assert (length (op4_buf self) \<ge> 8)
        (Inr (self\<lparr>op4_coro := V4_reply_read\<rparr>, Async_read 8 transfer_all)))"
| "connect_v4_op_resume V4_reply_read self ec n =
     (if failed ec \<and> ec \<noteq> eof then op4_complete self ec endpoint_default
      else if n \<noteq> 8
        then op4_complete self (make_error_code Err_bad_reply_size) endpoint_default
      else res_bind (parse_reply_v4 (op4_buf self) n) (\<lambda>(ep, ec). op4_complete self ec ep))"
| "connect_v4_op_resume V4_end self ec n = Inr (self, No_action)"

definition connect_v4_op_call ::
    "connect_v4_op \<Rightarrow> error_code \<Rightarrow> nat \<Rightarrow> (connect_v4_op \<times> action) result" where
  "connect_v4_op_call self ec n = connect_v4_op_resume (op4_coro self) self ec n"

section \<open>The driver\<close>

text \<open>
  \<open>drive\<close> runs a coroutine over a stream: it performs the operation the last call asked for
  and calls the coroutine with the outcome.  \<open>get\<close> and \<open>put\<close> access the vector, which the
  pending read fills.  Each round uses one unit of fuel; None is a run the fuel has not
  finished, so that a completion within the fuel has to be proved.
\<close>

fun drive ::
    "('op \<Rightarrow> error_code \<Rightarrow> nat \<Rightarrow> ('op \<times> action) result) \<Rightarrow> ('op \<Rightarrow> buffer)
      \<Rightarrow> (buffer \<Rightarrow> 'op \<Rightarrow> 'op) \<Rightarrow> 's stream_ops \<Rightarrow> nat \<Rightarrow> 'op \<Rightarrow> error_code \<Rightarrow> nat \<Rightarrow> 's
      \<Rightarrow> (endpoint \<times> error_code \<times> 's) result option" where
  "drive call get put ops 0 self ec n s = None"
| "drive call get put ops (Suc fuel) self ec n s =
     (case call self ec n of
       Inl e \<Rightarrow> Some (Inl e)
     | Inr (self, Complete ec ep) \<Rightarrow> Some (Inr (ep, ec, s))
     | Inr (self, Async_write k) \<Rightarrow>
         (case const_buffer (get self) k of
           Inl e \<Rightarrow> Some (Inl e)
         | Inr bs \<Rightarrow>
             let (n, ec, s) = asio_write ops s bs
             in drive call get put ops fuel self ec n s)
     | Inr (self, Async_read k c) \<Rightarrow>
         (case read_buffer ops s (get self) k c of
           Inl e \<Rightarrow> Some (Inl e)
         | Inr (buf, n, ec, s) \<Rightarrow> drive call get put ops fuel (put buf self) ec n s)
     | Inr (self, No_action) \<Rightarrow> None)"

definition async_connect_any ::
    "nat \<Rightarrow> 's stream_ops \<Rightarrow> 's \<Rightarrow> target \<Rightarrow> auth_options
      \<Rightarrow> (endpoint \<times> error_code \<times> 's) result option" where
  "async_connect_any fuel ops s target_host opt =
     drive connect_op_call op_buf (\<lambda>buf. op_buf_update (\<lambda>_. buf)) ops fuel
       (connect_op_new target_host opt) ec_ok 0 s"

text \<open>The overload set \<open>async_connect\<close>: an endpoint, or a host name and a port.\<close>

fun async_connect ::
    "nat \<Rightarrow> 's stream_ops \<Rightarrow> 's \<Rightarrow> target \<Rightarrow> auth_options
      \<Rightarrow> (endpoint \<times> error_code \<times> 's) result option" where
  "async_connect fuel ops s (To_endpoint target_host) opt =
     async_connect_any fuel ops s (To_endpoint target_host) opt"
| "async_connect fuel ops s (To_domain app) opt =
     (let ep = \<lparr>de_domain = de_domain app, de_port = de_port app\<rparr>
      in async_connect_any fuel ops s (To_domain ep) opt)"

lemma async_connect_eq [simp]: "async_connect fuel ops s t opt = async_connect_any fuel ops s t opt"
  by (cases t) simp_all

definition async_connect_v4 ::
    "nat \<Rightarrow> 's stream_ops \<Rightarrow> 's \<Rightarrow> endpoint \<Rightarrow> string
      \<Rightarrow> (endpoint \<times> error_code \<times> 's) result option" where
  "async_connect_v4 fuel ops s target_host socks_user =
     (case connect_v4_op_new target_host socks_user of
       Inl e \<Rightarrow> Some (Inl e)
     | Inr self \<Rightarrow> drive connect_v4_op_call op4_buf (\<lambda>buf. op4_buf_update (\<lambda>_. buf)) ops fuel
         self ec_ok 0 s)"

section \<open>Every run completes\<close>

text \<open>What the driver does with the outcome of a call.\<close>

definition after_call ::
    "('op \<Rightarrow> error_code \<Rightarrow> nat \<Rightarrow> ('op \<times> action) result) \<Rightarrow> ('op \<Rightarrow> buffer)
      \<Rightarrow> (buffer \<Rightarrow> 'op \<Rightarrow> 'op) \<Rightarrow> 's stream_ops \<Rightarrow> nat \<Rightarrow> ('op \<times> action) result \<Rightarrow> 's
      \<Rightarrow> (endpoint \<times> error_code \<times> 's) result option" where
  "after_call call get put ops fuel r s =
     (case r of
       Inl e \<Rightarrow> Some (Inl e)
     | Inr (self, Complete ec ep) \<Rightarrow> Some (Inr (ep, ec, s))
     | Inr (self, Async_write k) \<Rightarrow>
         (case const_buffer (get self) k of
           Inl e \<Rightarrow> Some (Inl e)
         | Inr bs \<Rightarrow>
             let (n, ec, s) = asio_write ops s bs
             in drive call get put ops fuel self ec n s)
     | Inr (self, Async_read k c) \<Rightarrow>
         (case read_buffer ops s (get self) k c of
           Inl e \<Rightarrow> Some (Inl e)
         | Inr (buf, n, ec, s) \<Rightarrow> drive call get put ops fuel (put buf self) ec n s)
     | Inr (self, No_action) \<Rightarrow> None)"

lemma drive_Suc:
  "drive call get put ops (Suc fuel) self ec n s
    = after_call call get put ops fuel (call self ec n) s"
  by (simp add: after_call_def)

lemma after_call_simps [simp]:
  "after_call call get put ops fuel (Inl e) s = Some (Inl e)"
  "after_call call get put ops fuel (Inr (self, Complete ec ep)) s = Some (Inr (ep, ec, s))"
  "after_call call get put ops fuel (Inr (self, Async_write k)) s =
     (case const_buffer (get self) k of
       Inl e \<Rightarrow> Some (Inl e)
     | Inr bs \<Rightarrow> let (n, ec, s) = asio_write ops s bs in drive call get put ops fuel self ec n s)"
  "after_call call get put ops fuel (Inr (self, Async_read k c)) s =
     (case read_buffer ops s (get self) k c of
       Inl e \<Rightarrow> Some (Inl e)
     | Inr (buf, n, ec, s) \<Rightarrow> drive call get put ops fuel (put buf self) ec n s)"
  by (simp_all add: after_call_def)

declare drive.simps(2) [simp del]

text \<open>
  The number of calls a coroutine can still take at each point.  A coroutine whose every call
  completes, faults or moves to a lower point completes within that number of rounds.
\<close>

lemma drive_completes:
  assumes step: "\<And>self ec n self' a. 0 < rank self \<Longrightarrow> call self ec n = Inr (self', a)
      \<Longrightarrow> (\<exists>ec' ep. a = Complete ec' ep)
        \<or> ((\<exists>k. a = Async_write k) \<or> (\<exists>k c. a = Async_read k c))
          \<and> 0 < rank self' \<and> rank self' < rank self"
    and put: "\<And>buf self. rank (put buf self) = rank self"
    and "0 < rank self"
  shows "\<exists>r. \<forall>fuel \<ge> rank self. drive call get put ops fuel self ec n s = Some r"
  using assms(3)
proof (induction "rank self" arbitrary: self ec n s rule: less_induct)
  case less
  have fuel: "\<exists>r. \<forall>fuel \<ge> rank self. drive call get put ops fuel self ec n s = Some r"
    if "\<And>f. rank self \<le> Suc f \<Longrightarrow> after_call call get put ops f (call self ec n) s = Some r" for r
  proof (intro exI allI impI)
    fix fuel assume "rank self \<le> fuel"
    with less.prems obtain f where "fuel = Suc f" by (cases fuel) auto
    with that \<open>rank self \<le> fuel\<close> show "drive call get put ops fuel self ec n s = Some r"
      by (simp add: drive_Suc)
  qed
  have later: "\<exists>r. \<forall>f. rank self \<le> Suc f
      \<longrightarrow> drive call get put ops f self' ec' n' s' = Some r"
    if "0 < rank self'" "rank self' < rank self" for self' ec' n' s'
    using less.hyps [OF that(2,1), of ec' n' s'] that(2) by fastforce
  show ?case
  proof (cases "call self ec n")
    case (Inl e)
    then show ?thesis by (intro fuel) simp
  next
    case (Inr p)
    obtain self' a where p: "p = (self', a)" by (cases p)
    note call = Inr [unfolded p]
    from step [OF less.prems call] consider (finish) ec' ep where "a = Complete ec' ep"
      | (wr) k where "a = Async_write k" "0 < rank self'" "rank self' < rank self"
      | (rd) k c where "a = Async_read k c" "0 < rank self'" "rank self' < rank self" by auto
    then show ?thesis
    proof cases
      case finish
      then show ?thesis by (intro fuel) (simp add: call)
    next
      case wr
      show ?thesis
      proof (cases "const_buffer (get self') k")
        case (Inl e)
        then show ?thesis by (intro fuel) (simp add: call wr)
      next
        case (Inr bs)
        obtain m ec' s' where w: "asio_write ops s bs = (m, ec', s')" by (metis prod_cases3)
        from later [OF wr(2,3), of ec' m s'] obtain r
          where "\<forall>f. rank self \<le> Suc f \<longrightarrow> drive call get put ops f self' ec' m s' = Some r" by blast
        then show ?thesis by (intro fuel [of r]) (simp add: call wr Inr w)
      qed
    next
      case rd
      show ?thesis
      proof (cases "read_buffer ops s (get self') k c")
        case (Inl e)
        then show ?thesis by (intro fuel) (simp add: call rd)
      next
        case (Inr q)
        obtain buf m ec' s' where q: "q = (buf, m, ec', s')" by (metis prod_cases4)
        from later [of "put buf self'" ec' m s'] rd obtain r
          where "\<forall>f. rank self \<le> Suc f \<longrightarrow> drive call get put ops f (put buf self') ec' m s' = Some r"
          by (auto simp: put)
        then show ?thesis by (intro fuel [of r]) (simp add: call rd Inr q)
      qed
    qed
  qed
qed

fun v5_rank :: "v5_point \<Rightarrow> nat" where
  "v5_rank V5_start = 7"
| "v5_rank V5_greeting_sent = 6"
| "v5_rank V5_choice_read = 5"
| "v5_rank V5_userpass_sent = 4"
| "v5_rank V5_userpass_read = 3"
| "v5_rank V5_request_sent = 2"
| "v5_rank V5_reply_read = 1"
| "v5_rank V5_end = 0"

lemma op_send_request_InrD:
  "op_send_request self = Inr (self', a) \<Longrightarrow> (\<exists>k. a = Async_write k) \<and> op_coro self' = V5_request_sent"
  by (auto simp: op_send_request_def res_bind_eq_Inr)

lemma connect_op_call_rank:
  assumes "0 < v5_rank (op_coro self)" and "connect_op_call self ec n = Inr (self', a)"
  shows "(\<exists>ec' ep. a = Complete ec' ep)
    \<or> ((\<exists>k. a = Async_write k) \<or> (\<exists>k c. a = Async_read k c))
      \<and> 0 < v5_rank (op_coro self') \<and> v5_rank (op_coro self') < v5_rank (op_coro self)"
  using assms
  by (cases "op_coro self")
    (auto simp: connect_op_call_def op_complete_def res_bind_eq_Inr boost_assert_def
      split: if_splits dest!: op_send_request_InrD)

lemma async_connect_any_completes:
  "\<exists>r. \<forall>fuel \<ge> 7. async_connect_any fuel ops s t opt = Some r"
  using drive_completes [of "\<lambda>self. v5_rank (op_coro self)" connect_op_call
      "\<lambda>buf. op_buf_update (\<lambda>_. buf)" "connect_op_new t opt" op_buf ops ec_ok 0 s]
    connect_op_call_rank
  by (auto simp: async_connect_any_def connect_op_new_def)

section \<open>The coroutines and the blocking functions\<close>

abbreviation drive_v5 where
  "drive_v5 \<equiv> drive connect_op_call op_buf (\<lambda>buf. op_buf_update (\<lambda>_. buf))"

abbreviation after_v5 where
  "after_v5 \<equiv> after_call connect_op_call op_buf (\<lambda>buf. op_buf_update (\<lambda>_. buf))"

abbreviation drive_v4 where
  "drive_v4 \<equiv> drive connect_v4_op_call op4_buf (\<lambda>buf. op4_buf_update (\<lambda>_. buf))"

text \<open>The blocking functions from the request on.\<close>

definition connect_tail ::
    "'s stream_ops \<Rightarrow> 's \<Rightarrow> buffer \<Rightarrow> target \<Rightarrow> (endpoint \<times> error_code \<times> 's) result" where
  "connect_tail ops s buf t =
     res_bind (write_connect_request ops s buf 513 t) (\<lambda>(_, buf, ec, s).
     if failed ec then Inr (endpoint_default, ec, s)
     else res_bind (read_connect_reply ops s buf 513) (\<lambda>(ep, _, ec, s). Inr (ep, ec, s)))"

lemma op_call_at [simp]:
  "op_coro self = p \<Longrightarrow> connect_op_call self ec n = connect_op_resume p self ec n"
  by (simp add: connect_op_call_def)

lemma res_bind_case: "res_bind m f = (case m of Inl e \<Rightarrow> Inl e | Inr x \<Rightarrow> f x)"
  by (cases m) simp_all

lemma drive_request_sent:
  "drive_v5 ops (Suc (Suc f)) (self\<lparr>op_coro := V5_request_sent\<rparr>) ec n s
    = Some (if failed ec then Inr (endpoint_default, ec, s)
        else res_bind (read_connect_reply ops s (op_buf self) 513) (\<lambda>(ep, _, ec, s). Inr (ep, ec, s)))"
  by (auto simp: drive_Suc op_complete_def read_connect_reply_def res_bind_case
      split: sum.splits prod.splits)

lemma after_send_request:
  assumes "length (op_buf self) = 513"
  shows "after_v5 ops (Suc (Suc f)) (op_send_request self) s
    = Some (connect_tail ops s (op_buf self) (op_target self))"
  by (auto simp: op_send_request_def connect_tail_def write_connect_request_def assms
      write_buffer_def drive_request_sent res_bind_case split: sum.splits prod.splits)

text \<open>
  A stream whose reads of two bytes fail by the end of the stream only, before the second
  byte.  This is what the two treatments of the username/password reply do not tell apart.
\<close>

definition orderly_reads :: "'s stream_ops \<Rightarrow> ('s \<Rightarrow> bool) \<Rightarrow> bool" where
  "orderly_reads ops good \<longleftrightarrow> (\<forall>s buf buf' n ec s'. good s \<longrightarrow> 2 \<le> length buf
     \<longrightarrow> asio_read ops s buf 2 transfer_all = (buf', n, ec, s') \<longrightarrow> failed ec
     \<longrightarrow> n < 2 \<and> ec = eof)"

context sync_stream begin

lemma after_userpass_request:
  assumes "inv s" and "length (op_buf self) = 513" and "orderly_reads ops inv"
  shows "after_v5 ops (Suc (Suc (Suc (Suc f))))
      (res_bind (prepare_userpass_request (op_buf self) 513 (op_opt self)) (\<lambda>(buf, n).
         Inr (self\<lparr>op_buf := buf, op_coro := V5_userpass_sent\<rparr>, Async_write n))) s
    = Some (res_bind (authenticate_userpass ops s (op_buf self) 513 (op_opt self))
        (\<lambda>(_, buf, ec, s). if failed ec then Inr (endpoint_default, ec, s)
           else connect_tail ops s buf (op_target self)))"
proof (cases "prepare_userpass_request (op_buf self) 513 (op_opt self)")
  case (Inl e)
  then show ?thesis by (simp add: authenticate_userpass_def)
next
  case (Inr p)
  let ?msg = "userpass_bytes (op_opt self)"
  let ?buf = "overlay ?msg (op_buf self)"
  from Inr have p: "p = (?buf, length ?msg)" and msg: "length ?msg \<le> 513"
    using assms(2) by (auto simp: prepare_userpass_request_eq split: if_splits)
  then have len: "length ?buf = 513" using assms(2) by (simp add: length_overlay)
  obtain k ec1 s1 where w: "asio_write ops s ?msg = (k, ec1, s1)" by (metis prod_cases3)
  have wb: "write_buffer ops s ?buf (length ?msg) = Inr (ec1, s1)"
    using msg len by (simp add: write_buffer_def w)
  obtain buf2 n ec2 s2 where r: "asio_read ops s1 ?buf 2 transfer_all = (buf2, n, ec2, s2)"
    by (metis prod_cases4)
  have rb: "read_buffer ops s1 ?buf 2 transfer_all = Inr (buf2, n, ec2, s2)"
    using len by (simp add: read_buffer_def r)
  have two: "2 \<le> length ?buf" using len by simp
  note inv1 = write_inv [OF assms(1) w]
  note facts = read_facts [OF inv1 two stops_transfer_all r]
  have len2: "length buf2 = 513" "n \<le> length buf2" using facts len by simp_all
  have early: "n < 2 \<and> ec2 = eof" if "failed ec2"
    using assms(3) inv1 two r that unfolding orderly_reads_def by blast
  have full: "n = 2" if "\<not> failed ec2" using read_exact [OF inv1 two r that] .
  show ?thesis
  proof (cases "failed ec1")
    case True
    with w show ?thesis
      using msg len by (simp add: Inr p authenticate_userpass_def wb drive_Suc op_complete_def)
  next
    case ok1: False
    show ?thesis
    proof (cases "failed ec2")
      case True
      with early ok1 len2 msg len show ?thesis
        by (simp add: Inr p authenticate_userpass_def wb rb w drive_Suc op_complete_def
            validate_userpass_reply_eq)
    next
      case False
      with full ok1 len2 msg len show ?thesis
        by (auto simp: Inr p authenticate_userpass_def wb rb w drive_Suc op_complete_def
            validate_userpass_reply_eq after_send_request)
    qed
  qed
qed

end

lemma res_post_any_bind:
  "(\<And>x. res_post (\<lambda>_. True) Q (f x)) \<Longrightarrow> res_post (\<lambda>_. True) Q (res_bind m f)"
  by (cases m) simp_all

lemma parse_reply_v5_failed_default:
  assumes "parse_reply_v5 buf n = Inr (ep, ec)" and "failed ec"
  shows "ep = endpoint_default"
proof -
  have "res_post (\<lambda>_. True) (\<lambda>(ep, ec). failed ec \<longrightarrow> ep = endpoint_default) (parse_reply_v5 buf n)"
    unfolding parse_reply_v5_def boost_assert_def Let_def
    by (auto intro!: res_post_any_bind split: if_splits address_type.splits)
  from res_post_InrD [OF this assms(1)] assms(2) show ?thesis by simp
qed

lemma connect_to_tail:
  "connect_to ops s buf t opt =
    res_bind (authenticate ops s buf 513 opt) (\<lambda>(_, buf, ec, s).
      if failed ec then Inr (endpoint_default, ec, s) else connect_tail ops s buf t)"
proof -
  have default: "ep = endpoint_default"
    if "read_connect_reply ops s buf k = Inr (ep, buf', ec, s')" "failed ec" for s buf k ep buf' ec s'
    using that
    by (auto simp: read_connect_reply_def res_bind_eq_Inr dest: parse_reply_v5_failed_default
        split: if_splits)
  have "res_bind (read_connect_reply ops s buf 513) (\<lambda>(ep, _, ec, s).
      if failed ec \<and> b then Inr (endpoint_default, ec, s) else Inr (ep, ec, s))
    = res_bind (read_connect_reply ops s buf 513) (\<lambda>(ep, _, ec, s). Inr (ep, ec, s))" for s buf b
    by (cases "read_connect_reply ops s buf 513") (auto dest: default)
  then show ?thesis by (simp add: connect_to_eq connect_tail_def cong: if_cong)
qed

context sync_stream begin

lemma after_choice:
  assumes "inv s" and "length (op_buf self) = 513" and "length buf2 = 513" "n \<le> 2"
    and "op_coro self = V5_choice_read" "op_opt self = opt"
    and "\<not> is_userpass opt \<or> orderly_reads ops inv"
  shows "drive_v5 ops (Suc (Suc (Suc (Suc (Suc f))))) (self\<lparr>op_buf := buf2\<rparr>) ec n s
    = Some (res_bind (if \<not> failed ec \<or> ec = eof then validate_server_choice buf2 n opt ec else Inr ec)
        (\<lambda>ec. res_bind (get_byte buf2 1) (\<lambda>choice.
          res_bind (if failed ec then Inr (choice, buf2, ec, s)
             else if choice = auth_method_value Auth_userpass
               then authenticate_userpass ops s buf2 513 opt else Inr (choice, buf2, ec, s))
            (\<lambda>(_, buf, ec, s). if failed ec then Inr (endpoint_default, ec, s)
               else connect_tail ops s buf (op_target self)))))"
proof -
  obtain ec' where v: "(if \<not> failed ec \<or> ec = eof then validate_server_choice buf2 n opt ec
      else Inr ec) = Inr ec'"
    using assms(3,4) by (cases "\<not> failed ec \<or> ec = eof") (auto simp: validate_server_choice_eq)
  have g: "get_byte buf2 1 = Inr (buf2 ! 1)" using assms(3) by simp
  have up: "orderly_reads ops inv" if "\<not> failed ec'" "buf2 ! 1 = 2"
  proof -
    have "n \<le> length buf2" using assms(3,4) by simp
    from server_choice_checked [OF this assms(4), of "\<lambda>_. True" opt ec] v that
    have "2 \<in> set (greeting_methods opt)" by simp
    with assms(7) show ?thesis by (auto simp: greeting_methods_def split: if_splits)
  qed
  let ?self = "self\<lparr>op_buf := buf2\<rparr>"
  have coro: "op_coro ?self = V5_choice_read" and v': "(if \<not> failed ec \<or> ec = eof
      then validate_server_choice (op_buf ?self) n (op_opt ?self) ec else Inr ec) = Inr ec'"
    using assms(5,6) v by (simp_all cong: if_cong split del: if_split)
  show ?thesis
    unfolding drive_Suc op_call_at [OF coro] connect_op_resume.simps v v' res_bind.simps g
    using after_userpass_request [of s ?self f] after_send_request [of ?self ops _ s] assms(1,3,5,6) up
    by (simp add: op_complete_def cong: if_cong)
qed

lemma async_connect_any_eq:
  assumes "inv s" and "\<not> is_userpass opt \<or> orderly_reads ops inv"
  shows "async_connect_any 7 ops s t opt = Some (connect_to ops s (replicate 513 0) t opt)"
proof -
  let ?msg = "greeting_bytes opt" and ?zeros = "replicate 513 0 :: buffer"
  let ?buf = "overlay ?msg ?zeros"
  have msg: "2 < length ?msg" "length ?msg \<le> 513" by (simp_all add: length_greeting_bytes)
  then have len: "length ?buf = 513" by (simp add: length_overlay)
  have prep: "prepare_greeting ?zeros 513 opt = Inr (?buf, length ?msg)"
    using msg by (simp add: prepare_greeting_eq)
  obtain k ec1 s1 where w: "asio_write ops s ?msg = (k, ec1, s1)" by (metis prod_cases3)
  have wb: "write_buffer ops s ?buf (length ?msg) = Inr (ec1, s1)"
    using msg len by (simp add: write_buffer_def w)
  obtain buf2 n ec2 s2 where r: "asio_read ops s1 ?buf 2 transfer_all = (buf2, n, ec2, s2)"
    by (metis prod_cases4)
  have rb: "read_buffer ops s1 ?buf 2 transfer_all = Inr (buf2, n, ec2, s2)"
    using len by (simp add: read_buffer_def r)
  have two: "2 \<le> length ?buf" using len by simp
  note facts = read_facts [OF write_inv [OF assms(1) w] two stops_transfer_all r]
  define self where "self = \<lparr>op_buf = ?buf, op_target = t, op_opt = opt, op_coro = V5_choice_read\<rparr>"
  have target: "op_target self = t" by (simp add: self_def)
  have seven: "(7 :: nat) = Suc (Suc (Suc (Suc (Suc (Suc (Suc 0))))))" by simp
  have choice: "drive_v5 ops (Suc (Suc (Suc (Suc (Suc 0))))) (self\<lparr>op_buf := buf2\<rparr>) ec2 n s2
    = Some (res_bind (if \<not> failed ec2 \<or> ec2 = eof then validate_server_choice buf2 n opt ec2 else Inr ec2)
        (\<lambda>ec. res_bind (get_byte buf2 1) (\<lambda>choice.
          res_bind (if failed ec then Inr (choice, buf2, ec, s2)
             else if choice = auth_method_value Auth_userpass
               then authenticate_userpass ops s2 buf2 513 opt else Inr (choice, buf2, ec, s2))
            (\<lambda>(_, buf, ec, s). if failed ec then Inr (endpoint_default, ec, s)
               else connect_tail ops s buf t))))"
    unfolding target [symmetric]
    using facts len assms(2) by (intro after_choice) (simp_all add: self_def)
  show ?thesis
  proof (cases "failed ec1")
    case True
    then show ?thesis
      using msg len
      by (simp add: async_connect_any_def connect_op_new_def seven drive_Suc prep w
          op_complete_def connect_to_tail authenticate_def wb)
  next
    case False
    then show ?thesis
      using msg len choice
      by (simp add: async_connect_any_def connect_op_new_def seven drive_Suc [of _ _ _ _ "Suc (Suc (Suc (Suc (Suc (Suc 0)))))"]
          drive_Suc [of _ _ _ _ "Suc (Suc (Suc (Suc (Suc 0))))"] prep w rb self_def
          connect_to_tail authenticate_def wb res_bind_assoc)
  qed
qed

end

lemma async_connect_any_enough:
  assumes "async_connect_any 7 ops s t opt = Some r"
  shows "async_connect_any (7 + k) ops s t opt = Some r"
  using assms async_connect_any_completes [of ops s t opt] by fastforce

lemma prepare_request_v4_lengthD:
  "prepare_request_v4 (replicate (9 + length u) 0) (9 + length u) t u = Inr (buf, n)
    \<Longrightarrow> length buf = 9 + length u \<and> n = 9 + length u"
  by (auto simp: prepare_request_v4_vector length_connect_request_v4_bytes split: address.splits)

lemma drive_v4_eq:
  assumes "9 \<le> length buf"
  shows "drive_v4 ops (Suc (Suc (Suc k))) \<lparr>op4_buf = buf, op4_coro = V4_start\<rparr> ec n s
    = Some (res_bind (write_buffer ops s buf (length buf)) (\<lambda>(ec, s).
      if failed ec then Inr (endpoint_default, ec, s)
      else
        res_bind (read_buffer ops s buf 8 transfer_all) (\<lambda>(buffer, n, ec, s).
        if failed ec \<and> ec \<noteq> eof then Inr (endpoint_default, ec, s)
        else if n \<noteq> 8
          then Inr (endpoint_default, make_error_code Err_bad_reply_size, s)
        else res_bind (parse_reply_v4 buffer n) (\<lambda>(ep, ec). Inr (ep, ec, s)))))"
  using assms
  by (auto simp: drive_Suc connect_v4_op_call_def op4_complete_def write_buffer_def res_bind_case
      split: sum.splits prod.splits)

lemma async_connect_v4_eq:
  "async_connect_v4 (Suc (Suc (Suc k))) ops s t u = Some (connect_v4 ops s t u)"
proof (cases "prepare_request_v4 (replicate (9 + length u) 0) (9 + length u) t u")
  case (Inl e)
  then show ?thesis
    by (simp add: async_connect_v4_def connect_v4_op_new_def connect_v4_def del: replicate.simps)
next
  case (Inr p)
  obtain buf n where p: "p = (buf, n)" by (cases p)
  from prepare_request_v4_lengthD [OF Inr [unfolded p]] have len: "n = length buf" "9 \<le> length buf"
    by simp_all
  show ?thesis
    unfolding async_connect_v4_def connect_v4_op_new_def connect_v4_def Let_def length_replicate
      Inr p res_bind.simps prod.case boost_assert_True [OF len(1)] sum.case
    unfolding drive_v4_eq [OF len(2)] len(1) ..
qed

lemma orderly_quiet: "orderly_reads ts_ops ts_quiet"
proof -
  have "n < 2 \<and> ec = eof"
    if q: "ts_quiet s" and r: "asio_read ts_ops s buf 2 transfer_all = (buf', n, ec, s')"
      and f: "failed ec" for s buf buf' n ec s'
  proof (cases "2 \<le> length (ts_pending s)")
    case True
    with r f ts_read_quiet [OF q, of 2 transfer_all buf] show ?thesis
      by (simp add: transfer_all_def)
  next
    case False
    with r ts_read_short [OF q, of transfer_all buf 2] show ?thesis
      by (auto simp: transfer_all_def)
  qed
  then show ?thesis unfolding orderly_reads_def by blast
qed

section \<open>Properties\<close>

text \<open>
  C23 (async_connect_completes).  Whatever the stream's operations return, a \<open>connect_op\<close>
  that has been started reaches its end after at most seven calls: every call either
  completes, fails an assertion, or yields at a later point, so no run hangs inside the
  coroutine, calls its handler twice or resumes a finished one.
\<close>
theorem async_connect_completes:
  "\<exists>r. \<forall>k. async_connect_any (7 + k) ops s t opt = Some r"
  using async_connect_any_completes [of ops s t opt] by auto

text \<open>
  C15 (async_connect_refines).  Over a stream that keeps the documented contract, and either
  without credentials or when reads of two bytes fail by the end of the stream only, the
  asynchronous connect delivers the endpoint, the code and the stream that the blocking
  \<open>connect\<close> returns for the same target, options and zeroed buffer, error paths included.
\<close>
theorem async_connect_refines:
  assumes "sync_stream ops good sent received" and "good s"
    and "\<not> is_userpass opt \<or> orderly_reads ops good"
  shows "async_connect_any (7 + k) ops s t opt = Some (connect_to ops s (replicate 513 0) t opt)"
  using sync_stream.async_connect_any_eq [OF assms] by (rule async_connect_any_enough)

theorem async_connect_refines_witness:
  "async_connect_any 9 ts_ops (scripted [5, 2, 1, 1]) (To_endpoint endpoint_default)
      (auth_userpass ''u'' ''p'')
    = Some (connect_to ts_ops (scripted [5, 2, 1, 1]) (replicate 513 0)
        (To_endpoint endpoint_default) (auth_userpass ''u'' ''p''))"
proof -
  have "ts_quiet (scripted [5, 2, 1, 1])" by (simp add: size_max_def)
  from async_connect_refines [OF ts_quiet_stream this disjI2 [OF orderly_quiet], of 2] show ?thesis
    by simp
qed

text \<open>
  C26 (async_v4_refines).  Over any stream at all, the asynchronous SOCKS4 connect delivers
  within three calls exactly what \<open>connect_v4\<close> returns, faults included.
\<close>
theorem async_v4_refines:
  "async_connect_v4 (3 + k) ops s t u = Some (connect_v4 ops s t u)"
  using async_connect_v4_eq [of k ops s t u] by (simp add: eval_nat_numeral)

end
