(* ===== verification/Handshake.thy ===== *)
theory Handshake
  imports Server_Client Connect_Async
begin

text \<open>
  The clients and the server together: the runs of a connection of the server that reads the
  client's greeting and request, without authentication, connects to the target or fails to, and
  grants or refuses the request; and the clients over the bytes the server sends in them.
  Without authentication only: the server never ends the read of a client's credentials
  (\<open>server_userpass_never_completes\<close>).
\<close>

section \<open>The handshake\<close>

text \<open>The bytes of the client are in the two reads; \<open>ep\<close> is the local endpoint of the target socket.\<close>

fun resolve_outcome :: "target \<Rightarrow> endpoint list \<Rightarrow> (op \<times> outcome) list" where
  "resolve_outcome (To_endpoint e) eps = []"
| "resolve_outcome (To_domain d) eps =
     [(Resolve (de_domain d) (to_string (de_port d)), Resolve_done eps ec_ok)]"

definition opening_ops :: "target \<Rightarrow> endpoint list \<Rightarrow> (op \<times> outcome) list" where
  "opening_ops t eps =
     [(Read_greeting, Read_done (overlay (greeting_bytes auth_none) (replicate 258 0)) 3 ec_ok),
      (Write_choice, Write_done 2 ec_ok),
      (Read_request, Read_done (overlay (connect_request_bytes t) (vec_resize 263 [5, 0]))
         (length (connect_request_bytes t)) ec_ok)]
     @ resolve_outcome t eps"

definition handshake :: "target \<Rightarrow> endpoint list \<Rightarrow> endpoint \<Rightarrow> (op \<times> outcome) list" where
  "handshake t eps ep = opening_ops t eps
     @ [(Connect_target, Connect_done (Some ep) ec_ok),
        (Write_reply, Write_done (length (connect_reply_bytes 0 ep)) ec_ok)]"

text \<open>The target's socket was opened and could not be connected.\<close>

definition refusal :: "target \<Rightarrow> endpoint list \<Rightarrow> endpoint \<Rightarrow> error_code \<Rightarrow> (op \<times> outcome) list" where
  "refusal t eps ep ec = opening_ops t eps
     @ [(Connect_target, Connect_done (Some ep) ec), (Write_reply, Write_done 10 ec_ok)]"

fun target_endpoint :: "target \<Rightarrow> endpoint list \<Rightarrow> endpoint" where
  "target_endpoint (To_endpoint e) eps = e"
| "target_endpoint (To_domain d) eps = hd eps"

definition opening_end :: "target \<Rightarrow> endpoint list \<Rightarrow> server_state" where
  "opening_end t eps =
     \<lparr>s_conn = connection_new\<lparr>c_buffer := connect_request_bytes t, c_target := target_endpoint t eps\<rparr>,
      s_ops = [Connect_target], s_sent = [5, 0]\<rparr>"

definition handshake_end :: "target \<Rightarrow> endpoint list \<Rightarrow> endpoint \<Rightarrow> server_state" where
  "handshake_end t eps ep =
     \<lparr>s_conn = connection_new\<lparr>c_buffer := vec_resize 1024 (connect_reply_bytes 0 ep),
        c_target_buffer := vec_resize 1024 [], c_target := target_endpoint t eps,
        c_target_local := Some ep\<rparr>,
      s_ops = [Read_client, Read_target], s_sent = [5, 0] @ connect_reply_bytes 0 ep\<rparr>"

lemma greeting_completes:
  shows "allowed Read_greeting (Read_done (overlay (greeting_bytes auth_none) (replicate 258 0)) 3 ec_ok)
      connection_new"
    and "handle Read_greeting (Read_done (overlay (greeting_bytes auth_none) (replicate 258 0)) 3 ec_ok)
      connection_new = Inr (connection_new\<lparr>c_buffer := [5, 0]\<rparr>, [Write_choice])"
proof -
  have len: "length (greeting_bytes auth_none) = 3" by (simp add: length_greeting_bytes)
  have new: "c_buffer connection_new = replicate 258 0"
    "connection_new\<lparr>c_server_choice := 0\<rparr> = connection_new" by (simp_all add: connection_new_def)
  show "allowed Read_greeting (Read_done (overlay (greeting_bytes auth_none) (replicate 258 0)) 3 ec_ok)
      connection_new"
    using greeting_cond_prefix [of 3 auth_none] len
    by (simp add: read_done_def length_overlay overlay_def new)
  show "handle Read_greeting (Read_done (overlay (greeting_bytes auth_none) (replicate 258 0)) 3 ec_ok)
      connection_new = Inr (connection_new\<lparr>c_buffer := [5, 0]\<rparr>, [Write_choice])"
    using on_greeting_bytes [of "replicate 258 0" auth_none connection_new] len
    by (simp add: new)
qed

lemma request_completes:
  assumes "\<And>d. t = To_domain d \<Longrightarrow> length (de_domain d) \<le> 255"
    and "length old = 263" and "c_buffer c = old" and "c_target_local c = None"
    and "res = Read_done (overlay (connect_request_bytes t) old) (length (connect_request_bytes t)) ec_ok"
  shows "allowed Read_request res c"
    and "handle Read_request res c = Inr (start_target t (c\<lparr>c_buffer := connect_request_bytes t\<rparr>))"
proof -
  let ?msg = "connect_request_bytes t"
  have long: "5 \<le> length ?msg" "length ?msg \<le> 263"
    using assms(1)
    by (cases t; simp add: length_connect_request_bytes dst_addr_size_endpoint_def dst_addr_size_domain_def)+
  show "allowed Read_request res c"
    using request_cond_prefix [of t "length ?msg" old] assms long
    by (auto simp: read_done_def length_overlay overlay_def)
  have "vec_resize (length ?msg) (overlay ?msg old) = ?msg"
    using assms(2) long by (simp add: length_overlay)
  moreover have "?msg \<noteq> []" "?msg \<noteq> [5, 1, 0, 3]" using long by auto
  ultimately show "handle Read_request res c = Inr (start_target t (c\<lparr>c_buffer := ?msg\<rparr>))"
    using parse_socks_connect_eq [of "c\<lparr>c_buffer := ?msg\<rparr>"] decode_request_bytes [OF assms(1)] assms(4,5)
    by (simp add: on_request_def)
qed

lemma grant_run:
  assumes "c_target_local c = None" and "c_target_buffer c = []" and "c_buffer c = buf"
  shows "server_run \<lparr>s_conn = c, s_ops = [Connect_target], s_sent = out\<rparr>
    [(Connect_target, Connect_done (Some ep) ec_ok),
     (Write_reply, Write_done (length (connect_reply_bytes 0 ep)) ec_ok)]
    \<lparr>s_conn = c\<lparr>c_buffer := vec_resize 1024 (connect_reply_bytes 0 ep),
        c_target_buffer := vec_resize 1024 [], c_target_local := Some ep\<rparr>,
     s_ops = [Read_client, Read_target], s_sent = out @ connect_reply_bytes 0 ep\<rparr>"
proof -
  let ?r = "connect_reply_bytes 0 ep"
  let ?c = "c\<lparr>c_target_local := Some ep, c_buffer := ?r\<rparr>"
  let ?relay = "c\<lparr>c_buffer := vec_resize 1024 ?r, c_target_buffer := vec_resize 1024 [],
    c_target_local := Some ep\<rparr>"
  have rep: "get_byte ?r 1 = Inr 0"
    by (simp add: connect_reply_bytes_def)
  have "handle Write_reply (Write_done (length ?r) ec_ok) ?c
      = Inr (?relay, [Read_client, Read_target])"
    using rep assms(2)
    by (cases c) (simp add: on_reply_written_def do_relay_def do_relay_from_client_def do_relay_from_target_def)
  then have "server_run \<lparr>s_conn = ?c, s_ops = [Write_reply], s_sent = out\<rparr>
      [(Write_reply, Write_done (length ?r) ec_ok)]
      \<lparr>s_conn = ?relay, s_ops = [Read_client, Read_target], s_sent = out @ ?r\<rparr>"
    by (rule server_run_single [rotated]) (simp_all add: write_done_def server_run.stay)
  then show ?thesis
    by (intro server_run_single [of Connect_target _ _ ?c "[Write_reply]"])
      (simp_all add: on_connected_def do_connect_reply_open)
qed

lemma opening_run:
  assumes "\<And>d. t = To_domain d \<Longrightarrow> length (de_domain d) \<le> 255 \<and> eps \<noteq> []"
  shows "server_run server_start (opening_ops t eps) (opening_end t eps)"
proof -
  let ?old = "vec_resize 263 [5, 0] :: buffer" and ?msg = "connect_request_bytes t"
  let ?c1 = "connection_new\<lparr>c_buffer := [5, 0]\<rparr>" and ?c2 = "connection_new\<lparr>c_buffer := ?old\<rparr>"
  let ?c3 = "connection_new\<lparr>c_buffer := ?msg\<rparr>"
  let ?read = "Read_done (overlay ?msg ?old) (length ?msg) ec_ok"
  have new: "c_server_choice connection_new = 0" "c_target_local connection_new = None"
    by (simp_all add: connection_new_def)
  have start: "server_run \<lparr>s_conn = fst (start_target t ?c3), s_ops = snd (start_target t ?c3),
      s_sent = [5, 0]\<rparr> (resolve_outcome t eps) (opening_end t eps)"
  proof (cases t)
    case (To_endpoint e)
    then show ?thesis by (simp add: opening_end_def server_run.stay)
  next
    case (To_domain d)
    then obtain e es where eps: "eps = e # es" using assms by (cases eps) auto
    have "server_run \<lparr>s_conn = ?c3\<lparr>c_target := e\<rparr>, s_ops = [Connect_target], s_sent = [5, 0]\<rparr> []
        (opening_end t eps)" by (simp add: opening_end_def To_domain eps server_run.stay)
    then show ?thesis
      unfolding To_domain eps start_target.simps resolve_outcome.simps fst_conv snd_conv
      by (intro server_run_single [of "Resolve (de_domain d) (to_string (de_port d))" _ _
            "?c3\<lparr>c_target := e\<rparr>" "[Connect_target]"])
        (simp_all add: on_resolved_def do_target_connect_def To_domain)
  qed
  have request: "server_run \<lparr>s_conn = ?c2, s_ops = [Read_request], s_sent = [5, 0]\<rparr>
      ((Read_request, ?read) # resolve_outcome t eps) (opening_end t eps)"
  proof (rule server_run_single)
    note req = request_completes [of t ?old ?c2, OF _ length_vec_resize _ _ refl]
    show "allowed Read_request ?read ?c2" using req(1) assms new by simp
    show "handle Read_request ?read ?c2 = Inr (fst (start_target t ?c3), snd (start_target t ?c3))"
      using req(2) assms new by simp
  qed (use start in simp)
  have choice: "server_run \<lparr>s_conn = ?c1, s_ops = [Write_choice], s_sent = []\<rparr>
      ((Write_choice, Write_done 2 ec_ok) # (Read_request, ?read) # resolve_outcome t eps)
      (opening_end t eps)"
    by (rule server_run_single [of _ _ _ ?c2 "[Read_request]"])
      (use request new in \<open>simp_all add: write_done_def on_choice_written_def do_read_connect_request_def\<close>)
  show ?thesis
    unfolding server_start_def opening_ops_def append.simps
    by (rule server_run_single [OF greeting_completes]) (use choice in simp)
qed

lemma handshake_run:
  assumes "\<And>d. t = To_domain d \<Longrightarrow> length (de_domain d) \<le> 255 \<and> eps \<noteq> []"
  shows "server_run server_start (handshake t eps ep) (handshake_end t eps ep)"
proof -
  have "server_run (opening_end t eps)
      [(Connect_target, Connect_done (Some ep) ec_ok),
       (Write_reply, Write_done (length (connect_reply_bytes 0 ep)) ec_ok)] (handshake_end t eps ep)"
    using grant_run [of "s_conn (opening_end t eps)" _ "[5, 0]" ep]
    by (simp add: opening_end_def handshake_end_def connection_new_def)
  with opening_run [OF assms] show ?thesis
    unfolding handshake_def by (rule server_run_append)
qed

text \<open>The server's answer to a target it cannot reach: code 4, whatever the reason, and the end.\<close>

lemma refusal_run:
  assumes "\<And>d. t = To_domain d \<Longrightarrow> length (de_domain d) \<le> 255 \<and> eps \<noteq> []" and "failed ec"
  shows "\<exists>S. server_run server_start (refusal t eps ep ec) S \<and> s_ops S = [] \<and> c_closed (s_conn S)
    \<and> s_sent S = [5, 0] @ connect_reply_bytes 4 endpoint_default"
proof -
  let ?r = "connect_reply_bytes 4 endpoint_default" and ?c = "s_conn (opening_end t eps)"
  let ?c1 = "(fail ec ''Cannot connect to target'' (?c\<lparr>c_target_local := Some ep\<rparr>))\<lparr>c_buffer := ?r\<rparr>"
  let ?S = "\<lparr>s_conn = ?c1\<lparr>c_closed := True\<rparr>, s_ops = [], s_sent = [5, 0] @ ?r\<rparr>"
  have len: "length ?r = 10" by (simp add: length_connect_reply_bytes)
  have rep: "get_byte ?r 1 = Inr 4" by (simp add: connect_reply_bytes_def)
  have "handle Write_reply (Write_done 10 ec_ok) ?c1 = Inr (?c1\<lparr>c_closed := True\<rparr>, [])"
    using rep by (simp add: on_reply_written_def)
  then have "server_run \<lparr>s_conn = ?c1, s_ops = [Write_reply], s_sent = [5, 0]\<rparr>
      [(Write_reply, Write_done 10 ec_ok)] ?S"
    by (rule server_run_single [rotated]) (simp_all add: write_done_def len server_run.stay)
  then have "server_run (opening_end t eps)
      [(Connect_target, Connect_done (Some ep) ec), (Write_reply, Write_done 10 ec_ok)] ?S"
    unfolding opening_end_def
    by (intro server_run_single [of Connect_target _ _ ?c1 "[Write_reply]"])
      (simp_all add: on_connected_def refuse_def fail_def do_connect_reply_open opening_end_def assms(2))
  from server_run_append [OF opening_run [OF assms(1)] this] show ?thesis
    by (intro exI [of _ ?S]) (simp add: refusal_def)
qed

text \<open>Both clients, over a server that picks no authentication and sends one reply.\<close>

lemma clients_of_reply:
  assumes "length (connect_request_bytes t) \<le> 513" and "script = [5, 0] @ connect_reply_bytes rep ep"
  shows "\<exists>s'. connect_to ts_ops (scripted script) (replicate 513 0) t auth_none
      = Inr (fst (reply_v5 (connect_reply_bytes rep ep)), snd (reply_v5 (connect_reply_bytes rep ep)), s')
    \<and> async_connect (7 + n) ts_ops (scripted script) t auth_none
      = Some (Inr (fst (reply_v5 (connect_reply_bytes rep ep)), snd (reply_v5 (connect_reply_bytes rep ep)), s'))
    \<and> ts_in s' = greeting_bytes auth_none @ connect_request_bytes t \<and> ts_pending s' = []"
proof -
  let ?r = "connect_reply_bytes rep ep"
  have len: "length ?r \<le> 22" by (simp add: length_connect_reply_bytes)
  then have quiet: "ts_quiet (scripted script)" by (simp add: assms(2) size_max_def)
  have r: "take 22 ?r = ?r" "drop 22 ?r = []" using len by simp_all
  have "\<exists>s'. connect_to ts_ops (scripted script) (replicate 513 0) t auth_none
      = Inr (fst (reply_v5 ?r), snd (reply_v5 ?r), s')
    \<and> ts_in s' = greeting_bytes auth_none @ connect_request_bytes t \<and> ts_pending s' = []"
    using connect_to_quiet [OF quiet, of "replicate 513 0" auth_none 0 t ?r] assms r
    by (simp add: oversized_auth_def greeting_methods_def auth_rx_def auth_tx_def)
  moreover have "async_connect_any 7 ts_ops (scripted script) t auth_none
      = Some (connect_to ts_ops (scripted script) (replicate 513 0) t auth_none)"
    by (rule sync_stream.async_connect_any_eq [OF ts_quiet_stream quiet]) simp
  from async_connect_any_enough [OF this, of n]
  have "async_connect (7 + n) ts_ops (scripted script) t auth_none
      = Some (connect_to ts_ops (scripted script) (replicate 513 0) t auth_none)" by simp
  ultimately show ?thesis by auto
qed

lemma request_fits:
  assumes "\<And>d. t = To_domain d \<Longrightarrow> length (de_domain d) \<le> 255 \<and> eps \<noteq> []"
  shows "length (connect_request_bytes t) \<le> 513"
  using assms
  by (cases t; force simp: length_connect_request_bytes dst_addr_size_endpoint_def dst_addr_size_domain_def)

section \<open>The SOCKS4 handshake\<close>

definition handshake_v4 :: "u32 \<Rightarrow> u16 \<Rightarrow> string \<Rightarrow> endpoint \<Rightarrow> (op \<times> outcome) list" where
  "handshake_v4 ip port u ep =
     [(Read_greeting,
        Read_done (overlay (connect_request_v4_bytes ip port u) (replicate 258 0)) (9 + length u) ec_ok),
      (Connect_target_v4, Connect_done (Some ep) ec_ok),
      (Write_reply_v4, Write_done 8 ec_ok)]"

definition handshake_v4_end :: "u32 \<Rightarrow> u16 \<Rightarrow> endpoint \<Rightarrow> server_state" where
  "handshake_v4_end ip port ep =
     (let reply = connect_reply_v4_bytes 4 90 (v4_or_zero (ep_address ep)) (ep_port ep) in
     \<lparr>s_conn = connection_new\<lparr>c_buffer := vec_resize 1024 reply,
        c_target_buffer := vec_resize 1024 [],
        c_target := \<lparr>ep_address = Address_v4 ip, ep_port = port\<rparr>, c_target_local := Some ep\<rparr>,
      s_ops = [Read_client, Read_target], s_sent = reply\<rparr>)"

text \<open>The terminating zero byte ends the read.\<close>

lemma greeting_cond_v4:
  "greeting_cond (overlay (connect_request_v4_bytes ip port u) old) ec_ok (9 + length u) = 0"
proof -
  let ?b = "overlay (connect_request_v4_bytes ip port u) old"
  have len: "length (connect_request_v4_bytes ip port u) = 9 + length u"
    by (rule length_connect_request_v4_bytes)
  have "?b ! 0 = 4" "?b ! 1 = 1"
    by (simp_all add: overlay_def connect_request_v4_bytes_def)
  moreover have "?b ! (8 + length u) = 0"
    by (simp add: overlay_def connect_request_v4_bytes_def nth_append)
  then have "list_ex (\<lambda>i. ?b ! i = 0) [8..<9 + length u]"
    by (auto simp: list_ex_iff intro!: bexI [of _ "8 + length u"])
  ultimately show ?thesis by (simp add: greeting_cond_def)
qed

lemma handshake_v4_run:
  assumes "length u \<le> 249"
  shows "server_run server_start (handshake_v4 ip port u ep) (handshake_v4_end ip port ep)"
proof -
  let ?msg = "connect_request_v4_bytes ip port u"
  let ?reply = "connect_reply_v4_bytes 4 90 (v4_or_zero (ep_address ep)) (ep_port ep)"
  let ?c1 = "connection_new\<lparr>c_buffer := ?msg, c_target := \<lparr>ep_address = Address_v4 ip, ep_port = port\<rparr>\<rparr>"
  let ?c2 = "connection_new\<lparr>c_buffer := ?reply, c_target := \<lparr>ep_address = Address_v4 ip, ep_port = port\<rparr>,
    c_target_local := Some ep\<rparr>"
  have rep: "get_byte ?reply 0 = Inr 4" "get_byte ?reply 1 = Inr 90"
    by (simp_all add: connect_reply_v4_bytes_def)
  have len: "length ?reply = 8" by (simp add: connect_reply_v4_bytes_def)
  have written: "server_run \<lparr>s_conn = ?c2, s_ops = [Write_reply_v4], s_sent = []\<rparr>
      [(Write_reply_v4, Write_done 8 ec_ok)] (handshake_v4_end ip port ep)"
    by (rule server_run_single [of _ _ _ "s_conn (handshake_v4_end ip port ep)" "[Read_client, Read_target]"])
      (use rep len in \<open>simp_all add: write_done_def on_reply_v4_written_def do_relay_def
        do_relay_from_client_def do_relay_from_target_def handshake_v4_end_def Let_def connection_new_def
        server_run.stay\<close>)
  have connected: "server_run \<lparr>s_conn = ?c1, s_ops = [Connect_target_v4], s_sent = []\<rparr>
      [(Connect_target_v4, Connect_done (Some ep) ec_ok), (Write_reply_v4, Write_done 8 ec_ok)]
      (handshake_v4_end ip port ep)"
    by (rule server_run_single [of _ _ _ ?c2 "[Write_reply_v4]"])
      (use written in \<open>simp_all add: on_connected_v4_def do_connect_reply_v4_open connection_new_def\<close>)
  show ?thesis
    unfolding server_start_def handshake_v4_def
  proof (rule server_run_single)
    show "allowed Read_greeting (Read_done (overlay ?msg (replicate 258 0)) (9 + length u) ec_ok) connection_new"
      using assms greeting_cond_v4 [of ip port u "replicate 258 0"]
      by (simp add: read_done_def length_overlay length_connect_request_v4_bytes overlay_def connection_new_def)
    show "handle Read_greeting (Read_done (overlay ?msg (replicate 258 0)) (9 + length u) ec_ok)
        connection_new = Inr (?c1, [Connect_target_v4])"
      using on_request_v4_bytes [where old = "replicate 258 0" and u = u and c = connection_new
          and ip = ip and port = port] assms by simp
  qed (use connected in simp)
qed

section \<open>Properties\<close>

text \<open>
  C10 (client_server_handshake).  For every client without authentication, every target that is
  an address or a name of at most 255 characters which the server resolves to one address or
  more, and every address the server's target socket gets: the server has a run in which it reads
  exactly the bytes that the client writes, connects to the target (the first address a name
  resolves to) and starts to relay; and the client, blocking or asynchronous, over exactly the
  bytes the server has sent in this run, succeeds with the local endpoint of the target socket,
  having written those bytes.
\<close>
theorem client_server_handshake:
  assumes "\<And>d. t = To_domain d \<Longrightarrow> length (de_domain d) \<le> 255 \<and> eps \<noteq> []"
  shows "\<exists>S s'. server_run server_start (handshake t eps ep) S
    \<and> s_ops S = [Read_client, Read_target] \<and> c_target (s_conn S) = target_endpoint t eps
    \<and> connect_to ts_ops (scripted (s_sent S)) (replicate 513 0) t auth_none
        = Inr (ep, make_error_code Err_succeeded, s')
    \<and> async_connect (7 + n) ts_ops (scripted (s_sent S)) t auth_none
        = Some (Inr (ep, make_error_code Err_succeeded, s'))
    \<and> ts_in s' = greeting_bytes auth_none @ connect_request_bytes t \<and> ts_pending s' = []"
proof -
  let ?S = "handshake_end t eps ep"
  have "reply_v5 (connect_reply_bytes 0 ep) = (ep, make_error_code Err_succeeded)"
    by (auto simp: reply_v5_def decode_reply_v5_bytes length_connect_reply_bytes)
  with clients_of_reply [OF request_fits [of t eps], where script = "s_sent ?S" and rep = 0 and ep = ep and n = n] handshake_run [of t eps ep] assms
  show ?thesis by (intro exI [of _ ?S]) (simp add: handshake_end_def)
qed

theorem client_server_handshake_witness:
  "\<exists>S. server_run server_start
      (handshake (To_domain \<lparr>de_domain = ''a.b'', de_port = 80\<rparr>) [demo_target] endpoint_default) S
    \<and> c_target (s_conn S) = demo_target"
  using client_server_handshake [of "To_domain \<lparr>de_domain = ''a.b'', de_port = 80\<rparr>" "[demo_target]"
      endpoint_default] by auto

text \<open>
  C12 (client_server_refusal).  The refusal after a failed connect reaches the client: for every
  client without authentication, every target that is an address or a name of at most 255
  characters which the server resolves to one address or more, and whatever the error with which
  the opened target socket fails to connect to it, the server has a run in which it reads exactly
  the bytes that the client writes, sends a reply and closes; and the client, blocking or
  asynchronous, over exactly the bytes of the server, returns the default endpoint and always
  \<open>host_unreachable\<close>, since the reply's code does not depend on the error.  (A malformed request
  or a failed resolution gets no reply: it ends in the exception of \<open>local_endpoint()\<close>.)
\<close>
theorem client_server_refusal:
  assumes "\<And>d. t = To_domain d \<Longrightarrow> length (de_domain d) \<le> 255 \<and> eps \<noteq> []" and "failed ec"
  shows "\<exists>S s'. server_run server_start (refusal t eps ep ec) S \<and> s_ops S = [] \<and> c_closed (s_conn S)
    \<and> connect_to ts_ops (scripted (s_sent S)) (replicate 513 0) t auth_none
        = Inr (endpoint_default, make_error_code Err_host_unreachable, s')
    \<and> async_connect (7 + n) ts_ops (scripted (s_sent S)) t auth_none
        = Some (Inr (endpoint_default, make_error_code Err_host_unreachable, s'))
    \<and> ts_in s' = greeting_bytes auth_none @ connect_request_bytes t \<and> ts_pending s' = []"
proof -
  have "reply_v5 (connect_reply_bytes 4 endpoint_default)
      = (endpoint_default, make_error_code Err_host_unreachable)"
    by (simp add: reply_v5_def decode_reply_v5_bytes length_connect_reply_bytes to_reply_code_def)
  with clients_of_reply [OF request_fits [of t eps] refl, where rep = 4 and ep = endpoint_default and n = n]
    refusal_run [of t eps ec ep] assms show ?thesis by fastforce
qed

theorem client_server_refusal_witness:
  "\<exists>S. server_run server_start
      (refusal (To_domain \<lparr>de_domain = ''a.b'', de_port = 80\<rparr>) [demo_target] endpoint_default (System_code 111)) S
    \<and> c_closed (s_conn S)"
  using client_server_refusal [of "To_domain \<lparr>de_domain = ''a.b'', de_port = 80\<rparr>" "[demo_target]"
      "System_code 111" endpoint_default] by auto

text \<open>
  C11 (client_server_handshake_v4).  For every IPv4 target, every user id of at most 249
  characters and every IPv4 address of the server's target socket: the server has a run in which
  it reads exactly the bytes that \<open>connect_v4\<close> writes, connects to the target and starts to
  relay; and \<open>connect_v4\<close>, over exactly the bytes the server has sent, reports the grant, having
  read the reply to its end.  The endpoint it returns has the port of the server's socket, but
  not its address: the reply's bytes are right, and they are read one byte too early.
\<close>
theorem client_server_handshake_v4:
  assumes "ep_address t = Address_v4 ip" and "length u \<le> 249" and "ep_address ep = Address_v4 bnd"
  shows "\<exists>S s'. server_run server_start (handshake_v4 ip (ep_port t) u ep) S
    \<and> s_ops S = [Read_client, Read_target] \<and> c_target (s_conn S) = t
    \<and> connect_v4 ts_ops (scripted (s_sent S)) t u
        = Inr (\<lparr>ep_address = Address_v4 (push_bit 24 (ucast (ucast (ep_port ep) :: byte)) OR drop_bit 8 bnd),
                 ep_port = ep_port ep\<rparr>, make_error_code Err_request_granted, s')
    \<and> ts_in s' = connect_request_v4_bytes ip (ep_port t) u \<and> ts_pending s' = []"
proof -
  let ?S = "handshake_v4_end ip (ep_port t) ep"
  have sent: "s_sent ?S = connect_reply_v4_bytes 4 90 bnd (ep_port ep)"
    using assms(3) by (simp add: handshake_v4_end_def Let_def)
  have "length (s_sent ?S) \<le> size_max" by (simp add: sent connect_reply_v4_bytes_def size_max_def)
  with connect_v4_quiet [of "scripted (s_sent ?S)" t ip 4 bnd "ep_port ep" "[]" u] assms(1) sent
  obtain s' where "connect_v4 ts_ops (scripted (s_sent ?S)) t u
        = Inr (\<lparr>ep_address = Address_v4 (push_bit 24 (ucast (ucast (ep_port ep) :: byte)) OR drop_bit 8 bnd),
                 ep_port = ep_port ep\<rparr>, make_error_code Err_request_granted, s')
    \<and> ts_in s' = connect_request_v4_bytes ip (ep_port t) u \<and> ts_pending s' = []" by auto
  moreover have "s_ops ?S = [Read_client, Read_target]" "c_target (s_conn ?S) = t"
    using assms(1) by (simp_all add: handshake_v4_end_def Let_def)
  ultimately show ?thesis using handshake_v4_run [OF assms(2), of ip "ep_port t" ep] by blast
qed

theorem client_server_handshake_v4_witness:
  "\<exists>S. server_run server_start (handshake_v4 0x7F000001 80 ''user'' endpoint_default) S
    \<and> c_target (s_conn S) = demo_target"
proof -
  have "ep_address demo_target = Address_v4 0x7F000001" "length ''user'' \<le> 249"
    "ep_address endpoint_default = Address_v4 0" by (simp_all add: demo_target_def)
  from client_server_handshake_v4 [OF this] show ?thesis by (auto simp: demo_target_def)
qed

end
