(* ===== verification/Server_Accept.thy ===== *)
theory Server_Accept
  imports Server_Client
begin

text \<open>
  The server program around the connections (\<open>class socks_server\<close> and \<open>main\<close> of
  \<open>example/server/async/socks_server_async.cpp\<close>): the acceptor, the connections it has started,
  and \<open>io_context::run\<close> over the handlers of all of them, on one thread.  An exception that
  leaves a handler leaves \<open>run\<close>: \<open>main\<close> catches it and the program ends, with every connection.

  The resolver of the listening address is an argument, and so is the constructor of the
  acceptor, of which the program sees whether it throws.
\<close>

section \<open>The program\<close>

record socks_server =
  v_listen :: endpoint
  v_accepting :: bool
  v_conns :: "server_state list"

text \<open>\<open>Faulted f\<close>: the fault \<open>f\<close> has left \<open>run\<close>; \<open>Not_started e\<close>: the constructor has thrown.\<close>

datatype status =
    Running socks_server
  | Stopped
  | Faulted fault
  | Not_started error_code

definition do_accept :: "socks_server \<Rightarrow> socks_server" where
  "do_accept v = v\<lparr>v_accepting := True\<rparr>"

text \<open>The handler of \<open>async_accept\<close>: a connection that was accepted is started.\<close>

definition on_accept :: "error_code \<Rightarrow> endpoint option \<Rightarrow> socks_server \<Rightarrow> socks_server result" where
  "on_accept ec peer v =
     res_bind
       (if \<not> failed ec then
          res_bind (start peer connection_new) (\<lambda>(c, ops).
          Inr (v\<lparr>v_conns := v_conns v @ [\<lparr>s_conn = c, s_ops = ops, s_sent = []\<rparr>]\<rparr>))
        else Inr v)
       (\<lambda>v. Inr (do_accept v))"

definition socks_server_new ::
    "(string \<Rightarrow> string \<Rightarrow> error_code + endpoint list) \<Rightarrow> (endpoint \<Rightarrow> error_code option)
      \<Rightarrow> string \<Rightarrow> string \<Rightarrow> status" where
  "socks_server_new resolve bind_to listen_address listen_port =
     (case resolve listen_address listen_port of
        Inl e \<Rightarrow> Not_started e
      | Inr [] \<Rightarrow> Faulted Out_of_bounds
      | Inr (ep # _) \<Rightarrow>
          (case bind_to ep of
             Some e \<Rightarrow> Not_started e
           | None \<Rightarrow> Running (do_accept \<lparr>v_listen = ep, v_accepting = False, v_conns = []\<rparr>)))"

text \<open>The address and the port to listen on; \<open>argv\<close> holds the name of the program first.\<close>

definition listen_arguments :: "string list \<Rightarrow> string \<times> string" where
  "listen_arguments argv =
     (if length argv \<noteq> 3 then
        (if length argv \<ge> 2 then argv ! 1 else ''localhost'',
         if length argv > 3 then argv ! 2 else ''1080'')
      else (argv ! 1, argv ! 2))"

definition main_server ::
    "(string \<Rightarrow> string \<Rightarrow> error_code + endpoint list) \<Rightarrow> (endpoint \<Rightarrow> error_code option)
      \<Rightarrow> string list \<Rightarrow> status" where
  "main_server resolve bind_to argv =
     (let (listen_address, listen_port) = listen_arguments argv in
      socks_server_new resolve bind_to listen_address listen_port)"

section \<open>Events\<close>

text \<open>
  What \<open>run\<close> waits for: the accept, an operation of the connection number \<open>i\<close> and the two
  signals, whose handler stops the context.
\<close>

datatype event =
    Accept_done error_code "endpoint option"
  | Conn_done nat op outcome
  | Signal_done

fun event_allowed :: "event \<Rightarrow> socks_server \<Rightarrow> bool" where
  "event_allowed (Accept_done ec peer) v = v_accepting v"
| "event_allowed (Conn_done i opn res) v =
     (i < length (v_conns v) \<and> opn \<in> set (s_ops (v_conns v ! i))
      \<and> allowed opn res (s_conn (v_conns v ! i)))"
| "event_allowed Signal_done v = True"

fun run_event :: "event \<Rightarrow> socks_server \<Rightarrow> status" where
  "run_event (Accept_done ec peer) v =
     (case on_accept ec peer (v\<lparr>v_accepting := False\<rparr>) of Inl f \<Rightarrow> Faulted f | Inr v \<Rightarrow> Running v)"
| "run_event (Conn_done i opn res) v =
     (case complete opn res (v_conns v ! i) of
        Inl f \<Rightarrow> Faulted f
      | Inr S \<Rightarrow> Running (v\<lparr>v_conns := (v_conns v)[i := S]\<rparr>))"
| "run_event Signal_done v = Stopped"

inductive io_run :: "status \<Rightarrow> event list \<Rightarrow> status \<Rightarrow> bool" where
  stay: "io_run st [] st"
| event: "event_allowed e v \<Longrightarrow> io_run (run_event e v) es st \<Longrightarrow> io_run (Running v) (e # es) st"

inductive_cases io_run_NilE [elim!]: "io_run st [] st'"
inductive_cases io_run_ConsE: "io_run st (e # es) st'"

section \<open>The invariant\<close>

text \<open>
  An accept is always pending, every connection is in a state it reaches on its own, and the
  faults that end the program are the exceptions of two members of the sockets.
\<close>

fun status_ok :: "status \<Rightarrow> bool" where
  "status_ok (Running v) \<longleftrightarrow> v_accepting v \<and> (\<forall>S \<in> set (v_conns v). server_reachable S)"
| "status_ok Stopped \<longleftrightarrow> True"
| "status_ok (Faulted f) \<longleftrightarrow> f = Socket_not_open \<or> f = Socket_not_connected"
| "status_ok (Not_started e) \<longleftrightarrow> True"

lemma start_server_start:
  "start peer connection_new = (case peer of None \<Rightarrow> Inl Socket_not_connected
     | Some ep \<Rightarrow> Inr (s_conn server_start, s_ops server_start))"
  "\<lparr>s_conn = s_conn server_start, s_ops = s_ops server_start, s_sent = []\<rparr> = server_start"
  by (simp_all add: start_def server_start_def split: option.split)

lemma run_event_ok:
  assumes "status_ok (Running v)" and "event_allowed e v"
  shows "status_ok (run_event e v)"
proof (cases e)
  case (Accept_done ec peer)
  with assms(1) server_reachable.start show ?thesis
    by (auto simp: on_accept_def do_accept_def start_server_start split: option.splits)
next
  case (Conn_done i opn res)
  with assms(2) have i: "i < length (v_conns v)" and opn: "opn \<in> set (s_ops (v_conns v ! i))"
    and al: "allowed opn res (s_conn (v_conns v ! i))" by simp_all
  have r: "server_reachable (v_conns v ! i)" using assms(1) i by simp
  show ?thesis
  proof (cases "complete opn res (v_conns v ! i)")
    case (Inl f)
    with server_step_post [OF server_reachable_inv [OF r] opn al] Conn_done show ?thesis by simp
  next
    case (Inr S)
    from server_reachable.step [OF r server_step.step [OF opn al Inr]] assms(1) Conn_done Inr
    show ?thesis by (auto dest!: subsetD [OF set_update_subset_insert])
  qed
qed simp

lemma io_run_ok: "io_run st es st' \<Longrightarrow> status_ok st \<Longrightarrow> status_ok st'"
proof (induction rule: io_run.induct)
  case (event e v es st)
  then show ?case using run_event_ok by blast
qed

lemma main_server_ok:
  assumes "\<And>a p. resolve a p \<noteq> Inr []"
  shows "status_ok (main_server resolve bind_to argv)"
  using assms
  by (auto simp: main_server_def socks_server_new_def do_accept_def
      split: prod.splits sum.splits list.splits option.splits)

text \<open>A first message of the SOCKS4 version and a command other than CONNECT.\<close>

lemma bad_command_faults:
  assumes "cmd \<noteq> 1"
  shows "allowed Read_greeting (Read_done (4 # cmd # replicate 256 0) 2 ec_ok) (s_conn server_start)"
    and "complete Read_greeting (Read_done (4 # cmd # replicate 256 0) 2 ec_ok) server_start
      = Inl Socket_not_open"
proof -
  let ?old = "replicate 258 (0 :: byte)"
  have old: "?old = 0 # 0 # replicate 256 0" by (simp add: numeral_eq_Suc)
  show "allowed Read_greeting (Read_done (4 # cmd # replicate 256 0) 2 ec_ok) (s_conn server_start)"
    using assms
    by (simp add: server_start_def connection_new_def read_done_def greeting_cond_def old)
  have "vec_resize 2 (4 # cmd # replicate 256 0) = [4, cmd]"
    by (simp add: numeral_eq_Suc)
  with assms show "complete Read_greeting (Read_done (4 # cmd # replicate 256 0) 2 ec_ok) server_start
      = Inl Socket_not_open"
    by (simp add: complete_def server_start_def on_greeting_def connection_new_def
        parse_socks_connect_v4_def refuse_closed)
qed

text \<open>A resolver of one address, a port that is free, and a first client.\<close>

definition demo_program :: status where
  "demo_program = main_server (\<lambda>a p. Inr [endpoint_default]) (\<lambda>ep. None) [''server'']"

definition demo_server :: socks_server where
  "demo_server = \<lparr>v_listen = endpoint_default, v_accepting = True, v_conns = [server_start]\<rparr>"

lemma demo_program_runs:
  "io_run demo_program [Accept_done ec_ok (Some demo_target)] (Running demo_server)"
  unfolding demo_program_def main_server_def listen_arguments_def socks_server_new_def do_accept_def
  by (auto simp: on_accept_def do_accept_def start_server_start demo_server_def intro!: io_run.intros)

section \<open>Properties\<close>

text \<open>
  C14 (server_program_invariant).  Whatever the clients, the targets and Asio do, for any number
  of connections and any interleaving of their handlers: the program always has an accept
  pending, each connection is in a state that it reaches by its own handlers alone, so that
  connections do not disturb each other, and the program ends only by a signal, before it has
  started, or by the exceptions of \<open>local_endpoint()\<close> and \<open>remote_endpoint()\<close>.
\<close>
theorem server_program_invariant:
  assumes "\<And>a p. resolve a p \<noteq> Inr []" and "io_run (main_server resolve bind_to argv) es st"
  shows "case st of
      Running v \<Rightarrow> v_accepting v \<and> (\<forall>S \<in> set (v_conns v). server_reachable S)
    | Faulted f \<Rightarrow> f = Socket_not_open \<or> f = Socket_not_connected
    | Stopped \<Rightarrow> True
    | Not_started e \<Rightarrow> True"
  using io_run_ok [OF assms(2) main_server_ok [OF assms(1)]] by (cases st) simp_all

theorem server_program_invariant_witness:
  "v_accepting demo_server \<and> server_reachable (v_conns demo_server ! 0)"
  using server_program_invariant [OF _ demo_program_runs [unfolded demo_program_def]]
  by (simp add: demo_server_def)

text \<open>
  C13 (one_client_stops_server).  Any client ends the whole program, with all its connections,
  in whatever state it is: it connects and sends the two bytes of the SOCKS4 version and a
  command other than CONNECT.  The answer the code means to send asks the target socket, which
  is not open, for its endpoint, and the exception leaves \<open>run\<close>.
\<close>
theorem one_client_stops_server:
  assumes "io_run (main_server resolve bind_to argv) es (Running v)" and "\<And>a p. resolve a p \<noteq> Inr []"
    and "cmd \<noteq> 0x01"
  shows "io_run (Running v)
    [Accept_done ec_ok (Some peer),
     Conn_done (length (v_conns v)) Read_greeting (Read_done (0x04 # cmd # replicate 256 0) 2 ec_ok)]
    (Faulted Socket_not_open)"
proof -
  have acc: "v_accepting v"
    using io_run_ok [OF assms(1) main_server_ok [OF assms(2)]] by simp
  let ?v = "v\<lparr>v_conns := v_conns v @ [server_start]\<rparr>"
  have "run_event (Accept_done ec_ok (Some peer)) v = Running ?v"
    using acc by (cases v) (simp add: on_accept_def do_accept_def start_server_start)
  moreover have "event_allowed (Accept_done ec_ok (Some peer)) v" using acc by simp
  moreover have "event_allowed (Conn_done (length (v_conns v)) Read_greeting
      (Read_done (4 # cmd # replicate 256 0) 2 ec_ok)) ?v"
    using bad_command_faults(1) [OF assms(3)] by (simp add: server_start_def)
  moreover have "run_event (Conn_done (length (v_conns v)) Read_greeting
      (Read_done (4 # cmd # replicate 256 0) 2 ec_ok)) ?v = Faulted Socket_not_open"
    using bad_command_faults(2) [OF assms(3)] by simp
  ultimately show ?thesis by (metis io_run.intros)
qed

theorem one_client_stops_server_witness:
  "io_run (Running demo_server)
    [Accept_done ec_ok (Some demo_target),
     Conn_done 1 Read_greeting (Read_done (4 # 2 # replicate 256 0) 2 ec_ok)]
    (Faulted Socket_not_open)"
  using one_client_stops_server [OF demo_program_runs [unfolded demo_program_def], of 2 demo_target]
  by (simp add: demo_server_def)

end
