(* ===== verification/Server_Spec.thy ===== *)
theory Server_Spec
  imports Server_Machine
begin

text \<open>
  What a SOCKS server promises to a client, as an abstract machine over phases and messages
  (RFC 1928, RFC 1929 and the SOCKS4 note), and the proof that a connection of the server
  implements it: every step of the connection is a sequence of steps of the specification, and
  the bytes the client has been sent are the messages of the specification.
\<close>

section \<open>The specification\<close>

datatype message =
    Method byte
  | Credentials_accepted
  | Reply byte endpoint
  | Reply_v4 byte u32 u16
  | Relayed "byte list"

fun encode :: "message \<Rightarrow> byte list" where
  "encode (Method m) = [0x05, m]"
| "encode Credentials_accepted = [0x01, 0x00]"
| "encode (Reply rep ep) = connect_reply_bytes rep ep"
| "encode (Reply_v4 rep ip port) = connect_reply_v4_bytes 4 rep ip port"
| "encode (Relayed bs) = bs"

definition encode_all :: "message list \<Rightarrow> byte list" where
  "encode_all ms = concat (map encode ms)"

lemma encode_all_simps [simp]:
  "encode_all [] = []" "encode_all (ms @ [m]) = encode_all ms @ encode m"
  by (simp_all add: encode_all_def)

text \<open>A phase \<open>Sending m\<close> writes the message \<open>m\<close>.\<close>

datatype phase =
    Awaiting_greeting
  | Awaiting_credentials
  | Awaiting_request
  | Resolving
  | Connecting
  | Connecting_v4
  | Sending message
  | Relaying
  | Ended

text \<open>What follows a message that has been sent.\<close>

fun after_message :: "message \<Rightarrow> phase" where
  "after_message (Method m) =
     (if m = 0x00 then Awaiting_request else if m = 0x02 then Awaiting_credentials else Ended)"
| "after_message Credentials_accepted = Awaiting_request"
| "after_message (Reply rep ep) = (if rep = 0x00 then Relaying else Ended)"
| "after_message (Reply_v4 rep ip port) = (if rep = 90 then Relaying else Ended)"
| "after_message (Relayed bs) = Relaying"

text \<open>
  A method is chosen after a greeting, credentials are accepted only when they were asked for,
  a reply is sent only after an attempt to connect, and every failure ends the connection, at
  worst with a part of the message that was being sent.
\<close>

inductive spec_step :: "phase \<times> message list \<Rightarrow> phase \<times> message list \<Rightarrow> bool" where
  choose: "m \<in> {0x00, 0x02, 0xFF} \<Longrightarrow> spec_step (Awaiting_greeting, ms) (Sending (Method m), ms)"
| request_v4: "spec_step (Awaiting_greeting, ms) (Connecting_v4, ms)"
| accept_credentials: "spec_step (Awaiting_credentials, ms) (Sending Credentials_accepted, ms)"
| request_name: "spec_step (Awaiting_request, ms) (Resolving, ms)"
| request_address: "spec_step (Awaiting_request, ms) (Connecting, ms)"
| resolved: "spec_step (Resolving, ms) (Connecting, ms)"
| reply: "spec_step (Connecting, ms) (Sending (Reply rep ep), ms)"
| reply_v4: "spec_step (Connecting_v4, ms) (Sending (Reply_v4 rep ip port), ms)"
| sent: "spec_step (Sending m, ms) (after_message m, ms @ [m])"
| relay: "spec_step (Relaying, ms) (Relaying, ms @ [Relayed bs])"
| break: "spec_step (Sending m, ms) (Ended, ms @ [Relayed (take k (encode m))])"
| stop: "spec_step (p, ms) (Ended, ms)"

abbreviation spec_steps :: "phase \<times> message list \<Rightarrow> phase \<times> message list \<Rightarrow> bool" where
  "spec_steps \<equiv> spec_step\<^sup>*\<^sup>*"

section \<open>The simulation relation\<close>

text \<open>The phase of a connection with the operation \<open>opn\<close> in flight.\<close>

fun phase_ok :: "op \<Rightarrow> connection \<Rightarrow> phase \<Rightarrow> bool" where
  "phase_ok Read_greeting c p \<longleftrightarrow> p = Awaiting_greeting"
| "phase_ok Read_userpass c p \<longleftrightarrow> p = Awaiting_credentials"
| "phase_ok Read_request c p \<longleftrightarrow> p = Awaiting_request"
| "phase_ok (Resolve host service) c p \<longleftrightarrow> p = Resolving"
| "phase_ok Connect_target c p \<longleftrightarrow> p = Connecting"
| "phase_ok Connect_target_v4 c p \<longleftrightarrow> p = Connecting_v4"
| "phase_ok Write_choice c p \<longleftrightarrow> p = Sending (Method (c_server_choice c))"
| "phase_ok Write_userpass_reply c p \<longleftrightarrow> p = Sending Credentials_accepted"
| "phase_ok Write_reply c p \<longleftrightarrow> (\<exists>rep ep. p = Sending (Reply rep ep) \<and> c_buffer c = encode (Reply rep ep))"
| "phase_ok Write_reply_v4 c p \<longleftrightarrow>
     (\<exists>rep ip port. p = Sending (Reply_v4 rep ip port) \<and> c_buffer c = encode (Reply_v4 rep ip port))"
| "phase_ok _ c p \<longleftrightarrow> p = Relaying"

definition implements :: "server_state \<Rightarrow> phase \<times> message list \<Rightarrow> bool" where
  "implements S = (\<lambda>(p, ms). s_sent S = encode_all ms
     \<and> (if s_ops S = [] then p = Ended else \<forall>opn \<in> set (s_ops S). phase_ok opn (s_conn S) p))"

lemma implements_single [simp]:
  "implements \<lparr>s_conn = c, s_ops = [opn], s_sent = out\<rparr> (p, ms)
    \<longleftrightarrow> out = encode_all ms \<and> phase_ok opn c p"
  by (simp add: implements_def)

lemma implements_ended [simp]:
  "implements \<lparr>s_conn = c, s_ops = [], s_sent = out\<rparr> (p, ms) \<longleftrightarrow> out = encode_all ms \<and> p = Ended"
  by (simp add: implements_def)

section \<open>What a handler starts\<close>

text \<open>The operation of \<open>X\<close> a handler starts, or none.\<close>

definition starts :: "op set \<Rightarrow> handler \<Rightarrow> bool" where
  "starts X m = res_post (\<lambda>_. True) (\<lambda>(c, ops). ops = [] \<or> (\<exists>opn \<in> X. ops = [opn])) m"

definition resolves :: "op set" where
  "resolves = {opn. \<exists>host service. opn = Resolve host service}"

lemma Resolve_in_resolves [simp]: "Resolve host service \<in> resolves"
  by (simp add: resolves_def)

lemma starts_simps [simp]:
  "starts X (Inl e)"
  "starts X (Inr (c, ops)) \<longleftrightarrow> ops = [] \<or> (\<exists>opn \<in> X. ops = [opn])"
  "starts X (stop_with ec what c)"
  by (simp_all add: starts_def stop_with_def)

lemma starts_bind: "(\<And>x. m = Inr x \<Longrightarrow> starts X (f x)) \<Longrightarrow> starts X (res_bind m f)"
  by (cases m) simp_all

lemma refuse_starts:
  "c_target_local c = None \<Longrightarrow> starts X (refuse ec what rep c)"
  "c_target_local c = None \<Longrightarrow> starts X (refuse_v4 ec what rep c)"
  by (simp_all add: refuse_def refuse_v4_def fail_def do_connect_reply_closed)

lemma parse_socks_greeting_starts: "starts {Write_choice} (parse_socks_greeting c)"
  by (auto simp: parse_socks_greeting_def do_server_choice_def intro!: starts_bind)

lemma parse_socks_connect_v4_starts:
  "c_target_local c = None \<Longrightarrow> starts {Connect_target_v4} (parse_socks_connect_v4 c)"
  by (auto simp: parse_socks_connect_v4_def do_target_connect_v4_def refuse_starts intro!: starts_bind)

lemma starts_mono: "starts X m \<Longrightarrow> X \<subseteq> Y \<Longrightarrow> starts Y m"
  by (auto simp: starts_def elim!: res_post_mono)

lemma on_greeting_starts:
  assumes "c_target_local c = None"
  shows "starts {Write_choice, Connect_target_v4} (on_greeting ec n c)"
proof -
  let ?c = "c\<lparr>c_buffer := vec_resize n (c_buffer c)\<rparr>"
  have "starts {Write_choice, Connect_target_v4} (parse_socks_greeting ?c)"
    "starts {Write_choice, Connect_target_v4} (parse_socks_connect_v4 ?c)"
    using parse_socks_greeting_starts [of ?c] parse_socks_connect_v4_starts [of ?c] assms
    by (auto elim: starts_mono)
  then show ?thesis by (auto simp: on_greeting_def Let_def intro!: starts_bind)
qed

lemma on_userpass_starts: "starts {Write_userpass_reply} (on_userpass ec n c)"
  by (auto simp: on_userpass_def parse_userpass_greeting_def Let_def intro!: starts_bind)

lemma parse_connect_starts:
  assumes "c_target_local c = None"
  shows "starts {Connect_target} (parse_connect_v4_address c)"
    and "starts {Connect_target} (parse_connect_v6_address c)"
    and "starts resolves (parse_connect_domain c)"
  using assms
  by (auto simp: parse_connect_v4_address_def parse_connect_v6_address_def parse_connect_domain_def
      do_target_connect_def refuse_starts intro!: starts_bind)

lemma on_request_starts:
  assumes "c_target_local c = None"
  shows "starts (insert Connect_target resolves) (on_request ec n c)"
proof -
  let ?c = "c\<lparr>c_buffer := vec_resize n (c_buffer c)\<rparr>"
  have "c_target_local ?c = None" using assms by simp
  note addr = parse_connect_starts [OF this]
  have "starts (insert Connect_target resolves) (parse_connect_v4_address ?c)"
    "starts (insert Connect_target resolves) (parse_connect_v6_address ?c)"
    "starts (insert Connect_target resolves) (parse_connect_domain ?c)"
    using addr by (auto intro: starts_mono)
  with assms show ?thesis
    by (auto simp: on_request_def parse_socks_connect_def refuse_starts intro!: starts_bind)
qed

lemma on_resolved_starts:
  "c_target_local c = None \<Longrightarrow> starts {Connect_target} (on_resolved ec eps c)"
  by (auto simp: on_resolved_def do_target_connect_def refuse_starts intro!: starts_bind
      split: list.split)

lemma on_connected_starts:
  "starts {Write_reply} (on_connected ec c)" "starts {Write_reply_v4} (on_connected_v4 ec c)"
  by (cases "c_target_local c";
      simp add: on_connected_def on_connected_v4_def refuse_def refuse_v4_def fail_def
        do_connect_reply_closed do_connect_reply_open do_connect_reply_v4_open)+

section \<open>The simulation\<close>

text \<open>
  \<open>simulates (p, ms) c new out\<close>: the specification gets from \<open>(p, ms)\<close> to a state that the
  connection \<open>c\<close> with the operations \<open>new\<close> in flight and the bytes \<open>out\<close> sent implements.
\<close>

definition simulates :: "phase \<times> message list \<Rightarrow> connection \<Rightarrow> op list \<Rightarrow> byte list \<Rightarrow> bool" where
  "simulates st c new out \<longleftrightarrow>
     (\<exists>st'. spec_steps st st' \<and> implements \<lparr>s_conn = c, s_ops = new, s_sent = out\<rparr> st')"

lemma simulatesI:
  "spec_step st st' \<Longrightarrow> implements \<lparr>s_conn = c, s_ops = new, s_sent = out\<rparr> st' \<Longrightarrow> simulates st c new out"
  unfolding simulates_def by blast

lemma simulates_stop: "simulates (p, ms) c [] (encode_all ms)"
  by (rule simulatesI [OF spec_step.stop]) simp

lemma simulates_single:
  "spec_step (p, ms) (p', ms') \<Longrightarrow> phase_ok opn c p' \<Longrightarrow> simulates (p, ms) c [opn] (encode_all ms')"
  by (rule simulatesI [of _ "(p', ms')"]) simp_all

text \<open>A handler that follows a read, a resolution or a connect: nothing has been sent.\<close>

lemma quiet_simulates:
  assumes "single_ok opn c (encode_all ms)" and "allowed opn res c" and "handle opn res c = Inr (c', new)"
    and "to_client opn res c = []" and "starts X (handle opn res c)"
    and "\<And>opn'. opn' \<in> X \<Longrightarrow> \<not> upstream opn' \<and> \<not> downstream opn'
      \<and> (single_ok opn' c' (encode_all ms) \<longrightarrow> (\<exists>p'. spec_step (p, ms) (p', ms) \<and> phase_ok opn' c' p'))"
  shows "simulates (p, ms) c' new (encode_all ms)"
proof (cases "new = []")
  case True
  with simulates_stop show ?thesis by simp
next
  case False
  with assms(3,5) obtain opn' where opn': "opn' \<in> X" "new = [opn']" by auto
  with single_post [OF assms(1,2)] assms(3,4) assms(6) have "single_ok opn' c' (encode_all ms)" by simp
  with assms(6) [OF opn'(1)] obtain p' where "spec_step (p, ms) (p', ms)" "phase_ok opn' c' p'" by blast
  with simulates_single opn' show ?thesis by simp
qed

text \<open>A handler that follows the write of the message \<open>m\<close>.\<close>

lemma written_simulates:
  assumes "p = Sending m" and "c_buffer c = encode m" and "write_done (c_buffer c) k ec"
    and "failed ec \<Longrightarrow> new = []"
    and "\<not> failed ec \<Longrightarrow> new = [] \<and> after_message m = Ended
      \<or> new \<noteq> [] \<and> (\<forall>opn \<in> set new. phase_ok opn c' (after_message m))"
  shows "simulates (p, ms) c' new (encode_all ms @ take k (c_buffer c))"
proof (cases "failed ec")
  case True
  with assms(1,2,4) show ?thesis
    by (intro simulatesI [OF spec_step.break [of m ms k], folded assms(1)]) simp
next
  case False
  with assms(2,3) have "take k (c_buffer c) = encode m" by (simp add: write_done_def)
  with assms(1) assms(5) [OF False] show ?thesis
    by (intro simulatesI [OF spec_step.sent [of m ms], folded assms(1)])
      (auto simp: implements_def)
qed

lemma read_simulates:
  assumes "single_ok opn c (encode_all ms)" and "allowed opn res c" and "handle opn res c = Inr (c', new)"
    and "phase_ok opn c p" and "opn \<in> {Read_greeting, Read_userpass, Read_request}"
  shows "simulates (p, ms) c' new (encode_all ms)"
proof -
  from assms(2,5) obtain buf n ec where res: "res = Read_done buf n ec" by (cases opn; cases res) auto
  have local: "c_target_local c = None" using assms(1,5) by auto
  note quiet = quiet_simulates [OF assms(1-3)]
  from assms(5) consider "opn = Read_greeting" | "opn = Read_userpass" | "opn = Read_request" by blast
  then show ?thesis
  proof cases
    case 1
    with assms(4) local on_greeting_starts [of "c\<lparr>c_buffer := buf\<rparr>"] show ?thesis
      by (intro quiet [of "{Write_choice, Connect_target_v4}"]) (auto simp: res intro: spec_step.intros)
  next
    case 2
    with assms(4) show ?thesis
      by (intro quiet [of "{Write_userpass_reply}"])
        (auto simp: res on_userpass_starts intro: spec_step.intros)
  next
    case 3
    with assms(4) local on_request_starts [of "c\<lparr>c_buffer := buf\<rparr>"] show ?thesis
      by (intro quiet [of "insert Connect_target resolves"])
        (auto simp: res resolves_def intro: spec_step.intros)
  qed
qed

lemma connect_simulates:
  assumes "single_ok opn c (encode_all ms)" and "allowed opn res c" and "handle opn res c = Inr (c', new)"
    and "phase_ok opn c p" and "opn \<in> {Connect_target, Connect_target_v4} \<union> resolves"
  shows "simulates (p, ms) c' new (encode_all ms)"
proof -
  note quiet = quiet_simulates [OF assms(1-3)]
  from assms(5) consider (name) host service where "opn = Resolve host service"
    | (v5) "opn = Connect_target" | (v4) "opn = Connect_target_v4" by (auto simp: resolves_def)
  then show ?thesis
  proof cases
    case name
    then obtain eps ec where "res = Resolve_done eps ec" using assms(2) by (cases res) auto
    with name assms(1,4) show ?thesis
      by (intro quiet [of "{Connect_target}"]) (auto simp: on_resolved_starts intro: spec_step.intros)
  next
    case v5
    then obtain l ec where "res = Connect_done l ec" using assms(2) by (cases res) auto
    with v5 assms(4) show ?thesis
      by (intro quiet [of "{Write_reply}"]) (auto simp: on_connected_starts intro: spec_step.intros)
  next
    case v4
    then obtain l ec where "res = Connect_done l ec" using assms(2) by (cases res) auto
    with v4 assms(4) show ?thesis
      by (intro quiet [of "{Write_reply_v4}"])
        (auto simp: on_connected_starts intro: spec_step.intros split: if_splits)
  qed
qed

text \<open>The writes: what is in the buffer is the message of the phase.\<close>

lemma write_simulates:
  assumes "single_ok opn c (encode_all ms)" and "allowed opn res c" and "handle opn res c = Inr (c', new)"
    and "phase_ok opn c p" and "opn \<in> {Write_choice, Write_userpass_reply, Write_reply, Write_reply_v4}"
  shows "simulates (p, ms) c' new (encode_all ms @ to_client opn res c)"
proof -
  from assms(2,5) obtain k ec where res: "res = Write_done k ec" by (cases opn; cases res) auto
  with assms(2,5) have w: "write_done (c_buffer c) k ec" and sent: "to_client opn res c = take k (c_buffer c)"
    by (cases opn; simp)+
  note defs = do_userpass_greet_def do_read_connect_request_def stop_with_def do_relay_def
    do_relay_from_client_def do_relay_from_target_def
  from assms(5) consider "opn = Write_choice" | "opn = Write_userpass_reply" | "opn = Write_reply"
    | "opn = Write_reply_v4" by blast
  then have "simulates (p, ms) c' new (encode_all ms @ take k (c_buffer c))"
  proof cases
    case 1
    with assms(1,3,4) show ?thesis
      by (intro written_simulates [where m = "Method (c_server_choice c)", OF _ _ w])
        (auto simp: res on_choice_written_def defs split: if_splits)
  next
    case 2
    with assms(1,3,4) show ?thesis
      by (intro written_simulates [where m = Credentials_accepted, OF _ _ w])
        (auto simp: res on_userpass_reply_written_def defs split: if_splits)
  next
    case 3
    then obtain rep ep where p: "p = Sending (Reply rep ep)" and buf: "c_buffer c = encode (Reply rep ep)"
      using assms(4) by auto
    have "get_byte (c_buffer c) 1 = Inr rep" by (simp add: buf connect_reply_bytes_def)
    with 3 assms(3) show ?thesis
      by (intro written_simulates [OF p buf w])
        (auto simp: res on_reply_written_def defs split: if_splits)
  next
    case 4
    then obtain rep ip port where p: "p = Sending (Reply_v4 rep ip port)"
      and buf: "c_buffer c = encode (Reply_v4 rep ip port)" using assms(4) by auto
    have "get_byte (c_buffer c) 0 = Inr 4" "get_byte (c_buffer c) 1 = Inr rep"
      by (simp_all add: buf connect_reply_v4_bytes_def)
    with 4 assms(3) show ?thesis
      by (intro written_simulates [OF p buf w])
        (auto simp: res on_reply_v4_written_def defs split: if_splits)
  qed
  with sent show ?thesis by simp
qed

lemma relaying_phase: "upstream opn \<or> downstream opn \<Longrightarrow> phase_ok opn c p \<longleftrightarrow> p = Relaying"
  by (cases opn) simp_all

lemma relay_simulates:
  assumes "relay_ok (s_conn S) (s_ops S) (s_sent S)" and "opn \<in> set (s_ops S)"
    and "implements S (p, ms)" and "complete opn res S = Inr S'"
  shows "\<exists>st'. spec_steps (p, ms) st' \<and> implements S' st'"
proof -
  from relay_step_ok [OF assms(1,2), of res] assms(4)
  have ok': "relay_ok (s_conn S') (s_ops S') (s_sent S')" by auto
  have p: "p = Relaying"
    using assms(1-3) relaying_phase by (auto simp: relay_ok_def implements_def split: if_splits)
  let ?bs = "to_client opn res (s_conn S)"
  have sent: "s_sent S' = encode_all (ms @ [Relayed ?bs])"
    using assms(3,4) by (auto simp: implements_def complete_def res_bind_eq_Inr)
  have relay: "spec_step (p, ms) (Relaying, ms @ [Relayed ?bs])"
    unfolding p by (rule spec_step.relay)
  show ?thesis
  proof (cases "s_ops S' = []")
    case True
    with sent have "implements S' (Ended, ms @ [Relayed ?bs])" by (simp add: implements_def)
    with relay spec_step.stop [of Relaying "ms @ [Relayed ?bs]"] show ?thesis
      by (meson converse_rtranclp_into_rtranclp rtranclp.rtrancl_refl)
  next
    case False
    with sent ok' have "implements S' (Relaying, ms @ [Relayed ?bs])"
      by (auto simp: implements_def relay_ok_def relaying_phase)
    with relay show ?thesis by blast
  qed
qed

lemma step_simulates:
  assumes "server_inv S" and "server_step S S'" and "implements S st"
  shows "\<exists>st'. spec_steps st st' \<and> implements S' st'"
  using assms(2)
proof (rule server_stepE)
  fix opn res
  assume opn: "opn \<in> set (s_ops S)" and al: "allowed opn res (s_conn S)"
    and S': "complete opn res S = Inr S'"
  obtain p ms where st: "st = (p, ms)" by (cases st)
  show ?thesis
  proof (cases "relay_ok (s_conn S) (s_ops S) (s_sent S)")
    case True
    from relay_simulates [OF this opn _ S'] assms(3) show ?thesis by (simp add: st)
  next
    case False
    with assms(1) opn have ops: "s_ops S = [opn]" and ok: "single_ok opn (s_conn S) (s_sent S)"
      by (auto simp: server_inv_def ops_ok_def)
    from assms(3) ops have sent: "s_sent S = encode_all ms" and ph: "phase_ok opn (s_conn S) p"
      by (simp_all add: implements_def st)
    obtain c' new where h: "handle opn res (s_conn S) = Inr (c', new)"
      and S'_eq: "S' = \<lparr>s_conn = c', s_ops = new, s_sent = encode_all ms @ to_client opn res (s_conn S)\<rparr>"
      using S' ops sent by (auto simp: complete_def res_bind_eq_Inr)
    note pre = ok [unfolded sent] al h ph
    have quiet: "to_client opn res (s_conn S) = []"
      if "opn \<in> {Read_greeting, Read_userpass, Read_request} \<union> {Connect_target, Connect_target_v4} \<union> resolves"
      using that by (auto simp: resolves_def)
    have "\<not> upstream opn" "\<not> downstream opn" using ok by (cases opn; simp)+
    then have "opn \<in> {Read_greeting, Read_userpass, Read_request}
        \<or> opn \<in> {Connect_target, Connect_target_v4} \<union> resolves
        \<or> opn \<in> {Write_choice, Write_userpass_reply, Write_reply, Write_reply_v4}"
      by (cases opn) simp_all
    then have "simulates (p, ms) c' new (encode_all ms @ to_client opn res (s_conn S))"
      using read_simulates [OF pre] connect_simulates [OF pre] write_simulates [OF pre] quiet by auto
    then show ?thesis by (simp add: simulates_def S'_eq st)
  qed
qed

lemma reachable_simulates:
  "server_reachable S \<Longrightarrow> \<exists>st. spec_steps (Awaiting_greeting, []) st \<and> implements S st"
proof (induction rule: server_reachable.induct)
  case start
  have "implements server_start (Awaiting_greeting, [])"
    by (simp add: server_start_def)
  then show ?case by blast
next
  case (step S S')
  then show ?case
    using step_simulates [OF server_reachable_inv [OF step(1)] step(2)] by (meson rtranclp_trans)
qed

section \<open>Properties\<close>

text \<open>
  C7 (server_refines_spec).  A connection of the server implements the specification of a SOCKS
  server: whatever it has done, the specification can get, from its start and by its own rules,
  to a phase that fits every operation the connection has in flight, with messages whose
  encodings, one after the other, are the bytes the connection has sent the client.
\<close>
theorem server_refines_spec:
  assumes "server_reachable S"
  shows "\<exists>p ms. spec_step\<^sup>*\<^sup>* (Awaiting_greeting, []) (p, ms)
    \<and> s_sent S = concat (map encode ms)
    \<and> (if s_ops S = [] then p = Ended else \<forall>opn \<in> set (s_ops S). phase_ok opn (s_conn S) p)"
  using reachable_simulates [OF assms] by (auto simp: implements_def encode_all_def)

theorem server_refines_spec_witness:
  "\<exists>ms. spec_step\<^sup>*\<^sup>* (Awaiting_greeting, []) (Relaying, ms)
    \<and> [4, 90, 0, 0, 0, 0, 0, 0] = concat (map encode ms)"
proof -
  have ops: "s_ops demo_relay = [Read_client, Read_target]"
    and sent: "s_sent demo_relay = [4, 90, 0, 0, 0, 0, 0, 0]" by (simp_all add: demo_relay_def)
  from server_refines_spec [OF demo_reachable] show ?thesis by (auto simp: ops sent)
qed

end
