(* ===== verification/Server_Grant.thy ===== *)
theory Server_Grant
  imports Server_Spec
begin

text \<open>
  What has happened before a connection of the server relays.  The invariant is about the
  history of a run: the operations that have completed, with their outcomes.  A granting reply is
  being written only right after a connect to the target that succeeded, and data is relayed only
  behind such a connect and such a write.
\<close>

section \<open>The history of a run\<close>

text \<open>The last event is a connect to the target that succeeded, and gave the socket its endpoint.\<close>

definition just_connected :: "op \<Rightarrow> (op \<times> outcome) list \<Rightarrow> connection \<Rightarrow> bool" where
  "just_connected opn es c \<longleftrightarrow>
     (\<exists>es1 ep ec. es = es1 @ [(opn, Connect_done (Some ep) ec)] \<and> \<not> failed ec
        \<and> c_target_local c = Some ep)"

text \<open>Such a connect, and then the write of the reply, both without an error.\<close>

definition has_granted :: "(op \<times> outcome) list \<Rightarrow> connection \<Rightarrow> bool" where
  "has_granted es c \<longleftrightarrow>
     (\<exists>x y es1 es2 ep ec k ec'. (x, y) \<in> {(Connect_target, Write_reply), (Connect_target_v4, Write_reply_v4)}
        \<and> es = es1 @ [(x, Connect_done (Some ep) ec), (y, Write_done k ec')] @ es2
        \<and> \<not> failed ec \<and> \<not> failed ec' \<and> c_target_local c = Some ep)"

definition history_ok :: "(op \<times> outcome) list \<Rightarrow> server_state \<Rightarrow> bool" where
  "history_ok es S \<longleftrightarrow>
     (Write_reply \<in> set (s_ops S) \<and> get_byte (c_buffer (s_conn S)) 1 = Inr 0
        \<longrightarrow> just_connected Connect_target es (s_conn S))
     \<and> (Write_reply_v4 \<in> set (s_ops S) \<and> get_byte (c_buffer (s_conn S)) 1 = Inr 90
        \<longrightarrow> just_connected Connect_target_v4 es (s_conn S))
     \<and> (\<forall>opn \<in> set (s_ops S). upstream opn \<or> downstream opn \<longrightarrow> has_granted es (s_conn S))"

lemma has_granted_later:
  assumes "has_granted es c" and "c_target_local c' = c_target_local c"
  shows "has_granted (es @ [e]) c'"
proof -
  from assms(1) obtain x y es1 es2 ep ec k ec' where
    h: "(x, y) \<in> {(Connect_target, Write_reply), (Connect_target_v4, Write_reply_v4)}"
      "es = es1 @ [(x, Connect_done (Some ep) ec), (y, Write_done k ec')] @ es2"
      "\<not> failed ec" "\<not> failed ec'" "c_target_local c = Some ep"
    unfolding has_granted_def by blast
  then have "es @ [e] = es1 @ [(x, Connect_done (Some ep) ec), (y, Write_done k ec')] @ (es2 @ [e])"
    by simp
  with h assms(2) show ?thesis unfolding has_granted_def by metis
qed

lemma has_granted_written:
  "just_connected Connect_target es c \<Longrightarrow> c_target_local c' = c_target_local c \<Longrightarrow> \<not> failed ec
    \<Longrightarrow> has_granted (es @ [(Write_reply, Write_done k ec)]) c'"
  "just_connected Connect_target_v4 es c \<Longrightarrow> c_target_local c' = c_target_local c \<Longrightarrow> \<not> failed ec
    \<Longrightarrow> has_granted (es @ [(Write_reply_v4, Write_done k ec)]) c'"
  unfolding just_connected_def has_granted_def by fastforce+

section \<open>The handlers\<close>

lemma history_quiet:
  assumes "starts X m" and "m = Inr (c', new)"
    and "\<forall>opn \<in> X. \<not> upstream opn \<and> \<not> downstream opn \<and> opn \<notin> {Write_reply, Write_reply_v4}"
  shows "history_ok es \<lparr>s_conn = c', s_ops = new, s_sent = out\<rparr>"
proof -
  have "opn \<in> X" if "opn \<in> set new" for opn using assms(1,2) that by auto
  with assms(3) show ?thesis unfolding history_ok_def by fastforce
qed

lemma on_connected_history:
  assumes "on_connected ec (c\<lparr>c_target_local := l\<rparr>) = Inr (c', new)" and "\<not> failed ec \<longrightarrow> l \<noteq> None"
  shows "history_ok (es @ [(Connect_target, Connect_done l ec)]) \<lparr>s_conn = c', s_ops = new, s_sent = out\<rparr>"
proof (cases l)
  case None
  with assms show ?thesis
    by (simp add: on_connected_def refuse_def fail_def do_connect_reply_closed split: if_splits)
next
  case (Some ep)
  show ?thesis
  proof (cases "failed ec")
    case True
    with assms(1) Some show ?thesis
      by (auto simp: on_connected_def refuse_def fail_def do_connect_reply_open history_ok_def
          connect_reply_bytes_def)
  next
    case False
    with assms(1) Some show ?thesis
      by (auto simp: on_connected_def do_connect_reply_open history_ok_def just_connected_def)
  qed
qed

lemma on_connected_v4_history:
  assumes "on_connected_v4 ec (c\<lparr>c_target_local := l\<rparr>) = Inr (c', new)" and "\<not> failed ec \<longrightarrow> l \<noteq> None"
  shows "history_ok (es @ [(Connect_target_v4, Connect_done l ec)]) \<lparr>s_conn = c', s_ops = new, s_sent = out\<rparr>"
proof (cases l)
  case None
  with assms show ?thesis
    by (simp add: on_connected_v4_def refuse_v4_def fail_def do_connect_reply_closed split: if_splits)
next
  case (Some ep)
  show ?thesis
  proof (cases "failed ec")
    case True
    with assms(1) Some show ?thesis
      by (auto simp: on_connected_v4_def refuse_v4_def fail_def do_connect_reply_v4_open history_ok_def
          connect_reply_v4_bytes_def)
  next
    case False
    with assms(1) Some show ?thesis
      by (auto simp: on_connected_v4_def do_connect_reply_v4_open history_ok_def just_connected_def)
  qed
qed

lemma do_relay_history:
  assumes "has_granted es c" and "do_relay c = Inr (c', new)"
  shows "history_ok es \<lparr>s_conn = c', s_ops = new, s_sent = out\<rparr>"
proof -
  from assms(2) have "c_target_local c' = c_target_local c" and "new = [Read_client, Read_target]"
    by (auto simp: do_relay_def do_relay_from_client_def do_relay_from_target_def)
  with assms(1) show ?thesis by (simp add: history_ok_def has_granted_def)
qed

lemma history_Nil [simp]: "history_ok es \<lparr>s_conn = c, s_ops = [], s_sent = out\<rparr>"
  by (simp add: history_ok_def)

lemma on_reply_written_history:
  assumes "history_ok es \<lparr>s_conn = c, s_ops = [Write_reply], s_sent = out\<rparr>"
    and "on_reply_written ec c = Inr (c', new)"
  shows "history_ok (es @ [(Write_reply, Write_done k ec)]) \<lparr>s_conn = c', s_ops = new, s_sent = out'\<rparr>"
proof (cases "failed ec \<or> get_byte (c_buffer c) 1 \<noteq> Inr 0")
  case True
  with assms(2) show ?thesis
    by (cases "get_byte (c_buffer c) 1") (auto simp: on_reply_written_def stop_with_def split: if_splits)
next
  case False
  then have "has_granted (es @ [(Write_reply, Write_done k ec)]) c"
    using assms(1) by (intro has_granted_written(1)) (simp_all add: history_ok_def)
  with False assms(2) show ?thesis by (simp add: on_reply_written_def do_relay_history)
qed

lemma on_reply_v4_written_history:
  assumes "history_ok es \<lparr>s_conn = c, s_ops = [Write_reply_v4], s_sent = out\<rparr>"
    and "get_byte (c_buffer c) 0 = Inr 4" and "on_reply_v4_written ec c = Inr (c', new)"
  shows "history_ok (es @ [(Write_reply_v4, Write_done k ec)]) \<lparr>s_conn = c', s_ops = new, s_sent = out'\<rparr>"
proof (cases "failed ec \<or> get_byte (c_buffer c) 1 \<noteq> Inr 90")
  case True
  with assms(2,3) show ?thesis
    by (cases "get_byte (c_buffer c) 1") (auto simp: on_reply_v4_written_def stop_with_def split: if_splits)
next
  case False
  then have "has_granted (es @ [(Write_reply_v4, Write_done k ec)]) c"
    using assms(1) by (intro has_granted_written(2)) (simp_all add: history_ok_def)
  with False assms(2,3) show ?thesis by (simp add: on_reply_v4_written_def do_relay_history)
qed


section \<open>The invariant\<close>

lemma history_single:
  assumes "history_ok es \<lparr>s_conn = c, s_ops = [opn], s_sent = out\<rparr>" and "single_ok opn c out"
    and "allowed opn res c" and "handle opn res c = Inr (c', new)"
  shows "history_ok (es @ [(opn, res)]) \<lparr>s_conn = c', s_ops = new, s_sent = out'\<rparr>"
  using assms(3)
proof (cases "(opn, res, c)" rule: allowed.cases)
  case (1 buf n ec c)
  with assms on_greeting_starts [of "c\<lparr>c_buffer := buf\<rparr>" ec n] show ?thesis
    by (intro history_quiet [of "{Write_choice, Connect_target_v4}"]) auto
next
  case (2 k ec c)
  with assms(4) show ?thesis
    by (auto simp: on_choice_written_def do_userpass_greet_def do_read_connect_request_def
        stop_with_def history_ok_def split: if_splits)
next
  case (3 buf n ec c)
  with assms on_userpass_starts [of ec n "c\<lparr>c_buffer := buf\<rparr>"] show ?thesis
    by (intro history_quiet [of "{Write_userpass_reply}"]) auto
next
  case (4 k ec c)
  with assms(4) show ?thesis
    by (auto simp: on_userpass_reply_written_def do_read_connect_request_def
        stop_with_def history_ok_def split: if_splits)
next
  case (5 buf n ec c)
  with assms on_request_starts [of "c\<lparr>c_buffer := buf\<rparr>" ec n] show ?thesis
    by (intro history_quiet [of "insert Connect_target resolves"]) (auto simp: resolves_def)
next
  case (6 host service eps ec c)
  with assms on_resolved_starts [of c ec eps] show ?thesis
    by (intro history_quiet [of "{Connect_target}"]) auto
next
  case (7 l ec c)
  with assms show ?thesis by (auto intro: on_connected_history)
next
  case (8 l ec c)
  with assms show ?thesis by (auto intro: on_connected_v4_history)
next
  case (9 k ec c)
  with assms show ?thesis by (auto intro: on_reply_written_history)
next
  case (10 k ec c)
  with assms(2) have "get_byte (c_buffer c) 0 = Inr 4" by (auto simp: connect_reply_v4_bytes_def)
  with 10 assms show ?thesis by (auto intro: on_reply_v4_written_history)
qed (use assms(2) in auto)

lemma history_relay:
  assumes "relay_ok (s_conn S) (s_ops S) (s_sent S)" and "history_ok es S" and "opn \<in> set (s_ops S)"
    and "complete opn res S = Inr S'"
  shows "history_ok (es @ [(opn, res)]) S'"
proof -
  have dir: "upstream opn \<or> downstream opn" using assms(1,3) by (auto simp: relay_ok_def)
  with assms(2,3) have "has_granted es (s_conn S)" by (auto simp: history_ok_def)
  moreover have "c_target_local (s_conn S') = c_target_local (s_conn S)"
    using relay_handle [OF dir, of res "s_conn S"] assms(4) by (auto simp: complete_def)
  moreover obtain T where "complete opn res S = Inr T" "relay_ok (s_conn T) (s_ops T) (s_sent T)"
    by (rule relay_step_ok [OF assms(1,3)])
  then have "\<forall>opn \<in> set (s_ops S'). upstream opn \<or> downstream opn"
    using assms(4) by (auto simp: relay_ok_def)
  then have "Write_reply \<notin> set (s_ops S')" "Write_reply_v4 \<notin> set (s_ops S')" by auto
  ultimately show ?thesis using has_granted_later by (auto simp: history_ok_def)
qed

lemma history_step:
  assumes "server_inv S" and "history_ok es S" and "opn \<in> set (s_ops S)"
    and "allowed opn res (s_conn S)" and "complete opn res S = Inr S'"
  shows "history_ok (es @ [(opn, res)]) S'"
proof (cases "relay_ok (s_conn S) (s_ops S) (s_sent S)")
  case True
  with assms(2,3,5) show ?thesis by (blast intro: history_relay)
next
  case False
  with assms(1,3) have ops: "s_ops S = [opn]" and ok: "single_ok opn (s_conn S) (s_sent S)"
    by (auto simp: server_inv_def ops_ok_def)
  from assms(2) have "history_ok es \<lparr>s_conn = s_conn S, s_ops = [opn], s_sent = s_sent S\<rparr>"
    by (simp add: history_ok_def ops)
  with assms(4,5) ok show ?thesis
    by (auto simp: complete_def res_bind_eq_Inr ops intro!: history_single)
qed

lemma history_run:
  "server_run S es' S' \<Longrightarrow> server_inv S \<Longrightarrow> history_ok es S \<Longrightarrow> history_ok (es @ es') S'"
proof (induction arbitrary: es rule: server_run.induct)
  case (step opn S res S1 es' S')
  have "server_inv S1"
    using res_post_InrD [OF server_step_post [OF step.prems(1) step.hyps(1,2)] step.hyps(3)] .
  moreover have "history_ok (es @ [(opn, res)]) S1" using step history_step by blast
  ultimately show ?case using step.IH [of "es @ [(opn, res)]"] by simp
qed simp

lemma server_run_history: "server_run server_start es S \<Longrightarrow> history_ok es S"
  using history_run [of server_start es S "[]"] server_start_inv
  by (simp add: history_ok_def server_start_def)

section \<open>Properties\<close>

text \<open>
  C6 (relay_only_after_grant).  A connection relays data only after its connect to the target has
  succeeded, and the write of the reply, right behind it, has succeeded too: in every run, from
  the start, of which an operation of the relay is in flight at the end, both events are in the
  history.  The client has then been sent a whole successful reply with the local endpoint that
  this connect gave the target socket: behind the choice of method 0 or the accepted method 2 for
  SOCKS5, as the first message for SOCKS4.  In each direction at most one operation is in flight,
  so the two directions never share a buffer.
\<close>
theorem relay_only_after_grant:
  assumes "server_run server_start es S" and "opn \<in> set (s_ops S)" and "upstream opn \<or> downstream opn"
  shows "\<exists>ep ec ec' k es1 es2. \<not> failed ec \<and> \<not> failed ec'
    \<and> (es = es1 @ [(Connect_target, Connect_done (Some ep) ec), (Write_reply, Write_done k ec')] @ es2
       \<or> es = es1 @ [(Connect_target_v4, Connect_done (Some ep) ec),
            (Write_reply_v4, Write_done k ec')] @ es2)
    \<and> c_target_local (s_conn S) = Some ep
    \<and> (prefix ([0x05, 0x00] @ connect_reply_bytes 0 ep) (s_sent S)
       \<or> prefix ([0x05, 0x02, 0x01, 0x00] @ connect_reply_bytes 0 ep) (s_sent S)
       \<or> prefix (connect_reply_v4_bytes 4 90 (v4_or_zero (ep_address ep)) (ep_port ep)) (s_sent S))
    \<and> length (filter upstream (s_ops S)) \<le> 1 \<and> length (filter downstream (s_ops S)) \<le> 1"
proof -
  have "\<not> single_ok opn c out" for c out using assms(3) by (cases opn) simp_all
  with server_reachable_inv [OF server_run_reachable [OF assms(1) server_reachable.start]] assms(2)
  have ok: "relay_ok (s_conn S) (s_ops S) (s_sent S)" by (auto simp: server_inv_def ops_ok_def)
  have "has_granted es (s_conn S)"
    using server_run_history [OF assms(1)] assms(2,3) by (auto simp: history_ok_def)
  then obtain x y es1 es2 ep ec k ec' where
    h: "(x, y) \<in> {(Connect_target, Write_reply), (Connect_target_v4, Write_reply_v4)}"
      "es = es1 @ [(x, Connect_done (Some ep) ec), (y, Write_done k ec')] @ es2"
      "\<not> failed ec" "\<not> failed ec'" "c_target_local (s_conn S) = Some ep"
    unfolding has_granted_def by blast
  from h(1,2) have events: "es = es1 @ [(Connect_target, Connect_done (Some ep) ec), (Write_reply, Write_done k ec')] @ es2
      \<or> es = es1 @ [(Connect_target_v4, Connect_done (Some ep) ec), (Write_reply_v4, Write_done k ec')] @ es2"
    by blast
  have sent: "prefix ([0x05, 0x00] @ connect_reply_bytes 0 ep) (s_sent S)
       \<or> prefix ([0x05, 0x02, 0x01, 0x00] @ connect_reply_bytes 0 ep) (s_sent S)
       \<or> prefix (connect_reply_v4_bytes 4 90 (v4_or_zero (ep_address ep)) (ep_port ep)) (s_sent S)"
    using ok h(5) unfolding relay_ok_def granted_def greeted_def by fastforce
  have few: "length (filter upstream (s_ops S)) \<le> 1" "length (filter downstream (s_ops S)) \<le> 1"
    using ok by (simp_all add: relay_ok_def)
  show ?thesis
    by (intro exI [of _ ep] exI [of _ ec] exI [of _ ec'] exI [of _ k] exI [of _ es1] exI [of _ es2]
        conjI h(3-5) events sent few)
qed

theorem relay_only_after_grant_witness:
  "\<exists>ep ec. (Connect_target_v4, Connect_done (Some ep) ec) \<in> set demo_events
    \<and> \<not> failed ec \<and> c_target_local (s_conn demo_relay) = Some ep"
proof -
  have start: "Read_client \<in> set (s_ops demo_relay)" "upstream Read_client \<or> downstream Read_client"
    by (simp_all add: demo_relay_def)
  from relay_only_after_grant [OF demo_run start] obtain ep ec ec' k es1 es2 where
    ok: "\<not> failed ec" "c_target_local (s_conn demo_relay) = Some ep"
    and "demo_events = es1 @ [(Connect_target, Connect_done (Some ep) ec), (Write_reply, Write_done k ec')] @ es2
      \<or> demo_events = es1 @ [(Connect_target_v4, Connect_done (Some ep) ec), (Write_reply_v4, Write_done k ec')] @ es2"
    by blast
  then have "(Connect_target, Connect_done (Some ep) ec) \<in> set demo_events
      \<or> (Connect_target_v4, Connect_done (Some ep) ec) \<in> set demo_events"
    unfolding append_Cons by (metis in_set_conv_decomp)
  moreover have "(Connect_target, Connect_done (Some ep) ec) \<notin> set demo_events"
    by (simp add: demo_events_def)
  ultimately show ?thesis using ok by blast
qed

end
