(* ===== verification/Server_Progress.thy ===== *)
theory Server_Progress
  imports Handshake Server_Spec
begin

text \<open>
  The negotiation of a connection ends: every handler of it starts only operations of a smaller
  rank, until the connection relays or has nothing in flight.
\<close>

section \<open>The rank of an operation\<close>

text \<open>How many more handlers the negotiation can take with this operation in flight.\<close>

fun op_rank :: "op \<Rightarrow> nat" where
  "op_rank Read_greeting = 8"
| "op_rank Write_choice = 7"
| "op_rank Read_userpass = 6"
| "op_rank Write_userpass_reply = 5"
| "op_rank Read_request = 4"
| "op_rank (Resolve host service) = 3"
| "op_rank Connect_target = 2"
| "op_rank Write_reply = 1"
| "op_rank Connect_target_v4 = 2"
| "op_rank Write_reply_v4 = 1"
| "op_rank _ = 0"

lemma op_rank_0_iff [simp]: "op_rank opn = 0 \<longleftrightarrow> upstream opn \<or> downstream opn"
  by (cases opn) simp_all

lemma op_rank_resolves: "opn \<in> resolves \<Longrightarrow> op_rank opn = 3"
  by (auto simp: resolves_def)

text \<open>What the writes of the negotiation start.\<close>

lemma written_starts:
  "starts {Read_userpass, Read_request} (on_choice_written ec c)"
  "starts {Read_request} (on_userpass_reply_written ec c)"
  by (auto simp: on_choice_written_def on_userpass_reply_written_def do_userpass_greet_def
      do_read_connect_request_def)

lemma reply_written_relays:
  "on_reply_written ec c = Inr (c', new) \<Longrightarrow> set new \<subseteq> {Read_client, Read_target}"
  "on_reply_v4_written ec c = Inr (c', new) \<Longrightarrow> set new \<subseteq> {Read_client, Read_target}"
  by (auto simp: on_reply_written_def on_reply_v4_written_def stop_with_def do_relay_def
      do_relay_from_client_def do_relay_from_target_def res_bind_eq_Inr split: if_splits)

lemma starts_rank:
  "starts X m \<Longrightarrow> m = Inr (c', new) \<Longrightarrow> (\<And>opn. opn \<in> X \<Longrightarrow> op_rank opn < r)
    \<Longrightarrow> opn' \<in> set new \<Longrightarrow> op_rank opn' < r"
  by auto

lemma handler_rank:
  assumes "single_ok opn c out" and "allowed opn res c" and "handle opn res c = Inr (c', new)"
    and "opn' \<in> set new"
  shows "op_rank opn' < op_rank opn"
  using assms
proof (cases "(opn, res, c)" rule: allowed.cases)
  case (1 buf n ec c)
  with assms show ?thesis by (intro starts_rank [OF on_greeting_starts _ _ assms(4)]) auto
next
  case (2 k ec c)
  with assms show ?thesis by (intro starts_rank [OF written_starts(1) _ _ assms(4)]) auto
next
  case (3 buf n ec c)
  with assms show ?thesis by (intro starts_rank [OF on_userpass_starts _ _ assms(4)]) auto
next
  case (4 k ec c)
  with assms show ?thesis by (intro starts_rank [OF written_starts(2) _ _ assms(4)]) auto
next
  case (5 buf n ec c)
  with assms show ?thesis
    by (intro starts_rank [OF on_request_starts _ _ assms(4)]) (auto simp: op_rank_resolves)
next
  case (6 host service eps ec c)
  with assms show ?thesis by (intro starts_rank [OF on_resolved_starts _ _ assms(4)]) auto
next
  case (7 l ec c)
  with assms show ?thesis by (intro starts_rank [OF on_connected_starts(1) _ _ assms(4)]) auto
next
  case (8 l ec c)
  with assms show ?thesis by (intro starts_rank [OF on_connected_starts(2) _ _ assms(4)]) auto
next
  case (9 k ec c)
  with assms reply_written_relays(1) [of ec c c' new] show ?thesis by auto
next
  case (10 k ec c)
  with assms reply_written_relays(2) [of ec c c' new] show ?thesis by auto
qed auto

section \<open>Runs\<close>

definition ranked :: "nat \<Rightarrow> server_state \<Rightarrow> bool" where
  "ranked r S \<longleftrightarrow> server_inv S \<and> (\<forall>opn \<in> set (s_ops S). op_rank opn \<le> r)"

lemma ranked_step:
  assumes "ranked r S" and "opn \<in> set (s_ops S)" and "allowed opn res (s_conn S)"
    and "complete opn res S = Inr S'"
  shows "ranked (r - 1) S'"
proof -
  from assms(1) have inv: "server_inv S" by (simp add: ranked_def)
  from server_step_post [OF this assms(2,3)] assms(4) have inv': "server_inv S'" by simp
  show ?thesis
  proof (cases "relay_ok (s_conn S) (s_ops S) (s_sent S)")
    case True
    from relay_step_ok [OF this assms(2), of res] assms(4)
    have "relay_ok (s_conn S') (s_ops S') (s_sent S')" by auto
    then have "\<forall>opn' \<in> set (s_ops S'). op_rank opn' \<le> r - 1"
      by (metis le0 op_rank_0_iff relay_ok_def)
    with inv' show ?thesis by (simp add: ranked_def)
  next
    case False
    with inv assms(2) have ops: "s_ops S = [opn]" and ok: "single_ok opn (s_conn S) (s_sent S)"
      by (auto simp: server_inv_def ops_ok_def)
    from assms(4) ops obtain c' where "handle opn res (s_conn S) = Inr (c', s_ops S')"
      by (auto simp: complete_def res_bind_eq_Inr)
    from handler_rank [OF ok assms(3) this] assms(1) ops have "\<forall>opn' \<in> set (s_ops S'). op_rank opn' < r"
      by (force simp: ranked_def)
    with inv' show ?thesis by (auto simp: ranked_def)
  qed
qed

lemma ranked_run: "server_run S es S' \<Longrightarrow> ranked r S \<Longrightarrow> ranked (r - length es) S'"
proof (induction arbitrary: r rule: server_run.induct)
  case (step opn S res S1 es S')
  from step.IH [OF ranked_step [OF step.prems step.hyps(1-3)]] show ?case by simp
qed simp

lemma server_start_ranked: "ranked 8 server_start"
  using server_start_inv by (simp add: ranked_def server_start_def)

section \<open>Properties\<close>

text \<open>
  C8 (server_negotiation_ends).  Whatever the client sends and however the operations fail, the
  negotiation of a connection is at most eight handlers long (greeting, method, credentials,
  their answer, request, resolution, connect, reply): after eight completed operations the
  connection relays in both directions or in what is left of them, or has nothing in flight.
  Before that, while it negotiates, exactly one operation is in flight, which leaves at most
  the handlers of its rank.
\<close>
theorem server_negotiation_ends:
  assumes "server_run server_start es S"
  shows "(8 \<le> length es \<longrightarrow> (\<forall>opn \<in> set (s_ops S). upstream opn \<or> downstream opn))
    \<and> ((\<forall>opn \<in> set (s_ops S). upstream opn \<or> downstream opn)
      \<or> (\<exists>opn. s_ops S = [opn] \<and> length es + op_rank opn \<le> 8))"
proof -
  have ranked: "ranked (8 - length es) S" by (rule ranked_run [OF assms server_start_ranked])
  have "ops_ok (s_conn S) (s_ops S) (s_sent S)" using ranked by (simp add: ranked_def server_inv_def)
  then consider "\<forall>opn \<in> set (s_ops S). upstream opn \<or> downstream opn" | opn where "s_ops S = [opn]"
    by (auto simp: ops_ok_def relay_ok_def)
  then show ?thesis
  proof cases
    case (2 opn)
    then have le: "op_rank opn \<le> 8 - length es" using ranked by (simp add: ranked_def)
    show ?thesis
    proof (cases "upstream opn \<or> downstream opn")
      case False
      then have "0 < op_rank opn" using op_rank_0_iff [of opn] by (simp del: op_rank_0_iff)
      with le have "length es + op_rank opn \<le> 8" and "\<not> 8 \<le> length es" by linarith+
      with 2 show ?thesis by simp
    qed (simp add: 2)
  qed simp
qed

theorem server_negotiation_ends_witness:
  "\<exists>S. server_run server_start
      (handshake (To_domain \<lparr>de_domain = ''a.b'', de_port = 80\<rparr>) [demo_target] endpoint_default
        @ [(Read_client, Read_done (7 # replicate 1023 0) 1 ec_ok), (Write_target, Write_done 1 ec_ok)]) S
    \<and> (upstream (last (s_ops S)) \<or> downstream (last (s_ops S)))"
proof -
  let ?t = "To_domain \<lparr>de_domain = ''a.b'', de_port = 80\<rparr>"
  let ?granted = "handshake_end ?t [demo_target] endpoint_default"
  let ?es = "[(Read_client, Read_done (7 # replicate 1023 0) 1 ec_ok), (Write_target, Write_done 1 ec_ok)]"
  let ?S = "?granted\<lparr>s_conn := (s_conn ?granted)\<lparr>c_buffer := vec_resize 1024 [7]\<rparr>,
    s_ops := [Read_target, Read_client]\<rparr>"
  let ?reading = "?granted\<lparr>s_conn := (s_conn ?granted)\<lparr>c_buffer := [7]\<rparr>, s_ops := [Read_target, Write_target]\<rparr>"
  have c1: "complete Read_client (Read_done (7 # replicate 1023 0) 1 ec_ok) ?granted = Inr ?reading"
    by (simp add: complete_def handshake_end_def on_client_read_def do_relay_to_target_def)
  have c2: "complete Write_target (Write_done 1 ec_ok) ?reading = Inr ?S"
    by (simp add: complete_def handshake_end_def on_target_written_def do_relay_from_client_def)
  have relayed: "server_run ?granted ?es ?S"
    by (rule server_run.step [OF _ _ c1 server_run.step [OF _ _ c2 server_run.stay]])
      (simp_all add: handshake_end_def)
  have "server_run server_start (handshake ?t [demo_target] endpoint_default) ?granted"
    by (rule handshake_run) simp
  note run = server_run_append [OF this relayed]
  have "length (handshake ?t [demo_target] endpoint_default @ ?es) = 8"
    by (simp add: handshake_def opening_ops_def)
  with server_negotiation_ends [OF run] have "upstream (last (s_ops ?S)) \<or> downstream (last (s_ops ?S))"
    by simp
  with run show ?thesis by blast
qed

end
