(* ===== verification/Server_Bounds.thy ===== *)
theory Server_Bounds
  imports Server_Machine
begin

text \<open>
  What a connection of the server holds, whatever its client sends: two vectors of at most 1024
  bytes and a method code that is one of three.  The invariant is about the data alone and
  holds for every handler, in whatever order the handlers run.
\<close>

definition conn_typed :: "connection \<Rightarrow> bool" where
  "conn_typed c \<longleftrightarrow> length (c_buffer c) \<le> 1024 \<and> length (c_target_buffer c) \<le> 1024
     \<and> c_server_choice c \<in> {0x00, 0x02, 0xFF}"

lemma conn_typed_updates [simp]:
  "conn_typed (c\<lparr>c_target := t\<rparr>) = conn_typed c"
  "conn_typed (c\<lparr>c_target_local := l\<rparr>) = conn_typed c"
  "conn_typed (c\<lparr>c_closed := b\<rparr>) = conn_typed c"
  "conn_typed (c\<lparr>c_log := xs\<rparr>) = conn_typed c"
  "conn_typed (fail ec what c) = conn_typed c"
  by (simp_all add: conn_typed_def fail_def)

lemma conn_typed_buffers [simp]:
  "conn_typed c \<Longrightarrow> conn_typed (c\<lparr>c_buffer := buf\<rparr>) \<longleftrightarrow> length buf \<le> 1024"
  "conn_typed c \<Longrightarrow> conn_typed (c\<lparr>c_target_buffer := buf\<rparr>) \<longleftrightarrow> length buf \<le> 1024"
  by (simp_all add: conn_typed_def)

section \<open>The handlers\<close>

definition typed :: "handler \<Rightarrow> bool" where
  "typed m = res_post (\<lambda>_. True) (\<lambda>(c, ops). conn_typed c) m"

lemma typed_simps [simp]:
  "typed (Inl e)" "typed (Inr (c, ops)) \<longleftrightarrow> conn_typed c"
  "typed (stop_with ec what c) \<longleftrightarrow> conn_typed c"
  by (simp_all add: typed_def stop_with_def)

lemma typed_bind: "(\<And>x. m = Inr x \<Longrightarrow> typed (f x)) \<Longrightarrow> typed (res_bind m f)"
  by (cases m) simp_all

lemma length_reply_v4 [simp]: "length (connect_reply_v4_bytes v rep ip port) = 8"
  by (simp add: connect_reply_v4_bytes_def)

lemma do_connect_reply_typed:
  assumes "conn_typed c"
  shows "typed (do_connect_reply rep c)" and "typed (do_connect_reply_v4 rep c)"
  using assms
  by (cases "c_target_local c";
      auto simp: do_connect_reply_closed do_connect_reply_open do_connect_reply_v4_open
        length_connect_reply_bytes)+

lemma refuse_typed:
  "conn_typed c \<Longrightarrow> typed (refuse ec what rep c)"
  "conn_typed c \<Longrightarrow> typed (refuse_v4 ec what rep c)"
  by (simp_all add: refuse_def refuse_v4_def do_connect_reply_typed)

lemma parse_greeting_typed:
  assumes "conn_typed c"
  shows "typed (parse_socks_greeting c)" and "typed (parse_socks_connect_v4 c)"
  using assms
  by (auto simp: parse_socks_greeting_def parse_socks_connect_v4_def do_server_choice_def
      do_target_connect_v4_def refuse_typed intro!: typed_bind)
    (auto simp: conn_typed_def)

lemma parse_userpass_greeting_typed: "conn_typed c \<Longrightarrow> typed (parse_userpass_greeting c)"
  by (auto simp: parse_userpass_greeting_def Let_def conn_typed_def intro!: typed_bind)

lemma parse_socks_connect_typed: "conn_typed c \<Longrightarrow> typed (parse_socks_connect c)"
  by (auto simp: parse_socks_connect_def parse_connect_v4_address_def parse_connect_v6_address_def
      parse_connect_domain_def do_target_connect_def refuse_typed intro!: typed_bind)

lemmas start_defs = do_userpass_greet_def do_read_connect_request_def do_relay_def
  do_relay_from_client_def do_relay_from_target_def do_relay_to_target_def do_relay_to_client_def
  do_target_connect_def

lemma read_handlers_typed:
  assumes "conn_typed c" and "length (c_buffer c) \<le> 1024" and "n \<le> length (c_buffer c)"
  shows "typed (on_greeting ec n c)" and "typed (on_userpass ec n c)" and "typed (on_request ec n c)"
    and "typed (on_client_read ec n c)"
proof -
  have "conn_typed (c\<lparr>c_buffer := take n (c_buffer c)\<rparr>)" using assms by auto
  with assms show "typed (on_greeting ec n c)" "typed (on_userpass ec n c)" "typed (on_request ec n c)"
    "typed (on_client_read ec n c)"
    by (auto simp: on_greeting_def on_userpass_def on_request_def on_client_read_def Let_def start_defs
        intro!: typed_bind parse_greeting_typed parse_userpass_greeting_typed parse_socks_connect_typed)
qed

lemma other_handlers_typed:
  assumes "conn_typed c"
  shows "typed (on_choice_written ec c)" and "typed (on_userpass_reply_written ec c)"
    and "typed (on_resolved ec eps c)" and "typed (on_connected ec c)" and "typed (on_connected_v4 ec c)"
    and "typed (on_reply_written ec c)" and "typed (on_reply_v4_written ec c)"
    and "typed (on_target_written ec c)" and "typed (on_client_written ec c)"
  using assms
  by (auto simp: on_choice_written_def on_userpass_reply_written_def on_resolved_def on_connected_def
      on_connected_v4_def on_reply_written_def on_reply_v4_written_def on_target_written_def
      on_client_written_def start_defs refuse_typed do_connect_reply_typed
      intro!: typed_bind split: list.split)

lemma on_target_read_typed:
  "conn_typed c \<Longrightarrow> n \<le> length (c_target_buffer c) \<Longrightarrow> typed (on_target_read ec n c)"
  by (auto simp: on_target_read_def do_relay_to_client_def conn_typed_def)

lemma handle_typed:
  assumes "conn_typed c" and "allowed opn res c"
  shows "typed (handle opn res c)"
proof -
  have buf: "conn_typed (c\<lparr>c_buffer := b\<rparr>) \<and> length b \<le> 1024" if "length b = length (c_buffer c)" for b
    using that assms(1) by (simp add: conn_typed_def)
  have tbuf: "conn_typed (c\<lparr>c_target_buffer := b\<rparr>)" if "length b = length (c_target_buffer c)" for b
    using that assms(1) by (simp add: conn_typed_def)
  have "length (c_target_buffer c) \<le> 1024" using assms(1) by (simp add: conn_typed_def)
  with assms show ?thesis
    by (cases "(opn, res, c)" rule: allowed.cases)
      (auto simp: read_done_def buf tbuf
        intro!: read_handlers_typed other_handlers_typed on_target_read_typed)
qed

lemma server_reachable_typed: "server_reachable S \<Longrightarrow> conn_typed (s_conn S)"
proof (induction rule: server_reachable.induct)
  case start
  show ?case by (simp add: server_start_def connection_new_def conn_typed_def)
next
  case (step S S')
  from step(2) show ?case
  proof (rule server_stepE)
    fix opn res
    assume "allowed opn res (s_conn S)" and c: "complete opn res S = Inr S'"
    from handle_typed [OF step(3) this(1)] c show ?thesis
      by (auto simp: complete_def res_bind_eq_Inr)
  qed
qed

lemma relay_ops_two:
  assumes "relay_ok c ops out"
  shows "length ops \<le> 2"
proof -
  have "\<not> upstream opn \<longrightarrow> downstream opn" if "opn \<in> set ops" for opn
    using that assms by (auto simp: relay_ok_def)
  then have "length (filter (\<lambda>opn. \<not> upstream opn) ops) \<le> length (filter downstream ops)"
    by (induction ops) auto
  moreover have "length ops = length (filter upstream ops) + length (filter (\<lambda>opn. \<not> upstream opn) ops)"
    by (rule sum_length_filter_compl [symmetric])
  ultimately show ?thesis using assms by (simp add: relay_ok_def)
qed

section \<open>Properties\<close>

text \<open>
  C5 (server_connection_typed).  Whatever a client sends and however its connection is served,
  the connection holds at most 1024 bytes in each of its two vectors, and its method code is 0,
  2 or 255; at most two operations are in flight.
\<close>
theorem server_connection_typed:
  assumes "server_reachable S"
  shows "length (c_buffer (s_conn S)) \<le> 1024 \<and> length (c_target_buffer (s_conn S)) \<le> 1024
    \<and> c_server_choice (s_conn S) \<in> {0x00, 0x02, 0xFF} \<and> length (s_ops S) \<le> 2"
proof -
  have "length (s_ops S) \<le> 2"
    using server_reachable_inv [OF assms] relay_ops_two by (auto simp: server_inv_def ops_ok_def)
  with server_reachable_typed [OF assms] show ?thesis by (simp add: conn_typed_def)
qed

theorem server_connection_typed_witness:
  "length (c_buffer (s_conn demo_relay)) \<le> 1024 \<and> length (s_ops demo_relay) \<le> 2"
  using server_connection_typed [OF demo_reachable] by simp

end
