(* ===== verification/Relay.thy ===== *)
theory Relay
  imports Server_Machine
begin

text \<open>
  The data a connection of the server relays.  \<open>traffic\<close> is the history of the two directions:
  what has been read from the client and written to the target, and the other way round.  It is
  a ghost that the runs of the step relation carry along; a direction is a buffer of one read
  between its two histories.
\<close>

section \<open>Histories\<close>

record traffic =
  t_from_client :: "byte list"
  t_to_target :: "byte list"
  t_from_target :: "byte list"
  t_to_client :: "byte list"

definition traffic_new :: traffic where
  "traffic_new = \<lparr>t_from_client = [], t_to_target = [], t_from_target = [], t_to_client = []\<rparr>"

text \<open>A read that fails delivers nothing to the handler; a write counts what it has taken.\<close>

fun observe :: "op \<Rightarrow> outcome \<Rightarrow> connection \<Rightarrow> traffic \<Rightarrow> traffic" where
  "observe Read_client (Read_done buf n ec) c T =
     (if failed ec then T else T\<lparr>t_from_client := t_from_client T @ take n buf\<rparr>)"
| "observe Write_target (Write_done k ec) c T =
     T\<lparr>t_to_target := t_to_target T @ take k (c_buffer c)\<rparr>"
| "observe Read_target (Read_done buf n ec) c T =
     (if failed ec then T else T\<lparr>t_from_target := t_from_target T @ take n buf\<rparr>)"
| "observe Write_client (Write_done k ec) c T =
     T\<lparr>t_to_client := t_to_client T @ take k (c_target_buffer c)\<rparr>"
| "observe _ _ c T = T"

text \<open>A relaying write that reports success has taken the whole buffer.\<close>

fun whole_write :: "op \<Rightarrow> outcome \<Rightarrow> connection \<Rightarrow> bool" where
  "whole_write Write_target (Write_done k ec) c \<longleftrightarrow> failed ec \<or> k = length (c_buffer c)"
| "whole_write Write_client (Write_done k ec) c \<longleftrightarrow> failed ec \<or> k = length (c_target_buffer c)"
| "whole_write _ _ c \<longleftrightarrow> True"

text \<open>Runs without short writes, with their histories.\<close>

inductive relay_run :: "server_state \<Rightarrow> traffic \<Rightarrow> server_state \<Rightarrow> traffic \<Rightarrow> bool" where
  stay: "relay_run S T S T"
| step: "relay_run S T S1 T1 \<Longrightarrow> opn \<in> set (s_ops S1) \<Longrightarrow> allowed opn res (s_conn S1)
    \<Longrightarrow> whole_write opn res (s_conn S1) \<Longrightarrow> complete opn res S1 = Inr S2
    \<Longrightarrow> relay_run S T S2 (observe opn res (s_conn S1) T1)"

section \<open>The invariant of a direction\<close>

text \<open>
  \<open>in_transit rd wr ops buf ins outs\<close>: \<open>rd\<close> reads into \<open>buf\<close> and \<open>wr\<close> writes it; what has come
  in and has not gone out is the buffer of the write in flight, and nothing while a read is.
\<close>

definition in_transit :: "op \<Rightarrow> op \<Rightarrow> op list \<Rightarrow> buffer \<Rightarrow> byte list \<Rightarrow> byte list \<Rightarrow> bool" where
  "in_transit rd wr ops buf ins outs \<longleftrightarrow> prefix outs ins
     \<and> (rd \<in> set ops \<longrightarrow> ins = outs) \<and> (wr \<in> set ops \<longrightarrow> ins = outs @ buf)"

definition relay_inv :: "server_state \<Rightarrow> traffic \<Rightarrow> bool" where
  "relay_inv S T \<longleftrightarrow> relay_ok (s_conn S) (s_ops S) (s_sent S)
     \<and> in_transit Read_client Write_target (s_ops S) (c_buffer (s_conn S))
         (t_from_client T) (t_to_target T)
     \<and> in_transit Read_target Write_client (s_ops S) (c_target_buffer (s_conn S))
         (t_from_target T) (t_to_client T)"

text \<open>The other direction: its operations and its buffer stay.\<close>

lemma in_transit_other:
  assumes "in_transit rd wr ops buf ins outs" and "set ops' \<inter> {rd, wr} \<subseteq> set ops"
  shows "in_transit rd wr ops' buf ins outs"
  using assms by (auto simp: in_transit_def)

text \<open>With at most one operation of a direction in flight, none is left when it completes.\<close>

lemma relay_up_alone:
  assumes "relay_ok c ops out" and "opn \<in> set ops" and "upstream opn"
  shows "Read_client \<notin> set (remove1 opn ops)" and "Write_target \<notin> set (remove1 opn ops)"
proof -
  have "length (filter upstream (remove1 opn ops)) = 0"
    using assms length_filter_remove1 [OF assms(2), of upstream] by (simp add: relay_ok_def)
  then show "Read_client \<notin> set (remove1 opn ops)" "Write_target \<notin> set (remove1 opn ops)"
    by (auto simp: filter_empty_conv)
qed

lemma relay_down_alone:
  assumes "relay_ok c ops out" and "opn \<in> set ops" and "downstream opn"
  shows "Read_target \<notin> set (remove1 opn ops)" and "Write_client \<notin> set (remove1 opn ops)"
proof -
  have "length (filter downstream (remove1 opn ops)) = 0"
    using assms length_filter_remove1 [OF assms(2), of downstream] by (simp add: relay_ok_def)
  then show "Read_target \<notin> set (remove1 opn ops)" "Write_client \<notin> set (remove1 opn ops)"
    by (auto simp: filter_empty_conv)
qed

section \<open>One direction\<close>

text \<open>
  The contract of a direction: its read passes on exactly what has come in, and its write goes
  back to reading only when it has taken the whole buffer.
\<close>

locale direction =
  fixes rd :: op and wr :: op and buf :: "connection \<Rightarrow> buffer"
    and ins :: "traffic \<Rightarrow> byte list" and outs :: "traffic \<Rightarrow> byte list"
  assumes distinct: "rd \<noteq> wr"
    and read_step: "allowed rd res c \<Longrightarrow> handle rd res c = Inr (c', new)
      \<Longrightarrow> \<exists>bs. ins (observe rd res c T) = ins T @ bs \<and> outs (observe rd res c T) = outs T
        \<and> (new = [] \<or> new = [wr] \<and> buf c' = bs)"
    and write_step: "allowed wr res c \<Longrightarrow> whole_write wr res c \<Longrightarrow> handle wr res c = Inr (c', new)
      \<Longrightarrow> \<exists>k. outs (observe wr res c T) = outs T @ take k (buf c) \<and> ins (observe wr res c T) = ins T
        \<and> (new = [] \<or> new = [rd] \<and> take k (buf c) = buf c)"
begin

lemma transit_step:
  assumes "opn = rd \<or> opn = wr" and "opn \<in> set ops" and "allowed opn res c" and "whole_write opn res c"
    and "in_transit rd wr ops (buf c) (ins T) (outs T)" and "handle opn res c = Inr (c', new)"
    and "rd \<notin> set (remove1 opn ops)" and "wr \<notin> set (remove1 opn ops)"
  shows "in_transit rd wr (remove1 opn ops @ new) (buf c')
      (ins (observe opn res c T)) (outs (observe opn res c T))"
  using assms(1)
proof
  assume rd: "opn = rd"
  with assms(2,5) have "ins T = outs T" by (simp add: in_transit_def)
  with rd read_step [of res c c' new T] assms(3,6,7,8) distinct show ?thesis
    by (auto simp: in_transit_def)
next
  assume wr: "opn = wr"
  with assms(2,5) have all: "ins T = outs T @ buf c" by (simp add: in_transit_def)
  have "prefix (outs T @ take k (buf c)) (outs T @ buf c)" for k by (simp add: take_is_prefix)
  with wr all write_step [of res c c' new T] assms(3,4,6,7,8) distinct show ?thesis
    by (auto simp: in_transit_def)
qed

end

interpretation up: direction Read_client Write_target c_buffer t_from_client t_to_target
proof (unfold_locales, goal_cases)
  case (2 res c c' new T)
  then show ?case by (cases res) (auto simp: relay_defs split: if_splits)
next
  case (3 res c c' new T)
  then obtain k ec where "res = Write_done k ec" by (cases res) auto
  with 3 show ?case by (intro exI [of _ k]) (auto simp: relay_defs split: if_splits)
qed simp

interpretation down: direction Read_target Write_client c_target_buffer t_from_target t_to_client
proof (unfold_locales, goal_cases)
  case (2 res c c' new T)
  then show ?case by (cases res) (auto simp: relay_defs split: if_splits)
next
  case (3 res c c' new T)
  then obtain k ec where "res = Write_done k ec" by (cases res) auto
  with 3 show ?case by (intro exI [of _ k]) (auto simp: relay_defs split: if_splits)
qed simp

lemma upstream_iff: "upstream opn \<longleftrightarrow> opn = Read_client \<or> opn = Write_target"
  and downstream_iff: "downstream opn \<longleftrightarrow> opn = Read_target \<or> opn = Write_client"
  by (cases opn; simp)+

text \<open>A step of one direction leaves the other as it was.\<close>

lemma observe_other:
  "upstream opn \<Longrightarrow> t_from_target (observe opn res c T) = t_from_target T"
  "upstream opn \<Longrightarrow> t_to_client (observe opn res c T) = t_to_client T"
  "downstream opn \<Longrightarrow> t_from_client (observe opn res c T) = t_from_client T"
  "downstream opn \<Longrightarrow> t_to_target (observe opn res c T) = t_to_target T"
  by (cases opn; cases res; simp)+

lemma relay_inv_step:
  assumes "relay_inv S T" and "opn \<in> set (s_ops S)" and "allowed opn res (s_conn S)"
    and "whole_write opn res (s_conn S)" and "complete opn res S = Inr S'"
  shows "relay_inv S' (observe opn res (s_conn S) T)"
proof -
  have ok: "relay_ok (s_conn S) (s_ops S) (s_sent S)"
    and up: "in_transit Read_client Write_target (s_ops S) (c_buffer (s_conn S))
         (t_from_client T) (t_to_target T)"
    and down: "in_transit Read_target Write_client (s_ops S) (c_target_buffer (s_conn S))
         (t_from_target T) (t_to_client T)"
    using assms(1) by (simp_all add: relay_inv_def)
  from ok assms(2) have dir: "upstream opn \<or> downstream opn" by (auto simp: relay_ok_def)
  from relay_handle [OF dir, of res "s_conn S"] obtain c' new
    where h: "handle opn res (s_conn S) = Inr (c', new)"
      and u: "upstream opn \<Longrightarrow> c_target_buffer c' = c_target_buffer (s_conn S) \<and> set new \<subseteq> {Write_target, Read_client}"
      and d: "downstream opn \<Longrightarrow> c_buffer c' = c_buffer (s_conn S) \<and> set new \<subseteq> {Write_client, Read_target}"
    by fastforce
  from assms(5) h have S': "s_conn S' = c'" "s_ops S' = remove1 opn (s_ops S) @ new"
    by (auto simp: complete_def)
  have ok': "relay_ok (s_conn S') (s_ops S') (s_sent S')"
    using relay_step_ok [OF ok assms(2), of res] assms(5) by auto
  have sub: "set (remove1 opn (s_ops S)) \<subseteq> set (s_ops S)" by (rule set_remove1_subset)
  from dir show ?thesis
  proof
    assume up_op: "upstream opn"
    have "in_transit Read_target Write_client (s_ops S') (c_target_buffer (s_conn S))
         (t_from_target T) (t_to_client T)"
      using sub u [OF up_op] by (intro in_transit_other [OF down]) (auto simp: S')
    with up.transit_step [OF up_op [unfolded upstream_iff] assms(2-4) up h relay_up_alone [OF ok assms(2) up_op]] ok' u [OF up_op] up_op show ?thesis
      by (simp add: relay_inv_def S' observe_other)
  next
    assume down_op: "downstream opn"
    have "in_transit Read_client Write_target (s_ops S') (c_buffer (s_conn S))
         (t_from_client T) (t_to_target T)"
      using sub d [OF down_op] by (intro in_transit_other [OF up]) (auto simp: S')
    with down.transit_step [OF down_op [unfolded downstream_iff] assms(2-4) down h
        relay_down_alone [OF ok assms(2) down_op]] ok' d [OF down_op] down_op
    show ?thesis
      by (simp add: relay_inv_def S' observe_other)
  qed
qed

lemma relay_run_inv:
  "relay_run S T S' T' \<Longrightarrow> relay_inv S T \<Longrightarrow> relay_inv S' T'"
proof (induction rule: relay_run.induct)
  case (step S T S1 T1 opn res S2)
  then show ?case using relay_inv_step [OF _ step(2-5)] by blast
qed

lemma relay_start_inv:
  assumes "server_reachable S" and "s_ops S = [Read_client, Read_target]"
  shows "relay_inv S traffic_new"
  using server_reachable_inv [OF assms(1)] assms(2)
  by (auto simp: relay_inv_def server_inv_def ops_ok_def in_transit_def traffic_new_def)

section \<open>Properties\<close>

text \<open>
  C9 (relay_in_order).  From the moment a connection starts to relay, as long as no write takes
  less than it was given and reports success, and whatever else happens: in each direction the
  bytes written are a prefix of the bytes read, so that nothing is lost, duplicated, reordered or
  taken from the other direction; what is missing is exactly the buffer of the write in flight,
  and nothing while the direction is reading.
\<close>
theorem relay_in_order:
  assumes "server_reachable S" and "s_ops S = [Read_client, Read_target]"
    and "relay_run S traffic_new S' T"
  shows "prefix (t_to_target T) (t_from_client T) \<and> prefix (t_to_client T) (t_from_target T)
    \<and> (Read_client \<in> set (s_ops S') \<longrightarrow> t_from_client T = t_to_target T)
    \<and> (Read_target \<in> set (s_ops S') \<longrightarrow> t_from_target T = t_to_client T)
    \<and> (Write_target \<in> set (s_ops S')
        \<longrightarrow> t_from_client T = t_to_target T @ c_buffer (s_conn S'))
    \<and> (Write_client \<in> set (s_ops S')
        \<longrightarrow> t_from_target T = t_to_client T @ c_target_buffer (s_conn S'))"
  using relay_run_inv [OF assms(3)] relay_start_inv [OF assms(1,2)]
  by (simp add: relay_inv_def in_transit_def)

theorem relay_in_order_witness:
  "\<exists>S' T. relay_run demo_relay traffic_new S' T \<and> t_from_client T = [7, 8, 9]
    \<and> t_from_client T = t_to_target T @ c_buffer (s_conn S')"
proof -
  let ?r = "Read_done (7 # 8 # 9 # replicate 1021 0) 3 ec_ok"
  let ?S = "\<lparr>s_conn = (s_conn demo_relay)\<lparr>c_buffer := [7, 8, 9]\<rparr>,
    s_ops = [Read_target, Write_target], s_sent = s_sent demo_relay\<rparr>"
  let ?T = "traffic_new\<lparr>t_from_client := [7, 8, 9]\<rparr>"
  have "complete Read_client ?r demo_relay = Inr ?S"
    by (simp add: complete_def demo_relay_def on_client_read_def do_relay_to_target_def numeral_eq_Suc)
  moreover have "allowed Read_client ?r (s_conn demo_relay)" by (simp add: demo_relay_def)
  moreover have "Read_client \<in> set (s_ops demo_relay)" by (simp add: demo_relay_def)
  moreover have "observe Read_client ?r (s_conn demo_relay) traffic_new = ?T"
    by (simp add: traffic_new_def numeral_eq_Suc)
  ultimately have run: "relay_run demo_relay traffic_new ?S ?T"
    using relay_run.step [OF relay_run.stay, of Read_client demo_relay ?r ?S traffic_new] by simp
  have "s_ops demo_relay = [Read_client, Read_target]" by (simp add: demo_relay_def)
  from relay_in_order [OF demo_reachable this run]
  have "Write_target \<in> set (s_ops ?S) \<longrightarrow> t_from_client ?T = t_to_target ?T @ c_buffer (s_conn ?S)"
    by (elim conjE) assumption
  with run show ?thesis by (intro exI [of _ ?S] exI [of _ ?T]) simp
qed

end
