(* ===== verification/Connect_Reference.thy ===== *)
theory Connect_Reference
  imports Connect_Async
begin

text \<open>
  A reference for the SOCKS5 client over a peer that follows a script: a function on messages
  without buffers, cursors or resume points, and the proof that the blocking and the asynchronous
  connect are this function over every test stream, whatever its bytes and its injected failure.
\<close>

section \<open>The reference\<close>

text \<open>
  The peer has \<open>k\<close> operations left before it reports \<open>e\<close>, and the bytes \<open>p\<close> to serve; \<open>sent\<close> is
  what it has been sent.
\<close>

definition tick :: "error_code \<Rightarrow> nat \<Rightarrow> error_code \<times> nat" where
  "tick e k = (if k = 0 then (e, 0) else (ec_ok, k - 1))"

definition receive ::
    "error_code \<Rightarrow> nat \<Rightarrow> byte list \<Rightarrow> nat \<Rightarrow> byte list \<times> error_code \<times> nat \<times> byte list" where
  "receive e k p m =
     (let (ec, k) = tick e k; msg = take m p
      in (msg, if \<not> failed ec \<and> length msg < m then eof else ec, k, drop m p))"

definition choice_verdict :: "auth_options \<Rightarrow> byte list \<Rightarrow> error_code \<Rightarrow> error_code" where
  "choice_verdict opt msg ec =
     (if length msg < 2 then make_error_code Err_bad_reply_size
      else if msg ! 0 \<noteq> 5 then make_error_code Err_bad_reply_version
      else if msg ! 1 \<notin> set (greeting_methods opt) then make_error_code Err_bad_server_choice
      else ec)"

definition userpass_verdict :: "byte list \<Rightarrow> error_code \<Rightarrow> error_code" where
  "userpass_verdict msg ec =
     (if length msg \<noteq> 2 then make_error_code Err_bad_reply_size
      else if msg ! 0 \<noteq> 1 then make_error_code Err_bad_reply_version
      else if msg ! 1 \<noteq> 0 then make_error_code Err_access_denied
      else ec)"

text \<open>
  How a caller uses a verdict: the blocking functions only after a read that succeeded or met
  the end of the stream, the coroutine after every read, where it then lets \<open>eof\<close> pass.
\<close>

definition blocking_verdict :: "(error_code \<Rightarrow> error_code) \<Rightarrow> error_code \<Rightarrow> error_code" where
  "blocking_verdict v ec = (if \<not> failed ec \<or> ec = eof then v ec else ec)"

definition coroutine_verdict :: "(error_code \<Rightarrow> error_code) \<Rightarrow> error_code \<Rightarrow> error_code" where
  "coroutine_verdict v ec = (if v ec = eof then ec_ok else v ec)"

type_synonym progress = "error_code \<times> nat \<times> byte list \<times> byte list"

definition userpass_stage ::
    "((error_code \<Rightarrow> error_code) \<Rightarrow> error_code \<Rightarrow> error_code) \<Rightarrow> error_code \<Rightarrow> nat \<Rightarrow> byte list
      \<Rightarrow> byte list \<Rightarrow> auth_options \<Rightarrow> progress" where
  "userpass_stage w e k p sent opt =
     (let (ec, k) = tick e k; sent = sent @ userpass_bytes opt in
      if failed ec then (ec, k, p, sent)
      else let (msg, ec, k, p) = receive e k p 2 in (w (userpass_verdict msg) ec, k, p, sent))"

definition auth_stage ::
    "((error_code \<Rightarrow> error_code) \<Rightarrow> error_code \<Rightarrow> error_code) \<Rightarrow> error_code \<Rightarrow> nat \<Rightarrow> byte list
      \<Rightarrow> auth_options \<Rightarrow> progress" where
  "auth_stage w e k p opt =
     (let (ec, k) = tick e k; sent = greeting_bytes opt in
      if failed ec then (ec, k, p, sent)
      else
        let (msg, ec, k, p) = receive e k p 2; ec = blocking_verdict (choice_verdict opt msg) ec in
        if \<not> failed ec \<and> msg ! 1 = 2 then userpass_stage w e k p sent opt else (ec, k, p, sent))"

definition request_stage ::
    "error_code \<Rightarrow> nat \<Rightarrow> byte list \<Rightarrow> byte list \<Rightarrow> target \<Rightarrow> endpoint \<times> error_code \<times> byte list" where
  "request_stage e k p sent t =
     (let (ec, k) = tick e k; sent = sent @ connect_request_bytes t in
      if failed ec then (endpoint_default, ec, sent)
      else
        let (msg, ec, k, p) = receive e k p 22 in
        if failed ec \<and> ec \<noteq> eof then (endpoint_default, ec, sent)
        else (fst (reply_v5 msg), snd (reply_v5 msg), sent))"

definition connect_reference ::
    "((error_code \<Rightarrow> error_code) \<Rightarrow> error_code \<Rightarrow> error_code) \<Rightarrow> error_code \<Rightarrow> nat \<Rightarrow> byte list
      \<Rightarrow> target \<Rightarrow> auth_options \<Rightarrow> endpoint \<times> error_code \<times> byte list" where
  "connect_reference w e k p t opt =
     (let (ec, k, p, sent) = auth_stage w e k p opt in
      if failed ec then (endpoint_default, ec, sent) else request_stage e k p sent t)"

section \<open>A stream that follows the script\<close>

definition follows :: "error_code \<Rightarrow> nat \<Rightarrow> byte list \<Rightarrow> byte list \<Rightarrow> test_stream \<Rightarrow> bool" where
  "follows e k p sent s \<longleftrightarrow> ts_fail_at s = k \<and> ts_fail_with s = e \<and> ts_pending s = p
     \<and> length p \<le> ts_max_read_some s \<and> ts_in s = sent"

lemma follows_new:
  "length script \<le> size_max \<Longrightarrow> follows e k script [] (ts_reset_read (test_stream_new k e) script)"
  by (simp add: follows_def ts_reset_read_def test_stream_new_def ts_pending_def)

lemma follows_write:
  assumes "follows e k p sent s" and "bs \<noteq> []" and "tick e k = (ec, k')"
  obtains s' where "asio_write ts_ops s bs = (length bs, ec, s')" and "follows e k' p (sent @ bs) s'"
proof -
  let ?s' = "s\<lparr>ts_fail_at := k', ts_in := sent @ bs\<rparr>"
  have "asio_write ts_ops s bs = (length bs, ec, ?s')"
    using assms by (cases bs) (auto simp: follows_def tick_def ts_ops_def composed_def ts_defs split: if_splits)
  moreover have "follows e k' p (sent @ bs) ?s'"
    using assms(1) by (simp add: follows_def ts_pending_def)
  ultimately show ?thesis by (rule that)
qed

lemma follows_read:
  assumes "follows e k p sent s" and "0 < m" and "m \<le> c buf ec_ok 0" and "stops_on_failure c"
    and "receive e k p m = (msg, ec, k', p')"
  obtains s' where "asio_read ts_ops s buf m c = (overlay msg buf, length msg, ec, s')"
    and "follows e k' p' sent s'"
proof -
  let ?s' = "s\<lparr>ts_fail_at := k', ts_n_read := ts_n_read s + length msg\<rparr>"
  obtain j where m: "m = Suc j" using assms(2) by (cases m) auto
  have msg: "msg = take m p" "p' = drop m p"
    using assms(5) by (auto simp: receive_def Let_def split: prod.splits)
  have len: "min (length p) (ts_max_read_some s) = length p"
    and p: "drop (ts_n_read s) (ts_out s) = p"
    using assms(1) by (auto simp: follows_def ts_pending_def min_def)
  have left: "length (ts_out s) - ts_n_read s = length p" using p by (metis length_drop)
  have rd: "ts_rd s m = (msg, ec, ?s')"
    using assms(1,5)
    by (auto simp: receive_def tick_def follows_def ts_rd_def ts_read_some_def ts_maybe_fail_def
        ts_copy_out_def Let_def msg p left len min.commute split: if_splits)
  have "failed ec \<or> length msg = m"
    using assms(5) by (auto simp: receive_def Let_def min_def split: prod.splits if_splits)
  with rd have "asio_read ts_ops s buf m c = (overlay msg buf, length msg, ec, ?s')"
    using assms(3,4)
    by (auto simp: m ts_ops_def composed_def overlay_def min_absorb2 stops_on_failureD)
  moreover have "follows e k' p' sent ?s'"
    using assms(1) by (auto simp: follows_def ts_pending_def msg add.commute min_def)
  ultimately show ?thesis by (rule that)
qed

section \<open>The blocking connect\<close>

lemma transfer_two [simp]: "2 \<le> transfer_all buf ec_ok 0"
  by (simp add: transfer_all_def)

lemma receive_length: "receive e k p m = (msg, ec, k', p') \<Longrightarrow> length msg \<le> m"
  by (auto simp: receive_def Let_def split: prod.splits)

lemma follows_write_buffer:
  assumes "follows e k p sent s" and "bs \<noteq> []" and "length bs \<le> length buf" and "tick e k = (ec, k')"
  obtains s' where "write_buffer ts_ops s (overlay bs buf) (length bs) = Inr (ec, s')"
    and "follows e k' p (sent @ bs) s'"
  using follows_write [OF assms(1,2,4)] assms(3)
  by (metis (no_types, lifting) const_buffer_def length_overlay old.prod.case res_bind.simps(2)
      take_overlay write_buffer_def)

lemma follows_read_buffer:
  assumes "follows e k p sent s" and "0 < m" and "m \<le> c buf ec_ok 0" and "stops_on_failure c"
    and "receive e k p m = (msg, ec, k', p')" and "m \<le> length buf"
  obtains s' where "read_buffer ts_ops s buf m c = Inr (overlay msg buf, length msg, ec, s')"
    and "follows e k' p' sent s'" and "length (overlay msg buf) = length buf"
  using follows_read [OF assms(1-5)] assms(6) receive_length [OF assms(5)]
  by (metis (full_types) le_trans length_overlay read_buffer_def)

text \<open>The checks of the code on the buffer are those of the reference on the message.\<close>

lemma choice_verdict_overlay:
  "length msg \<le> length buf \<Longrightarrow> length msg \<le> 2
    \<Longrightarrow> validate_server_choice (overlay msg buf) (length msg) opt ec = Inr (choice_verdict opt msg ec)"
  by (subst validate_server_choice_eq)
    (auto simp: length_overlay choice_verdict_def overlay_def nth_append)

lemma userpass_verdict_overlay:
  "length msg \<le> length buf
    \<Longrightarrow> validate_userpass_reply (overlay msg buf) (length msg) ec = Inr (userpass_verdict msg ec)"
  by (subst validate_userpass_reply_eq)
    (auto simp: length_overlay userpass_verdict_def overlay_def nth_append)

lemma choice_accepted:
  assumes "\<not> failed (blocking_verdict (choice_verdict opt msg) ec)" and "length msg \<le> 2"
  shows "length msg = 2" and "msg ! 1 \<in> set (greeting_methods opt)"
  using assms by (auto simp: blocking_verdict_def choice_verdict_def split: if_splits)

text \<open>What a stage leaves: the code, and a stream that goes on with the rest of the script.\<close>

definition staged :: "error_code \<Rightarrow> progress \<Rightarrow> byte \<times> buffer \<times> error_code \<times> test_stream \<Rightarrow> bool" where
  "staged e = (\<lambda>(ec, k, p, sent) (_, buf, ec', s). ec' = ec \<and> length buf = 513 \<and> follows e k p sent s)"

lemma authenticate_userpass_staged:
  assumes "follows e k p sent s" and "length buf = 513" and "\<not> oversized_auth opt" and "is_userpass opt"
  shows "res_post (\<lambda>_. False) (staged e (userpass_stage blocking_verdict e k p sent opt))
    (authenticate_userpass ts_ops s buf 513 opt)"
proof -
  let ?u = "userpass_bytes opt"
  have u: "?u \<noteq> []" "length ?u \<le> length buf"
    using assms(2-4) by (auto simp: length_userpass_bytes oversized_auth_def userpass_bytes_def)
  then have len: "length (overlay ?u buf) = 513" using assms(2) by (simp add: length_overlay)
  have prep: "prepare_userpass_request buf 513 opt = Inr (overlay ?u buf, length ?u)"
    using assms(2-4) u by (simp add: prepare_userpass_request_eq oversized_auth_def)
  obtain ec1 k1 where t: "tick e k = (ec1, k1)" by force
  obtain s1 where w: "write_buffer ts_ops s (overlay ?u buf) (length ?u) = Inr (ec1, s1)"
    and s1: "follows e k1 p (sent @ ?u) s1" using follows_write_buffer [OF assms(1) u t] .
  obtain msg ec2 k2 p2 where r: "receive e k1 p 2 = (msg, ec2, k2, p2)" by (metis prod_cases4)
  obtain s2 where rd: "read_buffer ts_ops s1 (overlay ?u buf) 2 transfer_all
      = Inr (overlay msg (overlay ?u buf), length msg, ec2, s2)"
    and s2: "follows e k2 p2 (sent @ ?u) s2" "length (overlay msg (overlay ?u buf)) = length (overlay ?u buf)"
    using follows_read_buffer [OF s1, of 2 transfer_all "overlay ?u buf"] r len by auto
  have "length msg \<le> length (overlay ?u buf)" using receive_length [OF r] len by simp
  note v = userpass_verdict_overlay [OF this]
  show ?thesis
    using s1 s2 len
    by (auto simp: authenticate_userpass_def prep w rd v userpass_stage_def t r staged_def
        blocking_verdict_def)
qed

lemma authenticate_staged:
  assumes "follows e k p [] s" and "length buf = 513" and "\<not> oversized_auth opt"
  shows "res_post (\<lambda>_. False) (staged e (auth_stage blocking_verdict e k p opt))
    (authenticate ts_ops s buf 513 opt)"
proof -
  let ?g = "greeting_bytes opt"
  have g: "?g \<noteq> []" "length ?g \<le> length buf" "2 < length ?g"
    using assms(2) by (simp_all add: length_greeting_bytes) (simp add: greeting_bytes_def)
  then have len: "length (overlay ?g buf) = 513" using assms(2) by (simp add: length_overlay)
  have prep: "prepare_greeting buf 513 opt = Inr (overlay ?g buf, length ?g)"
    using assms(2) g by (simp add: prepare_greeting_eq)
  obtain ec1 k1 where t: "tick e k = (ec1, k1)" by force
  obtain s1 where w: "write_buffer ts_ops s (overlay ?g buf) (length ?g) = Inr (ec1, s1)"
    and s1: "follows e k1 p ?g s1" using follows_write_buffer [OF assms(1) g(1,2) t] by auto
  obtain msg ec2 k2 p2 where r: "receive e k1 p 2 = (msg, ec2, k2, p2)" by (metis prod_cases4)
  let ?buf = "overlay msg (overlay ?g buf)"
  obtain s2 where rd: "read_buffer ts_ops s1 (overlay ?g buf) 2 transfer_all
      = Inr (?buf, length msg, ec2, s2)" and s2: "follows e k2 p2 ?g s2" "length ?buf = 513"
    using follows_read_buffer [OF s1, of 2 transfer_all "overlay ?g buf"] r len by auto
  note short = receive_length [OF r]
  then have "length msg \<le> length (overlay ?g buf)" using len by simp
  note v = choice_verdict_overlay [OF this short]
  have auth: "authenticate ts_ops s buf 513 opt =
    (if failed ec1 then Inr (0, overlay ?g buf, ec1, s1)
     else let ec = blocking_verdict (choice_verdict opt msg) ec2 in
       if failed ec then Inr (?buf ! 1, ?buf, ec, s2)
       else if ?buf ! 1 = 2 then authenticate_userpass ts_ops s2 ?buf 513 opt
       else Inr (?buf ! 1, ?buf, ec, s2))"
    using g s2(2) by (simp add: authenticate_def prep w rd v blocking_verdict_def Let_def get_byte_def)
  show ?thesis
  proof (cases "failed (blocking_verdict (choice_verdict opt msg) ec2)")
    case False
    note acc = choice_accepted [OF False short]
    then have one: "?buf ! 1 = msg ! 1" by (simp add: overlay_def nth_append)
    with acc have "msg ! 1 = 2 \<Longrightarrow> is_userpass opt" by (auto simp: greeting_methods_def split: if_splits)
    with authenticate_userpass_staged [OF s2 assms(3)] s1 s2 len False one show ?thesis
      by (auto simp: auth auth_stage_def t r Let_def staged_def)
  qed (use s1 s2 len in \<open>auto simp: auth auth_stage_def t r Let_def staged_def\<close>)
qed

text \<open>From the request on, for the blocking functions and the coroutine alike.\<close>

definition answers :: "endpoint \<times> error_code \<times> byte list \<Rightarrow> endpoint \<times> error_code \<times> test_stream \<Rightarrow> bool" where
  "answers = (\<lambda>(ep, ec, sent) (ep', ec', s). ep' = ep \<and> ec' = ec \<and> ts_in s = sent)"

lemma answers_iff [simp]:
  "answers (ep, ec, sent) (ep', ec', s) \<longleftrightarrow> ep' = ep \<and> ec' = ec \<and> ts_in s = sent"
  by (simp add: answers_def)

lemma follows_sent: "follows e k p sent s \<Longrightarrow> ts_in s = sent"
  by (simp add: follows_def)

lemma answersE:
  assumes "res_post (\<lambda>_. False) (answers r) m"
  obtains s where "m = Inr (fst r, fst (snd r), s)" and "ts_in s = snd (snd r)"
proof (cases m)
  case (Inr x)
  with assms that show ?thesis by (cases r; cases x) (auto simp: answers_def)
qed (use assms in simp)

lemma reply_v5_overlay:
  assumes "length msg = 10 \<or> length msg = 22" and "length msg \<le> length buf"
  shows "parse_reply_v5 (overlay msg buf) (length msg) = Inr (reply_v5 msg)"
  using assms by (subst parse_reply_v5_eq) (auto simp: length_overlay reply_v5_def)

lemma connect_tail_answers:
  assumes "follows e k p sent s" and "length buf = 513" and "length (connect_request_bytes t) \<le> 513"
  shows "res_post (\<lambda>_. False) (answers (request_stage e k p sent t)) (connect_tail ts_ops s buf t)"
proof -
  let ?q = "connect_request_bytes t"
  have q: "?q \<noteq> []" "length ?q \<le> length buf" using assms(2,3) by (simp_all add: connect_request_bytes_def)
  then have len: "length (overlay ?q buf) = 513" using assms(2) by (simp add: length_overlay)
  have prep: "prepare_request buf 513 t = Inr (overlay ?q buf, length ?q)"
    using assms(2,3) by (simp add: prepare_request_eq)
  obtain ec1 k1 where t: "tick e k = (ec1, k1)" by force
  obtain s1 where w: "write_buffer ts_ops s (overlay ?q buf) (length ?q) = Inr (ec1, s1)"
    and s1: "follows e k1 p (sent @ ?q) s1" using follows_write_buffer [OF assms(1) q t] .
  obtain msg ec2 k2 p2 where r: "receive e k1 p 22 = (msg, ec2, k2, p2)" by (metis prod_cases4)
  have "22 \<le> read_reply_cond (overlay ?q buf) ec_ok 0" by (simp add: read_reply_cond_def)
  with follows_read_buffer [OF s1 _ _ _ r, of read_reply_cond "overlay ?q buf"] len
  obtain s2 where rd: "read_buffer ts_ops s1 (overlay ?q buf) 22 read_reply_cond
      = Inr (overlay msg (overlay ?q buf), length msg, ec2, s2)"
    and s2: "follows e k2 p2 (sent @ ?q) s2" by auto
  have "length msg \<le> length (overlay ?q buf)" using receive_length [OF r] len by simp
  note parse = reply_v5_overlay [OF _ this]
  show ?thesis
    using s1 s2 parse
    by (auto simp: connect_tail_def write_connect_request_def read_connect_reply_def prep w rd
        request_stage_def t r answers_def follows_def reply_v5_def Let_def split: prod.splits)
qed

lemma connect_to_answers:
  assumes "follows e k p [] s" and "length buf = 513" and "\<not> oversized_auth opt"
    and "\<not> failed (fst (auth_stage blocking_verdict e k p opt)) \<Longrightarrow> length (connect_request_bytes t) \<le> 513"
  shows "res_post (\<lambda>_. False) (answers (connect_reference blocking_verdict e k p t opt))
    (connect_to ts_ops s buf t opt)"
proof -
  obtain ec k' p' sent where st: "auth_stage blocking_verdict e k p opt = (ec, k', p', sent)"
    by (metis prod_cases4)
  from authenticate_staged [OF assms(1-3)] st obtain c buf' s'
    where a: "authenticate ts_ops s buf 513 opt = Inr (c, buf', ec, s')"
      and s': "length buf' = 513" "follows e k' p' sent s'"
    by (cases "authenticate ts_ops s buf 513 opt") (auto simp: staged_def)
  show ?thesis
    using connect_tail_answers [OF s'(2,1)] s'(2) assms(4)
    by (auto simp: connect_to_tail a connect_reference_def st answers_def follows_def)
qed

section \<open>The asynchronous connect\<close>

lemma coroutine_stops_iff:
  "failed (v ec) \<and> v ec \<noteq> eof \<longleftrightarrow> failed (coroutine_verdict v ec)"
  by (simp add: coroutine_verdict_def)

lemma after_userpass_answers:
  assumes "follows e k p sent s" and "length (op_buf self) = 513"
    and "\<not> oversized_auth (op_opt self)" and "is_userpass (op_opt self)"
    and "\<not> failed (fst (userpass_stage coroutine_verdict e k p sent (op_opt self)))
      \<Longrightarrow> length (connect_request_bytes (op_target self)) \<le> 513"
  shows "\<exists>r. after_v5 ts_ops (Suc (Suc (Suc (Suc f))))
      (res_bind (prepare_userpass_request (op_buf self) 513 (op_opt self)) (\<lambda>(buf, n).
         Inr (self\<lparr>op_buf := buf, op_coro := V5_userpass_sent\<rparr>, Async_write n))) s = Some r
    \<and> res_post (\<lambda>_. False) (answers
        (case userpass_stage coroutine_verdict e k p sent (op_opt self) of (ec, k, p, sent) \<Rightarrow>
          if failed ec then (endpoint_default, ec, sent)
          else request_stage e k p sent (op_target self))) r"
proof -
  let ?u = "userpass_bytes (op_opt self)" and ?buf = "op_buf self"
  have u: "?u \<noteq> []" "length ?u \<le> length ?buf"
    using assms(2-4) by (auto simp: length_userpass_bytes oversized_auth_def userpass_bytes_def)
  then have len: "length (overlay ?u ?buf) = 513" using assms(2) by (simp add: length_overlay)
  have prep: "prepare_userpass_request ?buf 513 (op_opt self) = Inr (overlay ?u ?buf, length ?u)"
    using assms(2-4) u by (simp add: prepare_userpass_request_eq oversized_auth_def)
  obtain ec1 k1 where t: "tick e k = (ec1, k1)" by force
  obtain s1 where w: "asio_write ts_ops s ?u = (length ?u, ec1, s1)"
    and s1: "follows e k1 p (sent @ ?u) s1" using follows_write [OF assms(1) u(1) t] .
  obtain msg ec2 k2 p2 where r: "receive e k1 p 2 = (msg, ec2, k2, p2)" by (metis prod_cases4)
  let ?buf2 = "overlay msg (overlay ?u ?buf)"
  obtain s2 where rd: "read_buffer ts_ops s1 (overlay ?u ?buf) 2 transfer_all
      = Inr (?buf2, length msg, ec2, s2)" and s2: "follows e k2 p2 (sent @ ?u) s2" "length ?buf2 = 513"
    using follows_read_buffer [OF s1, of 2 transfer_all "overlay ?u ?buf"] r len by auto
  have "length msg \<le> length (overlay ?u ?buf)" using receive_length [OF r] len by simp
  note v = userpass_verdict_overlay [OF this]
  have cb: "const_buffer (overlay ?u ?buf) (length ?u) = Inr ?u" using u len assms(2) by simp
  let ?self = "self\<lparr>op_coro := V5_userpass_read, op_buf := ?buf2\<rparr>"
  have tail: "after_v5 ts_ops (Suc (Suc f)) (op_send_request ?self) s2
      = Some (connect_tail ts_ops s2 ?buf2 (op_target self))"
    using after_send_request [of ?self ts_ops f s2] s2(2) by simp
  note request = connect_tail_answers [OF s2]
  show ?thesis
  proof (cases "failed ec1")
    case True
    then show ?thesis
      by (simp add: prep cb w drive_Suc op_complete_def userpass_stage_def t follows_sent [OF s1])
  next
    case sent: False
    have stage: "userpass_stage coroutine_verdict e k p sent (op_opt self)
        = (coroutine_verdict (userpass_verdict msg) ec2, k2, p2, sent @ ?u)"
      using sent by (simp add: userpass_stage_def t r)
    show ?thesis
    proof (cases "failed (coroutine_verdict (userpass_verdict msg) ec2)")
      case True
      then have "failed (userpass_verdict msg ec2)" "userpass_verdict msg ec2 \<noteq> eof"
        "coroutine_verdict (userpass_verdict msg) ec2 = userpass_verdict msg ec2"
        by (auto simp: coroutine_verdict_def split: if_splits)
      with True sent show ?thesis
        by (simp add: prep cb w rd v drive_Suc op_complete_def stage follows_sent [OF s2(1)])
    next
      case False
      then have "\<not> (failed (userpass_verdict msg ec2) \<and> userpass_verdict msg ec2 \<noteq> eof)"
        by (simp add: coroutine_verdict_def split: if_splits)
      with False sent request assms(5) show ?thesis
        by (auto simp: prep cb w rd v drive_Suc stage tail)
    qed
  qed
qed

lemma async_connect_answers:
  assumes "follows e k p [] s" and "\<not> oversized_auth opt"
    and "\<not> failed (fst (auth_stage coroutine_verdict e k p opt)) \<Longrightarrow> length (connect_request_bytes t) \<le> 513"
  shows "\<exists>r. async_connect_any 7 ts_ops s t opt = Some r
    \<and> res_post (\<lambda>_. False) (answers (connect_reference coroutine_verdict e k p t opt)) r"
proof -
  let ?g = "greeting_bytes opt" and ?zeros = "replicate 513 0 :: buffer"
  let ?buf = "overlay ?g ?zeros"
  have g: "?g \<noteq> []" "length ?g \<le> 513" "2 < length ?g"
    by (simp_all add: length_greeting_bytes) (simp add: greeting_bytes_def)
  then have len: "length ?buf = 513" by (simp add: length_overlay)
  have prep: "prepare_greeting ?zeros 513 opt = Inr (?buf, length ?g)"
    using g by (simp add: prepare_greeting_eq)
  have cb: "const_buffer ?buf (length ?g) = Inr ?g" using g len by simp
  obtain ec1 k1 where t: "tick e k = (ec1, k1)" by force
  obtain s1 where w: "asio_write ts_ops s ?g = (length ?g, ec1, s1)" and s1: "follows e k1 p ?g s1"
    using follows_write [OF assms(1) g(1) t] by auto
  obtain msg ec2 k2 p2 where r: "receive e k1 p 2 = (msg, ec2, k2, p2)" by (metis prod_cases4)
  let ?buf2 = "overlay msg ?buf"
  obtain s2 where rd: "read_buffer ts_ops s1 ?buf 2 transfer_all = Inr (?buf2, length msg, ec2, s2)"
    and s2: "follows e k2 p2 ?g s2" "length ?buf2 = 513"
    using follows_read_buffer [OF s1, of 2 transfer_all ?buf] r len by auto
  note short = receive_length [OF r]
  then have "length msg \<le> length ?buf" using len by simp
  note v = choice_verdict_overlay [OF this short]
  have seven: "(7 :: nat) = Suc (Suc (Suc (Suc (Suc (Suc (Suc 0))))))" by simp
  let ?self = "\<lparr>op_buf = ?buf2, op_target = t, op_opt = opt, op_coro = V5_choice_read\<rparr>"
  let ?ec = "blocking_verdict (choice_verdict opt msg) ec2"
  have run: "async_connect_any 7 ts_ops s t opt =
    (if failed ec1 then Some (Inr (endpoint_default, ec1, s1))
     else drive_v5 ts_ops (Suc (Suc (Suc (Suc (Suc 0))))) ?self ec2 (length msg) s2)"
    using g len
    by (simp add: async_connect_any_def connect_op_new_def seven prep cb w rd op_complete_def
        drive_Suc [of _ _ _ _ "Suc (Suc (Suc (Suc (Suc (Suc 0)))))"]
        drive_Suc [of _ _ _ _ "Suc (Suc (Suc (Suc (Suc 0))))"])
  have chosen: "drive_v5 ts_ops (Suc (Suc (Suc (Suc (Suc 0))))) ?self ec2 (length msg) s2 =
    after_v5 ts_ops (Suc (Suc (Suc (Suc 0))))
      (if failed ?ec then op_complete ?self ?ec endpoint_default
       else if ?buf2 ! 1 = 2
       then res_bind (prepare_userpass_request ?buf2 513 opt) (\<lambda>(buf, n).
         Inr (?self\<lparr>op_buf := buf, op_coro := V5_userpass_sent\<rparr>, Async_write n))
       else op_send_request ?self) s2"
    using s2(2) by (simp add: drive_Suc v blocking_verdict_def get_byte_def)
  show ?thesis
  proof (cases "failed ec1 \<or> failed ?ec")
    case True
    then show ?thesis
      using follows_sent [OF s1] follows_sent [OF s2(1)]
      by (auto simp: run chosen op_complete_def connect_reference_def auth_stage_def t r Let_def)
  next
    case False
    then have ok: "\<not> failed ?ec" by simp
    note acc = choice_accepted [OF this short]
    then have one: "?buf2 ! 1 = msg ! 1" by (simp add: overlay_def nth_append)
    show ?thesis
    proof (cases "msg ! 1 = 2")
      case True
      with acc have "is_userpass opt" by (auto simp: greeting_methods_def split: if_splits)
      moreover have "auth_stage coroutine_verdict e k p opt = userpass_stage coroutine_verdict e k2 p2 ?g opt"
        using False True by (simp add: auth_stage_def t r)
      ultimately have pre: "length (op_buf ?self) = 513" "\<not> oversized_auth (op_opt ?self)"
        "is_userpass (op_opt ?self)" "\<not> failed (fst (userpass_stage coroutine_verdict e k2 p2 ?g (op_opt ?self)))
          \<Longrightarrow> length (connect_request_bytes (op_target ?self)) \<le> 513"
        using assms(2,3) s2(2) by simp_all
      from after_userpass_answers [OF s2(1) pre, of 0, unfolded connect_op.simps] False True one show ?thesis
        by (simp add: run chosen connect_reference_def auth_stage_def t r)
    next
      case other: False
      have stage: "auth_stage coroutine_verdict e k p opt = (?ec, k2, p2, ?g)"
        using False other by (simp add: auth_stage_def t r)
      with ok assms(3) have "length (connect_request_bytes t) \<le> 513" by simp
      from connect_tail_answers [OF s2 this] after_send_request [of ?self ts_ops "Suc (Suc 0)" s2]
        s2(2) False other one show ?thesis
        by (simp add: run chosen connect_reference_def stage)
    qed
  qed
qed

section \<open>SOCKS4\<close>

definition reply_v4 :: "byte list \<Rightarrow> endpoint \<times> error_code" where
  "reply_v4 msg =
     (if length msg \<noteq> 8 then (endpoint_default, make_error_code Err_bad_reply_size)
      else if msg ! 0 \<noteq> 0 \<and> msg ! 0 \<noteq> 4 then (endpoint_default, make_error_code Err_bad_reply_version)
      else if msg ! 1 \<noteq> 90
      then (endpoint_default, make_error_code (error_of_reply_v4 (to_reply_code_v4 (ucast (msg ! 1)))))
      else (granted_endpoint msg, make_error_code Err_request_granted))"

definition connect_v4_reference ::
    "error_code \<Rightarrow> nat \<Rightarrow> byte list \<Rightarrow> u32 \<Rightarrow> u16 \<Rightarrow> string \<Rightarrow> endpoint \<times> error_code \<times> byte list" where
  "connect_v4_reference e k p ip port socks_user =
     (let (ec, k) = tick e k; sent = connect_request_v4_bytes ip port socks_user in
      if failed ec then (endpoint_default, ec, sent)
      else
        let (msg, ec, k, p) = receive e k p 8 in
        if failed ec \<and> ec \<noteq> eof then (endpoint_default, ec, sent)
        else (fst (reply_v4 msg), snd (reply_v4 msg), sent))"

lemma reply_v4_overlay:
  assumes "length msg = 8" and "8 \<le> length buf"
  shows "parse_reply_v4 (overlay msg buf) 8 = Inr (reply_v4 msg)"
  using assms
  by (subst parse_reply_v4_eq)
    (simp_all add: length_overlay reply_v4_def granted_endpoint_def overlay_def nth_append)

lemma connect_v4_answers:
  assumes "follows e k p [] s" and "ep_address t = Address_v4 ip"
  shows "res_post (\<lambda>_. False) (answers (connect_v4_reference e k p ip (ep_port t) u))
    (connect_v4 ts_ops s t u)"
proof -
  let ?q = "connect_request_v4_bytes ip (ep_port t) u"
  have len: "length ?q = 9 + length u" by (simp add: length_connect_request_v4_bytes)
  then have q: "?q \<noteq> []" by auto
  have prep: "prepare_request_v4 (replicate (9 + length u) 0) (9 + length u) t u = Inr (?q, 9 + length u)"
    using assms(2) by (simp add: prepare_request_v4_vector)
  obtain ec1 k1 where t: "tick e k = (ec1, k1)" by force
  obtain s1 where w: "asio_write ts_ops s ?q = (length ?q, ec1, s1)" and s1: "follows e k1 p ?q s1"
    using follows_write [OF assms(1) q t] by auto
  have wb: "write_buffer ts_ops s ?q (9 + length u) = Inr (ec1, s1)"
    using w by (simp add: write_buffer_def len)
  obtain msg ec2 k2 p2 where r: "receive e k1 p 8 = (msg, ec2, k2, p2)" by (metis prod_cases4)
  have "8 \<le> transfer_all ?q ec_ok 0" by (simp add: transfer_all_def)
  then obtain s2 where rd: "read_buffer ts_ops s1 ?q 8 transfer_all = Inr (overlay msg ?q, length msg, ec2, s2)"
    and s2: "follows e k2 p2 ?q s2"
    using follows_read_buffer [OF s1, of 8 transfer_all ?q] r len by auto
  have parse: "length msg = 8 \<Longrightarrow> parse_reply_v4 (overlay msg ?q) 8 = Inr (reply_v4 msg)"
    using reply_v4_overlay len by simp
  have short: "length msg \<noteq> 8 \<Longrightarrow> reply_v4 msg = (endpoint_default, make_error_code Err_bad_reply_size)"
    by (simp add: reply_v4_def)
  show ?thesis
    using parse short follows_sent [OF s1] follows_sent [OF s2] len
    by (auto simp: connect_v4_def Let_def prep boost_assert_True wb rd connect_v4_reference_def t r
        split: prod.splits)
qed

section \<open>Properties\<close>

text \<open>
  C2 (connect_is_reference).  The blocking \<open>connect\<close> is the reference function, against every
  scripted server: for any bytes the server sends, right or wrong, too few or too many, and any
  injected failure of the \<open>k\<close>-th operation, \<open>connect\<close> returns exactly the endpoint and the code of
  the reference, and has sent exactly its bytes.
\<close>
theorem connect_is_reference:
  assumes "\<not> oversized_auth opt" and "length (connect_request_bytes t) \<le> 513"
    and "length buf = 513" and "length script \<le> size_max"
    and "connect_reference blocking_verdict e k script t opt = (ep, ec, sent)"
  shows "\<exists>s'. connect_to ts_ops (ts_reset_read (test_stream_new k e) script) buf t opt = Inr (ep, ec, s')
    \<and> ts_in s' = sent"
  using answersE [OF connect_to_answers [OF follows_new [OF assms(4)] assms(3,1,2)]] assms(5)
  by (metis fst_conv snd_conv)

text \<open>A server that picks method 255, and one more byte than it should send.\<close>

theorem connect_is_reference_witness:
  "\<exists>s'. connect_to ts_ops (ts_reset_read (test_stream_new 0 ec_ok) [5, 255, 0]) (replicate 513 0)
      (To_endpoint endpoint_default) auth_none
    = Inr (endpoint_default, make_error_code Err_bad_server_choice, s') \<and> ts_in s' = [5, 1, 0]"
  by (rule connect_is_reference)
    (simp_all add: oversized_auth_def length_connect_request_bytes dst_addr_size_endpoint_def size_max_def
      connect_reference_def auth_stage_def tick_def receive_def blocking_verdict_def choice_verdict_def
      greeting_methods_def greeting_bytes_def)

text \<open>
  C3 (async_connect_is_reference).  The asynchronous connect is the same function but for one
  decision: after the reply to the credentials it applies the check whatever the read returned,
  and lets the end of the stream pass, where the blocking one first looks at the read.  Everything
  else agrees, for every script and every injected failure, in at most seven calls.
\<close>
theorem async_connect_is_reference:
  assumes "\<not> oversized_auth opt" and "length (connect_request_bytes t) \<le> 513"
    and "length script \<le> size_max"
    and "connect_reference coroutine_verdict e k script t opt = (ep, ec, sent)"
  shows "\<exists>s'. async_connect_any (7 + n) ts_ops (ts_reset_read (test_stream_new k e) script) t opt
      = Some (Inr (ep, ec, s')) \<and> ts_in s' = sent"
proof -
  from async_connect_answers [OF follows_new [OF assms(3)] assms(1,2)] obtain r
    where run: "async_connect_any 7 ts_ops (ts_reset_read (test_stream_new k e) script) t opt = Some r"
      and ans: "res_post (\<lambda>_. False) (answers (connect_reference coroutine_verdict e k script t opt)) r"
    by blast
  from answersE [OF ans] assms(4) async_connect_any_enough [OF run, of n] show ?thesis by force
qed

theorem async_connect_is_reference_witness:
  "\<exists>s'. async_connect_any 8 ts_ops (ts_reset_read (test_stream_new 3 eof) [5, 2, 1, 0])
      (To_endpoint endpoint_default) (auth_userpass ''u'' ''p'')
    = Some (Inr (endpoint_default, eof, s'))"
proof -
  let ?opt = "auth_userpass ''u'' ''p''" and ?t = "To_endpoint endpoint_default"
  have "connect_reference coroutine_verdict eof 3 [5, 2, 1, 0] ?t ?opt
    = (endpoint_default, eof, greeting_bytes ?opt @ userpass_bytes ?opt @ connect_request_bytes ?t)"
    by (simp add: connect_reference_def auth_stage_def userpass_stage_def request_stage_def tick_def
        receive_def blocking_verdict_def coroutine_verdict_def choice_verdict_def userpass_verdict_def
        greeting_methods_def)
  from async_connect_is_reference [OF _ _ _ this, of 1] show ?thesis
    by (auto simp: oversized_auth_def length_connect_request_bytes dst_addr_size_endpoint_def size_max_def)
qed

text \<open>
  C25 (connect_v4_is_reference).  \<open>connect_v4\<close> and the asynchronous connect of SOCKS4 are their
  reference too: for any bytes of the server and any injected failure, both return its endpoint
  and code, and have sent its bytes.
\<close>
theorem connect_v4_is_reference:
  assumes "ep_address t = Address_v4 ip" and "length script \<le> size_max"
    and "connect_v4_reference e k script ip (ep_port t) u = (ep, ec, sent)"
  shows "\<exists>s'. connect_v4 ts_ops (ts_reset_read (test_stream_new k e) script) t u = Inr (ep, ec, s')
    \<and> async_connect_v4 (3 + n) ts_ops (ts_reset_read (test_stream_new k e) script) t u
        = Some (Inr (ep, ec, s'))
    \<and> ts_in s' = sent"
proof -
  from answersE [OF connect_v4_answers [OF follows_new [OF assms(2)] assms(1)]] assms(3)
  obtain s' where "connect_v4 ts_ops (ts_reset_read (test_stream_new k e) script) t u = Inr (ep, ec, s')"
    "ts_in s' = sent" by (metis fst_conv snd_conv)
  then show ?thesis by (simp add: async_connect_v4_eq eval_nat_numeral)
qed

theorem connect_v4_is_reference_witness:
  "\<exists>s'. connect_v4 ts_ops (ts_reset_read (test_stream_new 0 ec_ok) [4, 91, 0, 0, 0, 0, 0, 0, 7])
      endpoint_default ''u''
    = Inr (endpoint_default, make_error_code Err_request_rejected_or_failed, s')"
proof -
  have "connect_v4_reference ec_ok 0 [4, 91, 0, 0, 0, 0, 0, 0, 7] 0 (ep_port endpoint_default) ''u''
    = (endpoint_default, make_error_code Err_request_rejected_or_failed,
        connect_request_v4_bytes 0 (ep_port endpoint_default) ''u'')"
    by (simp add: connect_v4_reference_def tick_def receive_def reply_v4_def to_reply_code_v4_def)
  from connect_v4_is_reference [OF _ _ this] show ?thesis by (auto simp: size_max_def)
qed

end
