(* ===== verification/Injected_Failures.thy ===== *)
theory Injected_Failures
  imports Connect_Reference
begin

text \<open>
  The failures the unit tests inject: \<open>test::stream\<close> is told to report an error from its
  \<open>fail_at\<close>-th operation on, and the tests run \<open>connect\<close> for every such operation.  The
  reference tells what \<open>connect\<close> makes of each.
\<close>

lemmas reference_defs = connect_reference_def auth_stage_def userpass_stage_def request_stage_def
  tick_def receive_def blocking_verdict_def choice_verdict_def userpass_verdict_def

text \<open>The two methods, and the operations each of them needs.\<close>

lemma greeting_method_cases:
  assumes "m \<in> set (greeting_methods opt)"
  obtains "m = 0" | "m = 2" and "is_userpass opt"
  using assms by (auto simp: greeting_methods_def split: if_splits)

lemma reference_failing:
  assumes "m \<in> set (greeting_methods opt)" and "failed e" and "e \<noteq> eof"
    and "k < (if m = 0x02 then 6 else 4)"
  shows "\<exists>sent. connect_reference blocking_verdict e k ([0x05, m] @ auth_rx m @ reply) t opt
    = (endpoint_default, e, sent)"
  using assms(1)
proof (cases rule: greeting_method_cases)
  case 1
  with assms(4) have "k = 0 \<or> k = 1 \<or> k = 2 \<or> k = 3" by auto
  with assms(1-3) 1 show ?thesis by (auto simp: reference_defs auth_rx_def)
next
  case 2
  with assms(4) have "k = 0 \<or> k = 1 \<or> k = 2 \<or> k = 3 \<or> k = 4 \<or> k = 5" by auto
  with assms(1-3) 2 show ?thesis by (auto simp: reference_defs auth_rx_def)
qed

section \<open>Properties\<close>

text \<open>
  C20 (connect_reports_injected_failure).  The unit tests' property, for every point of failure,
  every target, method, credentials within the limits, reply and error other than \<open>eof\<close>: when
  the stream of a successful dialogue is told to fail from its operation number \<open>k\<close> on, and
  \<open>connect\<close> needs that operation (it needs four, or six with credentials), \<open>connect\<close> returns
  that error and the default endpoint, whatever the failing operation has transferred.
\<close>
theorem connect_reports_injected_failure:
  assumes "m \<in> set (greeting_methods opt)" and "\<not> oversized_auth opt"
    and "length (connect_request_bytes t) \<le> 513" and "length buf = 513"
    and "failed e" and "e \<noteq> eof" and "k < (if m = 0x02 then 6 else 4)"
    and "script = [0x05, m] @ (if m = 0x02 then [0x01, 0x00] else []) @ connect_reply_bytes rep ep"
  shows "\<exists>s'. connect_to ts_ops (ts_reset_read (test_stream_new k e) script) buf t opt
    = Inr (endpoint_default, e, s')"
proof -
  have script: "script = [0x05, m] @ auth_rx m @ connect_reply_bytes rep ep"
    by (simp add: assms(8) auth_rx_def)
  have "length script \<le> size_max"
    by (simp add: assms(8) size_max_def length_connect_reply_bytes)
  from answersE [OF connect_to_answers [OF follows_new [OF this] assms(4,2,3)]]
    reference_failing [OF assms(1,5-7), of "connect_reply_bytes rep ep" t]
  show ?thesis unfolding script by (metis fst_conv snd_conv)
qed

theorem connect_reports_injected_failure_witness:
  "\<exists>s'. connect_to ts_ops
      (ts_reset_read (test_stream_new 5 (System_code 104))
        ([5, 2, 1, 0] @ connect_reply_bytes 0 endpoint_default)) (replicate 513 0)
      (To_endpoint endpoint_default) (auth_userpass ''u'' ''p'')
    = Inr (endpoint_default, System_code 104, s')"
  by (rule connect_reports_injected_failure [of 2])
    (simp_all add: greeting_methods_def oversized_auth_def length_connect_request_bytes
      dst_addr_size_endpoint_def)

text \<open>
  C37 (async_masks_read_error).  When the read of the username/password reply fails with a
  transport error before the second byte, the blocking \<open>connect\<close> reports that error; the
  asynchronous one runs the check of the reply all the same and reports \<open>bad_reply_size\<close>
  in its place.
\<close>
theorem async_masks_read_error:
  assumes "is_userpass opt" and "length (user opt) \<le> 255" and "length (pass opt) \<le> 255"
    and "failed e" and "e \<noteq> eof" and "length xs < 2"
    and "s = ts_reset_read (test_stream_new 3 e) ([0x05, 0x02] @ xs)"
  shows "\<exists>s1 s2. connect_to ts_ops s (replicate 513 0) t opt = Inr (endpoint_default, e, s1)
    \<and> async_connect_any 7 ts_ops s t opt
      = Some (Inr (endpoint_default, make_error_code Err_bad_reply_size, s2))"
proof -
  let ?p = "[0x05, 0x02] @ xs"
  have "\<not> oversized_auth opt" using assms(2,3) by (simp add: oversized_auth_def)
  moreover have "length ?p \<le> size_max" using assms(6) by (simp add: size_max_def)
  ultimately have size: "\<not> oversized_auth opt" and fol: "follows e 3 ?p [] s"
    using follows_new assms(7) by simp_all
  have stages: "auth_stage blocking_verdict e 3 ?p opt
      = (e, 0, [], greeting_bytes opt @ userpass_bytes opt)"
    "auth_stage coroutine_verdict e 3 ?p opt
      = (make_error_code Err_bad_reply_size, 0, [], greeting_bytes opt @ userpass_bytes opt)"
    using assms(1,4,5,6) by (simp_all add: reference_defs coroutine_verdict_def greeting_methods_def)
  have "res_post (\<lambda>_. False) (answers (connect_reference blocking_verdict e 3 ?p t opt))
      (connect_to ts_ops s (replicate 513 0) t opt)"
    using connect_to_answers [OF fol _ size, of "replicate 513 0" t] stages(1) assms(4) by simp
  moreover obtain r where "async_connect_any 7 ts_ops s t opt = Some r"
    and "res_post (\<lambda>_. False) (answers (connect_reference coroutine_verdict e 3 ?p t opt)) r"
    using async_connect_answers [OF fol size, of t] stages(2) by auto
  ultimately show ?thesis
    using assms(4) stages by (auto simp: connect_reference_def elim!: answersE)
qed

theorem async_masks_read_error_witness:
  "\<exists>s1 s2. connect_to ts_ops (ts_reset_read (test_stream_new 3 (System_code 104)) [5, 2, 1])
      (replicate 513 0) (To_endpoint endpoint_default) (auth_userpass ''u'' ''p'')
      = Inr (endpoint_default, System_code 104, s1)
    \<and> async_connect_any 7 ts_ops (ts_reset_read (test_stream_new 3 (System_code 104)) [5, 2, 1])
        (To_endpoint endpoint_default) (auth_userpass ''u'' ''p'')
      = Some (Inr (endpoint_default, make_error_code Err_bad_reply_size, s2))"
  using async_masks_read_error [of "auth_userpass ''u'' ''p''" "System_code 104" "[1]" _
      "To_endpoint endpoint_default"] by simp

end
