(* ===== verification/Unit_Tests.thy ===== *)
theory Unit_Tests
  imports Injected_Failures
begin

text \<open>
  The unit tests of the library (\<open>test/unit/connect.cpp\<close>, \<open>test/unit/connect_v4.cpp\<close>,
  \<open>test/unit/error.cpp\<close>) as tables of cases over the model: each case is a script, an injected
  failure and what the test expects.  The lemmas \<open>test*_passes\<close> say that the model passes every
  table, which ties it to the behaviour the authors have observed.  They are evaluations of the
  reference functions and no properties of their own.
\<close>

section \<open>SOCKS5\<close>

text \<open>The helpers build their messages with the library; one that asserts gives no bytes.\<close>

definition message_of :: "(buffer \<times> nat) result \<Rightarrow> byte list" where
  "message_of r = (case r of Inl e \<Rightarrow> [] | Inr (buf, n) \<Rightarrow> take n buf)"

definition make_greeting :: "auth_options \<Rightarrow> byte list" where
  "make_greeting opt = message_of (prepare_greeting (replicate 4 0) 4 opt)"

definition make_userpass_request :: "auth_options \<Rightarrow> byte list" where
  "make_userpass_request opt =
     (let n = length (user opt) + length (pass opt) + 3
      in message_of (prepare_userpass_request (replicate n 0) n opt))"

definition make_greet_reply :: "auth_method \<Rightarrow> byte list" where
  "make_greet_reply m = [0x05, auth_method_value m]"

definition make_request :: "endpoint \<Rightarrow> byte list" where
  "make_request ep = message_of (prepare_request (replicate 22 0) 22 (To_endpoint ep))"

definition make_request_domain :: "domain_endpoint \<Rightarrow> byte list" where
  "make_request_domain ep = message_of (prepare_request (replicate 263 0) 263 (To_domain ep))"

definition make_reply :: "byte \<Rightarrow> byte list" where
  "make_reply r = [0x05, r, 0, 1, 0, 0, 0, 0, 0, 0]"

definition make_reply_incomplete :: "byte \<Rightarrow> byte list" where
  "make_reply_incomplete r = [0x05, r, 0, 1, 0, 0, 0, 0]"

definition make_reply_ipv6 :: "byte \<Rightarrow> byte list" where
  "make_reply_ipv6 r = [0x05, r, 0, 4] @ replicate 16 0 @ [0, 0]"

definition make_reply_ipv6_incomplete :: "byte \<Rightarrow> byte list" where
  "make_reply_ipv6_incomplete r = [0x05, r, 0, 4] @ replicate 16 0"

definition make_reply_unknown :: "byte \<Rightarrow> byte list" where
  "make_reply_unknown r = [0x05, r, 0, 0xEF] @ replicate 16 0 @ [0, 0]"

text \<open>
  A case: the requests expected, the replies served, the options, the error expected, the point
  and the code of the failure, and the target, which the tests also expect as the result.
\<close>

type_synonym test_case =
  "byte list list \<times> byte list list \<times> auth_options \<times> error \<times> nat \<times> error_code \<times> endpoint"

fun checkEndpoint :: "test_case \<Rightarrow> bool" where
  "checkEndpoint (requests, replies, auth, exp_ec, fail_at, fail_with, ep) =
     (let s = ts_reset_read (test_stream_new fail_at fail_with) (concat replies)
      in case connect_to ts_ops s (replicate 513 0) (To_endpoint ep) auth of
        Inl e \<Rightarrow> False
      | Inr (app_ep, ec, s) \<Rightarrow>
          ts_equal_write_buffers s requests \<and> app_ep = ep \<and> ec = make_error_code exp_ec)"

fun checkAsyncEndpoint :: "test_case \<Rightarrow> bool" where
  "checkAsyncEndpoint (requests, replies, auth, exp_ec, fail_at, fail_with, ep) =
     (let s = ts_reset_read (test_stream_new fail_at fail_with) (concat replies)
      in case async_connect_any 7 ts_ops s (To_endpoint ep) auth of
        Some (Inr (app_ep, ec, s)) \<Rightarrow>
          ts_equal_write_buffers s requests \<and> app_ep = ep \<and> ec = make_error_code exp_ec
      | _ \<Rightarrow> False)"

abbreviation general_failure :: error_code where
  "general_failure \<equiv> make_error_code Err_general_failure"

abbreviation v4_none :: endpoint where
  "v4_none \<equiv> \<lparr>ep_address = Address_v4 0, ep_port = 0\<rparr>"

abbreviation v6_none :: endpoint where
  "v6_none \<equiv> \<lparr>ep_address = Address_v6 0, ep_port = 0\<rparr>"

abbreviation user_pass :: auth_options where
  "user_pass \<equiv> auth_userpass ''user'' ''pass''"

definition testEndpoint :: "test_case list" where
  "testEndpoint =
    (let g = make_greeting auth_none; a = user_pass; q = make_request v4_none;
         ok = make_greet_reply Auth_no_authentication; up = make_greet_reply Auth_userpass
     in [
      ([g, q], [ok, make_reply 0], auth_none, Err_succeeded, 0, ec_ok, v4_none),
      ([make_greeting a, make_userpass_request a, q], [up, [1, 0], make_reply 0],
        a, Err_succeeded, 0, ec_ok, v4_none),
      ([make_greeting a, make_userpass_request a], [up],
        a, Err_general_failure, 2, general_failure, v4_none),
      ([make_greeting a, make_userpass_request a], [up, [1, 0], make_reply 0],
        a, Err_general_failure, 3, general_failure, v4_none),
      ([make_greeting a, make_userpass_request a], [up, [1]],
        a, Err_bad_reply_size, 0, ec_ok, v4_none),
      ([make_greeting a, make_userpass_request a], [up, [5, 0]],
        a, Err_bad_reply_version, 0, ec_ok, v4_none),
      ([make_greeting a, make_userpass_request a], [up, [1, 0xFF]],
        a, Err_access_denied, 0, ec_ok, v4_none),
      ([g, make_request v6_none], [ok, make_reply_ipv6 0],
        auth_none, Err_succeeded, 0, ec_ok, v6_none),
      ([g, q], [ok, (make_reply_ipv6 0)[3 := 1]], auth_none, Err_bad_reply_size, 0, ec_ok, v4_none),
      ([g, q], [ok, (make_reply 0)[3 := 4]], auth_none, Err_bad_reply_size, 0, ec_ok, v4_none),
      ([g], [ok[0 := 4]], auth_none, Err_bad_reply_version, 0, ec_ok, v4_none),
      ([g], [ok[1 := 0xEF]], auth_none, Err_bad_server_choice, 0, ec_ok, v4_none),
      ([g], [[5]], auth_none, Err_bad_reply_size, 0, ec_ok, v4_none),
      ([g, q], [ok, make_reply_incomplete 0], auth_none, Err_bad_reply_size, 0, ec_ok, v4_none),
      ([g, q], [ok, make_reply_ipv6_incomplete 0], auth_none, Err_bad_reply_size, 0, ec_ok, v4_none),
      ([g, q], [ok, make_reply_unknown 0], auth_none, Err_bad_address_type, 0, ec_ok, v4_none),
      ([g, q], [ok, make_reply 0xEF], auth_none, Err_unassigned_reply_code, 0, ec_ok, v4_none)])"

text \<open>The cases behind those with a domain name.\<close>

definition testEndpoint_more :: "test_case list" where
  "testEndpoint_more =
    (let g = make_greeting auth_none; q = make_request v4_none;
         ok = make_greet_reply Auth_no_authentication
     in [
      ([g, q], [ok, [5]], auth_none, Err_bad_reply_size, 0, ec_ok, v4_none),
      ([g, q], [ok, (make_reply 0)[0 := 4]], auth_none, Err_bad_reply_version, 0, ec_ok, v4_none),
      ([g, q], [ok, make_reply 1], auth_none, Err_general_failure, 0, ec_ok, v4_none),
      ([g, q], [ok, [5, 0]], auth_none, Err_bad_reply_size, 0, ec_ok, v4_none),
      ([g], [[], []], auth_none, Err_general_failure, 0, general_failure, v4_none),
      ([g], [[], []], auth_none, Err_general_failure, 1, general_failure, v4_none),
      ([g, q], [ok, []], auth_none, Err_general_failure, 2, general_failure, v4_none),
      ([g, q], [ok, make_reply 0], auth_none, Err_general_failure, 3, general_failure, v4_none)])"

definition testAsyncEndpoint :: "test_case list" where
  "testAsyncEndpoint =
    (let g = make_greeting auth_none; a = user_pass; q = make_request v4_none;
         ok = make_greet_reply Auth_no_authentication; up = make_greet_reply Auth_userpass
     in [
      ([make_greeting a, make_userpass_request a, q], [up, [1, 0], make_reply 0],
        a, Err_succeeded, 0, ec_ok, v4_none),
      ([make_greeting a, make_userpass_request a], [up],
        a, Err_general_failure, 2, general_failure, v4_none),
      ([make_greeting a, make_userpass_request a], [up, [1, 0]],
        a, Err_general_failure, 3, general_failure, v4_none),
      ([g, q], [ok, [5]], auth_none, Err_bad_reply_size, 0, ec_ok, v4_none),
      ([g, q], [ok, (make_reply 0)[0 := 4]], auth_none, Err_bad_reply_version, 0, ec_ok, v4_none),
      ([g, q], [ok, make_reply 5], auth_none, Err_connection_refused, 0, ec_ok, v4_none),
      ([g, q], [ok, [5, 0, 0]], auth_none, Err_bad_reply_size, 0, ec_ok, v4_none),
      ([g], [[]], auth_none, Err_general_failure, 0, general_failure, v4_none),
      ([g], [ok], auth_none, Err_general_failure, 1, general_failure, v4_none),
      ([g, q], [ok], auth_none, Err_general_failure, 2, general_failure, v4_none),
      ([g, q], [ok, make_reply 0], auth_none, Err_general_failure, 3, general_failure, v4_none)])"

text \<open>
  The cases that connect to a domain name; the blocking ones look at the requests, the
  asynchronous ones at the result only.
\<close>

definition example_com :: domain_endpoint where
  "example_com = \<lparr>de_domain = ''www.example.com'', de_port = 80\<rparr>"

type_synonym domain_case = "byte list list \<times> byte list list \<times> error \<times> nat \<times> error_code"

fun checkDomain :: "domain_case \<Rightarrow> bool" where
  "checkDomain (requests, replies, exp_ec, fail_at, fail_with) =
     (let s = ts_reset_read (test_stream_new fail_at fail_with) (concat replies)
      in case connect_to ts_ops s (replicate 513 0) (To_domain example_com) auth_none of
        Inl e \<Rightarrow> False
      | Inr (app_ep, ec, s) \<Rightarrow> ts_equal_write_buffers s requests
          \<and> ep_address app_ep = Address_v4 0 \<and> ec = make_error_code exp_ec)"

fun checkAsyncDomain :: "byte list list \<times> error \<times> nat \<times> error_code \<Rightarrow> bool" where
  "checkAsyncDomain (replies, exp_ec, fail_at, fail_with) =
     (let s = ts_reset_read (test_stream_new fail_at fail_with) (concat replies)
      in case async_connect 7 ts_ops s (To_domain example_com) auth_none of
        Some (Inr (app_ep, ec, s)) \<Rightarrow> ep_address app_ep = Address_v4 0 \<and> ec = make_error_code exp_ec
      | _ \<Rightarrow> False)"

definition testDomain :: "domain_case list" where
  "testDomain =
    (let g = make_greeting auth_none; q = make_request_domain example_com;
         ok = make_greet_reply Auth_no_authentication
     in [
      ([g, q], [ok, make_reply 0], Err_succeeded, 0, ec_ok),
      ([g], [ok[0 := 4], make_reply 0], Err_bad_reply_version, 0, ec_ok),
      ([g, q], [ok, make_reply 0], Err_general_failure, 2, general_failure),
      ([g, q], [ok, make_reply 0], Err_general_failure, 3, general_failure)])"

definition testAsyncDomain :: "(byte list list \<times> error \<times> nat \<times> error_code) list" where
  "testAsyncDomain =
     [([make_greet_reply Auth_no_authentication, make_reply 0], Err_succeeded, 0, ec_ok),
      ([], Err_general_failure, 1, general_failure),
      ([make_reply 0], Err_general_failure, 1, general_failure)]"

section \<open>SOCKS4\<close>

definition make_request_v4 :: "endpoint \<Rightarrow> string \<Rightarrow> byte list" where
  "make_request_v4 ep socks_user =
     (let n = 9 + length socks_user
      in message_of (prepare_request_v4 (replicate n 0) n ep socks_user))"

definition make_reply_v4 :: "byte \<Rightarrow> byte list" where
  "make_reply_v4 r = [0x04, r, 0, 0, 0, 0, 0, 0]"

text \<open>A case: the reply, the user id, the error expected, and the point and code of the failure.\<close>

type_synonym test_case_v4 = "byte list \<times> string \<times> error \<times> nat \<times> error_code"

fun checkEndpoint_v4 :: "test_case_v4 \<Rightarrow> bool" where
  "checkEndpoint_v4 (reply, socks_user, exp_ec, fail_at, fail_with) =
     (let s = ts_reset_read (test_stream_new fail_at fail_with) reply
      in case connect_v4 ts_ops s v4_none socks_user of
        Inl e \<Rightarrow> False
      | Inr (app_ep, ec, s) \<Rightarrow> ts_equal_write_buffers s [make_request_v4 v4_none socks_user]
          \<and> ep_address app_ep = Address_v4 0 \<and> ec = make_error_code exp_ec)"

fun checkAsyncEndpoint_v4 :: "test_case_v4 \<Rightarrow> bool" where
  "checkAsyncEndpoint_v4 (reply, socks_user, exp_ec, fail_at, fail_with) =
     (let s = ts_reset_read (test_stream_new fail_at fail_with) reply
      in case async_connect_v4 3 ts_ops s v4_none socks_user of
        Some (Inr (app_ep, ec, s)) \<Rightarrow> ts_equal_write_buffers s [make_request_v4 v4_none socks_user]
          \<and> app_ep = v4_none \<and> ec = make_error_code exp_ec
      | _ \<Rightarrow> False)"

definition testEndpoint_v4 :: "test_case_v4 list" where
  "testEndpoint_v4 =
     [(make_reply_v4 90, [], Err_request_granted, 0, ec_ok),
      (make_reply_v4 90, ''username'', Err_request_granted, 0, ec_ok),
      ([4], ''username'', Err_bad_reply_size, 0, ec_ok),
      ((make_reply_v4 90)[0 := 5], ''username'', Err_bad_reply_version, 0, ec_ok),
      (make_reply_v4 91, ''username'', Err_request_rejected_or_failed, 0, ec_ok),
      (make_reply_v4 0xEF, ''username'', Err_unassigned_reply_code, 0, ec_ok),
      ([4, 90], ''username'', Err_bad_reply_size, 0, ec_ok),
      (make_reply_v4 90, [], Err_general_failure, 0, general_failure),
      (make_reply_v4 90, [], Err_general_failure, 1, general_failure)]"

definition testAsyncEndpoint_v4 :: "test_case_v4 list" where
  "testAsyncEndpoint_v4 =
     [(make_reply_v4 90, [], Err_request_granted, 0, ec_ok),
      (make_reply_v4 90, ''username'', Err_request_granted, 0, ec_ok),
      ([4], ''username'', Err_bad_reply_size, 0, ec_ok),
      ((make_reply_v4 90)[0 := 5], ''username'', Err_bad_reply_version, 0, ec_ok),
      (make_reply_v4 91, ''username'', Err_request_rejected_or_failed, 0, ec_ok),
      ([4, 90], ''username'', Err_bad_reply_size, 0, ec_ok),
      (make_reply_v4 90, [], Err_general_failure, 0, general_failure),
      (make_reply_v4 90, [], Err_general_failure, 1, general_failure)]"

section \<open>Error codes\<close>

text \<open>
  What \<open>check\<close> asks of a code and of a condition; that a condition equals itself is left out.
\<close>

fun check_error :: "condition \<times> error \<Rightarrow> bool" where
  "check_error (c, e) \<longleftrightarrow> socks_category_name \<noteq> [] \<and> message (error_value e) \<noteq> []
     \<and> matches_condition (make_error_code e) c
     \<and> condition_category_name \<noteq> [] \<and> condition_message (condition_value c) \<noteq> []"

definition testErrors :: "(condition \<times> error) list" where
  "testErrors =
     [(Cond_succeeded, Err_succeeded), (Cond_reply_error, Err_general_failure),
      (Cond_reply_error, Err_connection_not_allowed_by_ruleset),
      (Cond_reply_error, Err_network_unreachable), (Cond_reply_error, Err_host_unreachable),
      (Cond_reply_error, Err_connection_refused), (Cond_reply_error, Err_ttl_expired),
      (Cond_reply_error, Err_command_not_supported),
      (Cond_reply_error, Err_address_type_not_supported), (Cond_succeeded, Err_request_granted),
      (Cond_reply_error, Err_request_rejected_or_failed),
      (Cond_reply_error, Err_cannot_connect_to_identd_on_the_client),
      (Cond_reply_error, Err_client_and_identd_report_different_user_ids),
      (Cond_reply_error, Err_unassigned_reply_code), (Cond_io_error, Err_bad_reply_size),
      (Cond_io_error, Err_bad_reply_version), (Cond_io_error, Err_bad_server_choice),
      (Cond_io_error, Err_bad_reply_command), (Cond_io_error, Err_bad_reserved_component),
      (Cond_io_error, Err_bad_address_type), (Cond_io_error, Err_access_denied),
      (Cond_reply_error, Err_unassigned_reply_code)]"

text \<open>The checks behind the table: values that are no enumerator.\<close>

definition testErrors_unassigned :: bool where
  "testErrors_unassigned \<longleftrightarrow>
     default_error_condition (Socks_code 0xEF) = Code_condition (Socks_code 0xEF)
     \<and> condition_message 0xEF \<noteq> []"

text \<open>A \<open>std::error_code\<close> that is made of a library's code keeps its value and its category.\<close>

definition testStd :: bool where
  "testStd \<longleftrightarrow> (let ec = make_error_code Err_succeeded
     in ec = make_error_code Err_succeeded \<and> matches_condition ec Cond_succeeded)"

section \<open>Evaluation through the reference\<close>

lemma ts_equal_chunks_rest:
  "drop checked data = concat bufs \<Longrightarrow> checked \<le> length data \<Longrightarrow> ts_equal_chunks bufs (length data) data checked"
proof (induction bufs arbitrary: checked)
  case (Cons b bs)
  have len: "length data - checked = length b + length (concat bs)"
    using Cons.prems(1) by (metis concat.simps(2) length_append length_drop)
  have "drop (length b) (drop checked data) = drop (length b) (b @ concat bs)" using Cons.prems(1) by simp
  then have "drop (checked + length b) data = concat bs" by (simp add: add.commute)
  with Cons.IH [of "checked + length b"] Cons.prems len show ?case by (simp add: Let_def)
qed simp

lemma ts_equal_written: "ts_in s = concat bufs \<Longrightarrow> ts_equal_write_buffers s bufs"
  using ts_equal_chunks_rest [of 0 "ts_in s" bufs]
  by (simp add: ts_equal_write_buffers_def ts_equal_buffers_def length_concat)

lemma make_greeting_bytes [simp]: "make_greeting opt = greeting_bytes opt"
  by (simp add: make_greeting_def message_of_def prepare_greeting_eq length_greeting_bytes
      greeting_methods_def)

lemma make_userpass_request_bytes:
  "length (user opt) \<le> 255 \<Longrightarrow> length (pass opt) \<le> 255 \<Longrightarrow> make_userpass_request opt = userpass_bytes opt"
  by (simp add: make_userpass_request_def message_of_def Let_def prepare_userpass_request_eq
      length_userpass_bytes)

lemma make_request_bytes [simp]: "make_request ep = connect_request_bytes (To_endpoint ep)"
  unfolding make_request_def
  by (subst prepare_request_eq)
    (simp_all add: message_of_def length_connect_request_bytes dst_addr_size_endpoint_def)

lemma checkEndpoint_reference:
  assumes "connect_reference blocking_verdict e k (concat replies) (To_endpoint ep) auth
      = (ep, make_error_code ec, concat requests)"
    and "\<not> oversized_auth auth" and "length (concat replies) \<le> size_max"
  shows "checkEndpoint (requests, replies, auth, ec, k, e, ep)"
proof -
  have "length (connect_request_bytes (To_endpoint ep)) \<le> 513"
    by (simp add: length_connect_request_bytes dst_addr_size_endpoint_def)
  from answersE [OF connect_to_answers [OF follows_new [OF assms(3)] _ assms(2) this, of "replicate 513 0" e k]]
    assms(1) ts_equal_written show ?thesis by fastforce
qed

lemma checkAsyncEndpoint_reference:
  assumes "connect_reference coroutine_verdict e k (concat replies) (To_endpoint ep) auth
      = (ep, make_error_code ec, concat requests)"
    and "\<not> oversized_auth auth" and "length (concat replies) \<le> size_max"
  shows "checkAsyncEndpoint (requests, replies, auth, ec, k, e, ep)"
proof -
  have "length (connect_request_bytes (To_endpoint ep)) \<le> 513"
    by (simp add: length_connect_request_bytes dst_addr_size_endpoint_def)
  from async_connect_answers [OF follows_new [OF assms(3)] assms(2) this, of k e] obtain r
    where run: "async_connect_any 7 ts_ops (ts_reset_read (test_stream_new k e) (concat replies))
        (To_endpoint ep) auth = Some r"
      and ans: "res_post (\<lambda>_. False)
        (answers (connect_reference coroutine_verdict e k (concat replies) (To_endpoint ep) auth)) r" by blast
  from answersE [OF ans] run assms(1) ts_equal_written show ?thesis by fastforce
qed

lemma be_word_zeros [simp]: "be_word (replicate n 0) = 0"
  by (induction n) (simp_all add: be_word_Cons)

lemmas evaluation = reference_defs coroutine_verdict_def greeting_methods_def oversized_auth_def
  size_max_def make_greet_reply_def make_reply_def make_reply_incomplete_def make_reply_ipv6_def
  make_reply_ipv6_incomplete_def make_reply_unknown_def make_userpass_request_bytes reply_v5_def
  to_reply_code_def be_word_Cons Let_def

lemma testEndpoint_passes: "list_all checkEndpoint testEndpoint"
  unfolding testEndpoint_def Let_def list.pred_inject
  by (intro conjI checkEndpoint_reference TrueI) (simp_all add: evaluation)

lemma testEndpoint_more_passes: "list_all checkEndpoint testEndpoint_more"
  unfolding testEndpoint_more_def Let_def list.pred_inject
  by (intro conjI checkEndpoint_reference TrueI) (simp_all add: evaluation)

lemma testAsyncEndpoint_passes: "list_all checkAsyncEndpoint testAsyncEndpoint"
  unfolding testAsyncEndpoint_def Let_def list.pred_inject
  by (intro conjI checkAsyncEndpoint_reference TrueI) (simp_all add: evaluation)

lemma make_request_domain_bytes:
  "length (de_domain d) \<le> 255 \<Longrightarrow> make_request_domain d = connect_request_bytes (To_domain d)"
  unfolding make_request_domain_def
  by (subst prepare_request_eq)
    (simp_all add: message_of_def length_connect_request_bytes dst_addr_size_domain_def)

lemma example_com_size: "length (connect_request_bytes (To_domain example_com)) \<le> 513"
  by (simp add: length_connect_request_bytes dst_addr_size_domain_def example_com_def)

lemma checkDomain_reference:
  assumes "connect_reference blocking_verdict e k (concat replies) (To_domain example_com) auth_none
      = (v4_none, make_error_code ec, concat requests)"
    and "length (concat replies) \<le> size_max"
  shows "checkDomain (requests, replies, ec, k, e)"
proof -
  have "\<not> oversized_auth auth_none" by (simp add: oversized_auth_def)
  from answersE [OF connect_to_answers [OF follows_new [OF assms(2)] _ this example_com_size,
      of "replicate 513 0" e k]] assms(1) ts_equal_written
  show ?thesis by fastforce
qed

lemma checkAsyncDomain_reference:
  assumes "connect_reference coroutine_verdict e k (concat replies) (To_domain example_com) auth_none
      = (v4_none, make_error_code ec, sent)"
    and "length (concat replies) \<le> size_max"
  shows "checkAsyncDomain (replies, ec, k, e)"
proof -
  have "\<not> oversized_auth auth_none" by (simp add: oversized_auth_def)
  from async_connect_answers [OF follows_new [OF assms(2)] this example_com_size, of k e] obtain r
    where run: "async_connect_any 7 ts_ops (ts_reset_read (test_stream_new k e) (concat replies))
        (To_domain example_com) auth_none = Some r"
      and ans: "res_post (\<lambda>_. False) (answers (connect_reference coroutine_verdict e k (concat replies)
        (To_domain example_com) auth_none)) r" by blast
  from answersE [OF ans] run assms(1) show ?thesis by fastforce
qed

lemma testDomain_passes: "list_all checkDomain testDomain"
  unfolding testDomain_def Let_def list.pred_inject
  by (intro conjI checkDomain_reference TrueI)
    (simp_all add: evaluation make_request_domain_bytes example_com_def)

lemma testAsyncDomain_passes: "list_all checkAsyncDomain testAsyncDomain"
  unfolding testAsyncDomain_def list.pred_inject
  by (intro conjI checkAsyncDomain_reference TrueI) (simp_all add: evaluation)

lemma make_request_v4_bytes:
  "make_request_v4 v4_none u = connect_request_v4_bytes 0 0 u"
  by (simp add: make_request_v4_def Let_def prepare_request_v4_vector message_of_def
      length_connect_request_v4_bytes)

lemma checkEndpoint_v4_reference:
  assumes "connect_v4_reference e k reply 0 0 u = (v4_none, make_error_code ec, connect_request_v4_bytes 0 0 u)"
    and "length reply \<le> size_max"
  shows "checkEndpoint_v4 (reply, u, ec, k, e)" and "checkAsyncEndpoint_v4 (reply, u, ec, k, e)"
proof -
  have "ep_address v4_none = Address_v4 0" by simp
  from answersE [OF connect_v4_answers [OF follows_new [OF assms(2)] this, of e k u]] assms(1)
  obtain s where run: "connect_v4 ts_ops (ts_reset_read (test_stream_new k e) reply) v4_none u
      = Inr (v4_none, make_error_code ec, s)" and "ts_in s = connect_request_v4_bytes 0 0 u" by auto
  then have sent: "ts_equal_write_buffers s [make_request_v4 v4_none u]"
    by (simp add: ts_equal_written make_request_v4_bytes)
  with run show "checkEndpoint_v4 (reply, u, ec, k, e)" by simp
  from run sent show "checkAsyncEndpoint_v4 (reply, u, ec, k, e)"
    using async_connect_v4_eq [of 0 ts_ops "ts_reset_read (test_stream_new k e) reply" v4_none u]
    by (simp add: eval_nat_numeral)
qed

lemmas evaluation_v4 = connect_v4_reference_def tick_def receive_def reply_v4_def make_reply_v4_def
  to_reply_code_v4_def granted_endpoint_def size_max_def be_word_Cons

lemma testEndpoint_v4_passes: "list_all checkEndpoint_v4 testEndpoint_v4"
  unfolding testEndpoint_v4_def list.pred_inject
  by (intro conjI checkEndpoint_v4_reference TrueI) (simp_all add: evaluation_v4)

lemma testAsyncEndpoint_v4_passes: "list_all checkAsyncEndpoint_v4 testAsyncEndpoint_v4"
  unfolding testAsyncEndpoint_v4_def list.pred_inject
  by (intro conjI checkEndpoint_v4_reference TrueI) (simp_all add: evaluation_v4)

lemma message_nonempty [simp]: "message ev \<noteq> []" "condition_message cv \<noteq> []"
proof -
  have "socks_message e \<noteq> []" for e by (cases e) simp_all
  then show "message ev \<noteq> []" "condition_message cv \<noteq> []"
    by (simp_all add: message_def condition_message_def split: option.splits)
qed

lemma testErrors_passes: "list_all check_error testErrors"
  by (simp add: testErrors_def matches_condition_make_error_code socks_category_name_def
      condition_category_name_def)

lemma testErrors_unassigned_passes: testErrors_unassigned
  by (simp add: testErrors_unassigned_def socks_default_error_condition_def error_of_int_def
      enum_error_def)

lemma testStd_passes: testStd
  by (simp add: testStd_def matches_condition_make_error_code)

end
