(* ===== verification/Client_Sync.thy ===== *)
theory Client_Sync
  imports Connect_V4 "HOL-Library.Sublist"
begin

text \<open>
  The blocking HTTP client (\<open>example/client/sync/socks_client_sync.cpp\<close>): it parses two URLs,
  connects to the SOCKS server, asks it for the target and fetches the target's path.

  Boost.URL, Asio's resolver and socket, and Boost.Beast are not part of the repository.
  What the program uses of a parsed URL is the record \<open>url\<close>; the calls into those libraries
  are the fields of the record \<open>world\<close>, which act on a state of type \<open>'s\<close>, the socket among
  it, and are an argument of every function below.
\<close>

section \<open>URLs\<close>

datatype scheme = Scheme_http | Scheme_https | Scheme_other

datatype host_type = Host_none | Host_name | Host_ipv4 | Host_ipv6 | Host_ipvfuture

record url =
  u_scheme :: string
  u_scheme_id :: scheme
  u_has_port :: bool
  u_port_number :: u16
  u_host_type :: host_type
  u_encoded_host :: string
  u_has_userinfo :: bool
  u_encoded_user :: string
  u_encoded_password :: string
  u_encoded_path :: string

definition default_port :: "url \<Rightarrow> u16" where
  "default_port u =
     (if \<not> u_has_port u \<and> u_scheme_id u = Scheme_http then 80
      else if \<not> u_has_port u \<and> u_scheme_id u = Scheme_https then 445
      else if \<not> u_has_port u \<and> prefix ''socks'' (u_scheme u) then 1080
      else u_port_number u)"

section \<open>The libraries\<close>

record http_request =
  rq_target :: string
  rq_version :: int
  rq_host :: string

record 's world =
  w_ops :: "'s stream_ops"
  w_parse_uri :: "string \<Rightarrow> error_code + url"
  w_ipv4 :: "string \<Rightarrow> error_code + u32"
  w_ipv6 :: "string \<Rightarrow> error_code + byte list"
  w_resolve :: "'s \<Rightarrow> string \<Rightarrow> string \<Rightarrow> endpoint list \<times> error_code \<times> 's"
  w_connect :: "'s \<Rightarrow> endpoint list \<Rightarrow> error_code \<times> 's"
  w_http_write :: "'s \<Rightarrow> http_request \<Rightarrow> error_code \<times> 's"
  w_http_read :: "'s \<Rightarrow> error_code \<times> 's"
  w_shutdown :: "'s \<Rightarrow> error_code \<times> 's"
  w_end_of_stream :: error_code
  w_not_connected :: error_code

section \<open>SOCKS4 with a host name\<close>

fun connect_v4_each ::
    "'s stream_ops \<Rightarrow> 's \<Rightarrow> endpoint list \<Rightarrow> u16 \<Rightarrow> string \<Rightarrow> error_code
      \<Rightarrow> (endpoint \<times> error_code \<times> 's) result" where
  "connect_v4_each ops s [] target_port socks_user ec = Inr (endpoint_default, ec, s)"
| "connect_v4_each ops s (ep # eps) target_port socks_user ec =
     (if is_v6 (ep_address ep) then
        (let ec = (if \<not> failed ec then Asio_code Asio_host_not_found else ec)
         in connect_v4_each ops s eps target_port socks_user ec)
      else
        res_bind (connect_v4 ops s (ep\<lparr>ep_port := target_port\<rparr>) socks_user) (\<lambda>(ep, ec, s).
        if failed ec then connect_v4_each ops s eps target_port socks_user ec
        else Inr (ep, ec, s)))"

text \<open>IPv6 addresses are skipped.\<close>

lemma connect_v4_each_all_v6:
  "\<forall>ep \<in> set xs. is_v6 (ep_address ep) \<Longrightarrow> connect_v4_each ops s xs p u ec0
    = Inr (endpoint_default, if xs = [] \<or> failed ec0 then ec0 else Asio_code Asio_host_not_found, s)"
  by (induction xs arbitrary: ec0) (auto simp: Let_def)

lemma connect_v4_each_skip_v6:
  "\<forall>ep \<in> set xs. is_v6 (ep_address ep)
    \<Longrightarrow> \<exists>ec1. connect_v4_each ops s (xs @ ys) p u ec0 = connect_v4_each ops s ys p u ec1"
  by (induction xs arbitrary: ec0) (auto simp: Let_def)

definition resolve_and_connect_v4 ::
    "'s world \<Rightarrow> 's \<Rightarrow> string \<Rightarrow> u16 \<Rightarrow> string \<Rightarrow> (endpoint \<times> error_code \<times> 's) result" where
  "resolve_and_connect_v4 w s target_host target_port socks_user =
     (let (endpoints, ec, s) = w_resolve w s target_host (to_string target_port) in
      if failed ec then Inr (endpoint_default, ec, s)
      else connect_v4_each (w_ops w) s endpoints target_port socks_user ec)"

section \<open>The request\<close>

text \<open>
  Only called for an IPv4 or IPv6 host.  \<open>parse_ipv4_address\<close> and \<open>parse_ipv6_address\<close> give a
  result, and \<open>value()\<close> throws if it holds an error.  In Boost.URL the encoded host of an IPv6
  literal has its brackets, which \<open>parse_ipv6_address\<close> does not accept.
\<close>

definition get_endpoint_unchecked :: "'s world \<Rightarrow> url \<Rightarrow> endpoint result" where
  "get_endpoint_unchecked w u =
     (if u_host_type u = Host_ipv4 then
        res_bind (result_value (w_ipv4 w (u_encoded_host u))) (\<lambda>ip.
        Inr \<lparr>ep_address = Address_v4 ip, ep_port = default_port u\<rparr>)
      else
        res_bind (result_value (w_ipv6 w (u_encoded_host u))) (\<lambda>ip.
        Inr \<lparr>ep_address = make_address_v6 ip, ep_port = default_port u\<rparr>))"

text \<open>The host is a literal that its address parser refuses.\<close>

definition bad_literal :: "'s world \<Rightarrow> url \<Rightarrow> bool" where
  "bad_literal w u \<longleftrightarrow>
     u_host_type u = Host_ipv4 \<and> (\<exists>err. w_ipv4 w (u_encoded_host u) = Inl err)
     \<or> u_host_type u = Host_ipv6 \<and> (\<exists>err. w_ipv6 w (u_encoded_host u) = Inl err)"

lemma get_endpoint_Inl:
  assumes "get_endpoint_unchecked w u = Inl e" and "u_host_type u = Host_ipv4 \<or> u_host_type u = Host_ipv6"
  shows "e = Result_holds_error \<and> bad_literal w u"
  using assms
  by (auto simp: get_endpoint_unchecked_def bad_literal_def res_bind_eq_Inl result_value_eq_Inl isl_def
      split: if_splits)

lemma get_endpoint_v4:
  "get_endpoint_unchecked w u = Inr ep \<Longrightarrow> u_host_type u = Host_ipv4 \<Longrightarrow> \<not> is_v6 (ep_address ep)"
  by (auto simp: get_endpoint_unchecked_def res_bind_eq_Inr)

text \<open>What \<open>socks_request\<close> does, with what it prints to \<open>std::cerr\<close>: \<open>fail\<close> prints and is false.\<close>

type_synonym 's request_result = "(bool \<times> string list \<times> 's) result"

definition fail_request :: "string \<Rightarrow> 's \<Rightarrow> 's request_result" where
  "fail_request what s = Inr (False, [what], s)"

text \<open>\<open>socks_version\<close>, or none for a scheme that is refused.\<close>

definition socks_version_of :: "url \<Rightarrow> byte option" where
  "socks_version_of socks =
     (if u_scheme socks = ''socks5'' then Some 0x05
      else if u_scheme socks = ''socks4'' \<or> u_scheme socks = ''socks4a'' then Some 0x04
      else None)"

text \<open>Connect to the SOCKS server; None is an unsupported host.\<close>

definition connect_to_proxy :: "'s world \<Rightarrow> 's \<Rightarrow> url \<Rightarrow> (string option \<times> 's) result" where
  "connect_to_proxy w s socks =
     (if u_host_type socks = Host_name then
        (let (endpoints, ec, s) = w_resolve w s (u_encoded_host socks) (to_string (default_port socks))
         in if failed ec then Inr (Some ''resolve'', s)
            else let (ec, s) = w_connect w s endpoints
                 in Inr (if failed ec then Some ''connect'' else None, s))
      else if u_host_type socks = Host_ipv4 \<or> u_host_type socks = Host_ipv6 then
        res_bind (get_endpoint_unchecked w socks) (\<lambda>ep.
        let (ec, s) = w_connect w s [ep]
        in Inr (if failed ec then Some ''connect'' else None, s))
      else Inr (Some ''Unsupported host'', s))"

text \<open>
  Send a SOCKS connect request according to the URL.  For a host that is neither a name nor
  an address no function is called and the code stays what the connection to the server left.
\<close>

definition socks_connect ::
    "'s world \<Rightarrow> 's \<Rightarrow> buffer \<Rightarrow> byte \<Rightarrow> url \<Rightarrow> url \<Rightarrow> (error_code \<times> 's) result" where
  "socks_connect w s stack socks_version target socks =
     (if socks_version = 0x05 then
        (let a = (if \<not> u_has_userinfo socks then auth_none
                  else auth_userpass (u_encoded_user socks) (u_encoded_password socks)) in
         if u_host_type target = Host_name then
           res_bind (connect_domain (w_ops w) s stack (u_encoded_host target) (default_port target) a)
             (\<lambda>(_, ec, s). Inr (ec, s))
         else if u_host_type target = Host_ipv4 \<or> u_host_type target = Host_ipv6 then
           res_bind (get_endpoint_unchecked w target) (\<lambda>ep.
           res_bind (connect_endpoint (w_ops w) s stack ep a) (\<lambda>(_, ec, s). Inr (ec, s)))
         else Inr (ec_ok, s))
      else
        (if u_host_type target = Host_name then
           res_bind (resolve_and_connect_v4 w s (u_encoded_host target) (default_port target)
               (u_encoded_user socks)) (\<lambda>(_, ec, s). Inr (ec, s))
         else if u_host_type target = Host_ipv4 \<or> u_host_type target = Host_ipv6 then
           res_bind (get_endpoint_unchecked w target) (\<lambda>ep.
           res_bind (connect_v4 (w_ops w) s ep (u_encoded_user socks)) (\<lambda>(_, ec, s). Inr (ec, s)))
         else Inr (ec_ok, s)))"

definition http_exchange :: "'s world \<Rightarrow> 's \<Rightarrow> int \<Rightarrow> url \<Rightarrow> 's request_result" where
  "http_exchange w s http_version target =
     (let req = \<lparr>rq_target = u_encoded_path target, rq_version = http_version,
                 rq_host = u_encoded_host target\<rparr>;
          (ec, s) = w_http_write w s req in
      if failed ec then fail_request ''write'' s
      else let (ec, s) = w_http_read w s in
        if failed ec \<and> ec \<noteq> w_end_of_stream w then fail_request ''read'' s
        else let (ec, s) = w_shutdown w s in
          if failed ec \<and> ec \<noteq> w_not_connected w then fail_request ''shutdown'' s
          else Inr (True, [], s))"

lemma no_fault_after_socks [simp]:
  "fail_request what s \<noteq> Inl e" "http_exchange w s v t \<noteq> Inl e"
  by (simp_all add: fail_request_def http_exchange_def Let_def split: prod.split)

definition socks_request ::
    "'s world \<Rightarrow> 's \<Rightarrow> buffer \<Rightarrow> int \<Rightarrow> string \<Rightarrow> string \<Rightarrow> 's request_result" where
  "socks_request w s stack http_version target_str socks_str =
     (case w_parse_uri w target_str of Inl e \<Rightarrow> fail_request ''Parse target'' s
      | Inr target \<Rightarrow>
     (case w_parse_uri w socks_str of Inl e \<Rightarrow> fail_request ''Parse SOCKS'' s
      | Inr socks \<Rightarrow>
     (case socks_version_of socks of None \<Rightarrow> fail_request ''Invalid SOCKS scheme: '' s
      | Some socks_version \<Rightarrow>
     if socks_version = 0x04 \<and> u_host_type target = Host_ipv6
     then fail_request ''SOCKS4 does not support IPv6 addresses'' s
     else
       res_bind (connect_to_proxy w s socks) (\<lambda>(what, s).
       case what of Some what \<Rightarrow> fail_request what s
       | None \<Rightarrow>
           res_bind (socks_connect w s stack socks_version target socks) (\<lambda>(ec, s).
           if failed ec then fail_request ''socks_connect'' s
           else http_exchange w s http_version target)))))"

definition main_sync :: "'s world \<Rightarrow> 's \<Rightarrow> buffer \<Rightarrow> string list \<Rightarrow> (nat \<times> 's) result" where
  "main_sync w s stack argv =
     (if length argv \<noteq> 3 then Inr (1, s)
      else res_bind (socks_request w s stack 11 (argv ! 1) (argv ! 2)) (\<lambda>(ok, _, s).
        Inr (if ok then 0 else 1, s)))"

section \<open>What the program asks of the libraries\<close>

text \<open>
  The stream contract, with a resolver and a connect that leave the stream in a good state
  and have no part in the bytes sent and received over it.
\<close>

locale client_world = sync_stream "w_ops w" inv sent received
  for w :: "'s world" and inv sent received +
  assumes resolve_inv: "inv s \<Longrightarrow> w_resolve w s host service = (eps, ec, s') \<Longrightarrow> inv s'"
    and connect_inv: "inv s \<Longrightarrow> w_connect w s eps = (ec, s') \<Longrightarrow> inv s'"
begin

lemma connect_v4_any_post:
  assumes "inv s" and "\<not> is_v6 (ep_address t)"
  shows "res_post E (\<lambda>(ep, ec, s'). inv s') (connect_v4 (w_ops w) s t u)"
proof -
  obtain ip where "ep_address t = Address_v4 ip" using assms(2) by (cases "ep_address t") auto
  from connect_v4_post [OF assms(1) this, of u] show ?thesis
    by (cases "connect_v4 (w_ops w) s t u") (auto simp: connect_v4_done_def)
qed

lemma connect_v4_each_post:
  "inv s \<Longrightarrow> res_post E (\<lambda>(ep, ec, s'). inv s') (connect_v4_each (w_ops w) s eps port u ec)"
proof (induction eps arbitrary: s ec)
  case (Cons ep eps)
  show ?case
  proof (cases "is_v6 (ep_address ep)")
    case True
    with Cons show ?thesis by simp
  next
    case False
    then have "res_post E (\<lambda>(ep, ec, s'). inv s') (connect_v4 (w_ops w) s (ep\<lparr>ep_port := port\<rparr>) u)"
      using Cons.prems by (intro connect_v4_any_post) simp_all
    with Cons.IH False show ?thesis
      by (cases "connect_v4 (w_ops w) s (ep\<lparr>ep_port := port\<rparr>) u") auto
  qed
qed simp

lemma resolve_and_connect_v4_post:
  assumes "inv s"
  shows "res_post E (\<lambda>(ep, ec, s'). inv s') (resolve_and_connect_v4 w s host port u)"
  using assms resolve_inv
  by (auto simp: resolve_and_connect_v4_def connect_v4_each_post split: prod.splits)

end

lemma connect_v5_fault:
  assumes "res_post (connect_fault opt t) Q m" and "m = Inl e"
  shows "e = Assertion_failed \<and> (oversized_auth opt \<or> 513 < length (connect_request_bytes t))"
  using assms by (simp add: connect_fault_def)

text \<open>The URLs for which a connect function asserts.\<close>

definition oversized_urls :: "url \<Rightarrow> url \<Rightarrow> bool" where
  "oversized_urls target socks \<longleftrightarrow> u_scheme socks = ''socks5''
     \<and> (255 < length (u_encoded_user socks) \<or> 255 < length (u_encoded_password socks)
        \<or> 506 < length (u_encoded_host target))"

context client_world begin

lemma socks_connect_v5_fault:
  assumes "inv s" and "length stack = 513" and "u_scheme socks = ''socks5''"
    and "socks_connect w s stack 5 target socks = Inl e"
  shows "e = Assertion_failed \<and> oversized_urls target socks
    \<or> e = Result_holds_error \<and> bad_literal w target"
proof -
  let ?a = "if \<not> u_has_userinfo socks then auth_none
    else auth_userpass (u_encoded_user socks) (u_encoded_password socks)"
  have auth: "oversized_auth ?a \<Longrightarrow> oversized_urls target socks"
    using assms(3) by (auto simp: oversized_auth_def oversized_urls_def split: if_splits)
  let ?d = "To_domain \<lparr>de_domain = u_encoded_host target, de_port = default_port target\<rparr>"
  have dom: "513 < length (connect_request_bytes ?d) \<Longrightarrow> oversized_urls target socks"
    using assms(3) by (simp add: length_connect_request_bytes dst_addr_size_domain_def oversized_urls_def)
  have ep: "\<not> 513 < length (connect_request_bytes (To_endpoint e))" for e
    by (simp add: length_connect_request_bytes dst_addr_size_endpoint_def)
  from assms(4)
  consider "connect_domain (w_ops w) s stack (u_encoded_host target) (default_port target) ?a = Inl e"
    | e' where "connect_endpoint (w_ops w) s stack e' ?a = Inl e"
    | "get_endpoint_unchecked w target = Inl e" "u_host_type target = Host_ipv4 \<or> u_host_type target = Host_ipv6"
    by (auto simp: socks_connect_def Let_def res_bind_eq_Inl split: if_splits)
  then show ?thesis
  proof cases
    case 1
    with connect_v5_fault [OF connect_domain_post [OF assms(1,2)]] auth dom show ?thesis by blast
  next
    case 2
    with connect_v5_fault [OF connect_endpoint_post [OF assms(1,2)]] auth ep show ?thesis by blast
  qed (simp add: get_endpoint_Inl)
qed

lemma socks_connect_v4_fault:
  assumes "inv s" and "v \<noteq> 5" and "u_host_type target \<noteq> Host_ipv6"
    and "socks_connect w s stack v target socks = Inl e"
  shows "e = Result_holds_error \<and> bad_literal w target"
proof -
  from assms(2-4)
  consider (name) "resolve_and_connect_v4 w s (u_encoded_host target) (default_port target)
        (u_encoded_user socks) = Inl e"
    | (literal) "u_host_type target = Host_ipv4" "get_endpoint_unchecked w target = Inl e"
    | (connect) ep where "u_host_type target = Host_ipv4" "get_endpoint_unchecked w target = Inr ep"
        "connect_v4 (w_ops w) s ep (u_encoded_user socks) = Inl e"
    by (auto simp: socks_connect_def res_bind_eq_Inl split: if_splits)
  then show ?thesis
  proof cases
    case name
    from res_post_InlD [OF resolve_and_connect_v4_post [OF assms(1)] this, of "\<lambda>_. False"]
    show ?thesis by simp
  next
    case literal
    then show ?thesis by (simp add: get_endpoint_Inl)
  next
    case connect
    from res_post_InlD [OF connect_v4_any_post [OF assms(1) get_endpoint_v4 [OF connect(2,1)]] connect(3),
        of "\<lambda>_. False"]
    show ?thesis by simp
  qed
qed

lemma socks_connect_fault:
  assumes "inv s" and "length stack = 513" and "socks_version_of socks = Some v"
    and "v = 4 \<longrightarrow> u_host_type target \<noteq> Host_ipv6"
    and "socks_connect w s stack v target socks = Inl e"
  shows "e = Assertion_failed \<and> oversized_urls target socks
    \<or> e = Result_holds_error \<and> bad_literal w target"
proof (cases "v = 5")
  case True
  with assms(3) have "u_scheme socks = ''socks5''" by (auto simp: socks_version_of_def split: if_splits)
  with socks_connect_v5_fault [OF assms(1,2)] assms(5) True show ?thesis by blast
next
  case False
  with assms(3,4) have "u_host_type target \<noteq> Host_ipv6"
    by (auto simp: socks_version_of_def split: if_splits)
  with socks_connect_v4_fault [OF assms(1) False _ assms(5)] show ?thesis by blast
qed

lemma connect_to_proxy_inv:
  assumes "inv s" and "connect_to_proxy w s socks = Inr (r, s')"
  shows "inv s'"
proof -
  obtain eps ec1 s1 where res: "w_resolve w s (u_encoded_host socks) (to_string (default_port socks))
      = (eps, ec1, s1)" by (metis prod_cases3)
  have con: "inv (snd (w_connect w s0 eps))" if "inv s0" for s0 eps
    using connect_inv [OF that surjective_pairing] .
  from assms(2) resolve_inv [OF assms(1) res] con assms(1) show ?thesis
    by (auto simp: connect_to_proxy_def res Let_def case_prod_beta res_bind_eq_Inr split: if_splits)
qed

end

lemma connect_to_proxy_fault:
  assumes "connect_to_proxy w s socks = Inl e"
  shows "e = Result_holds_error \<and> bad_literal w socks"
proof -
  from assms have "get_endpoint_unchecked w socks = Inl e"
    and "u_host_type socks = Host_ipv4 \<or> u_host_type socks = Host_ipv6"
    by (auto simp: connect_to_proxy_def Let_def res_bind_eq_Inl split: if_splits prod.splits)
  then show ?thesis by (rule get_endpoint_Inl)
qed

section \<open>A world over the test stream\<close>

text \<open>
  The test stream with a URL parser that knows four URLs, one of them with an IPv6 literal, a
  resolver of one address and libraries that succeed, but for \<open>parse_ipv6_address\<close> on brackets.
\<close>

definition demo_url :: "string \<Rightarrow> url" where
  "demo_url sch =
     \<lparr>u_scheme = sch, u_scheme_id = (if sch = ''http'' then Scheme_http else Scheme_other),
      u_has_port = False, u_port_number = 0, u_host_type = Host_name, u_encoded_host = ''h'',
      u_has_userinfo = False, u_encoded_user = [], u_encoded_password = [],
      u_encoded_path = ''/''\<rparr>"

definition demo_literal :: url where
  "demo_literal = (demo_url ''http'')\<lparr>u_host_type := Host_ipv6, u_encoded_host := ''[::1]''\<rparr>"

definition demo_world :: "test_stream world" where
  "demo_world =
     \<lparr>w_ops = ts_ops,
      w_parse_uri = (\<lambda>u. if u \<in> {''http'', ''socks4'', ''socks5''} then Inr (demo_url u)
        else if u = ''ipv6'' then Inr demo_literal else Inl (Other_code 1 1)),
      w_ipv4 = (\<lambda>h. Inr 0),
      w_ipv6 = (\<lambda>h. if prefix ''['' h then Inl (Other_code 1 2) else Inr (replicate 16 0)),
      w_resolve = (\<lambda>s h p. ([endpoint_default\<lparr>ep_port := 80\<rparr>], ec_ok, s)),
      w_connect = (\<lambda>s eps. (ec_ok, s)), w_http_write = (\<lambda>s rq. (ec_ok, s)),
      w_http_read = (\<lambda>s. (ec_ok, s)), w_shutdown = (\<lambda>s. (ec_ok, s)),
      w_end_of_stream = Other_code 2 1, w_not_connected = System_code 107\<rparr>"

lemma w_ops_demo [simp]: "w_ops demo_world = ts_ops"
  by (simp add: demo_world_def)

interpretation demo: client_world demo_world ts_inv ts_in ts_received
  unfolding client_world_def client_world_axioms_def
  using ts_sync_stream by (simp add: demo_world_def)

section \<open>Properties\<close>

text \<open>
  C27 (sync_client_faults).  Whatever the command line, the URL parser, the resolver, the SOCKS
  server and the application server do, \<open>socks_request\<close> ends in two ways only, if it does not
  return: in a failed assertion, for a \<open>socks5\<close> URL with an encoded user or password over 255
  characters or a target host over 506; and in the exception of \<open>value()\<close>, for a target or a
  SOCKS server whose host is an IPv4 or IPv6 literal that the address parser refuses.  In
  particular it never asks the SOCKS4 functions for an IPv6 address.
\<close>
theorem sync_client_faults:
  assumes "client_world w good sent received" and "good s" and "length stack = 513"
    and "socks_request w s stack version target_str socks_str = Inl e"
  shows "\<exists>target socks. w_parse_uri w target_str = Inr target \<and> w_parse_uri w socks_str = Inr socks
    \<and> (e = Assertion_failed \<and> u_scheme socks = ''socks5''
        \<and> (255 < length (u_encoded_user socks) \<or> 255 < length (u_encoded_password socks)
           \<or> 506 < length (u_encoded_host target))
      \<or> e = Result_holds_error \<and> (\<exists>u \<in> {target, socks}.
           u_host_type u = Host_ipv4 \<and> (\<exists>err. w_ipv4 w (u_encoded_host u) = Inl err)
           \<or> u_host_type u = Host_ipv6 \<and> (\<exists>err. w_ipv6 w (u_encoded_host u) = Inl err)))"
proof -
  from assms(4) obtain target where t: "w_parse_uri w target_str = Inr target"
    by (cases "w_parse_uri w target_str") (simp_all add: socks_request_def fail_request_def)
  from assms(4) t obtain socks where k: "w_parse_uri w socks_str = Inr socks"
    by (cases "w_parse_uri w socks_str") (simp_all add: socks_request_def fail_request_def)
  from assms(4) t k obtain v where v: "socks_version_of socks = Some v"
    by (cases "socks_version_of socks") (simp_all add: socks_request_def fail_request_def)
  from assms(4) t k v have v4: "v = 4 \<longrightarrow> u_host_type target \<noteq> Host_ipv6"
    by (auto simp: socks_request_def fail_request_def)
  with assms(4) t k v consider "connect_to_proxy w s socks = Inl e"
    | s1 where "connect_to_proxy w s socks = Inr (None, s1)" "socks_connect w s1 stack v target socks = Inl e"
    by (auto simp: socks_request_def res_bind_eq_Inl split: if_splits option.splits)
  then have "e = Assertion_failed \<and> oversized_urls target socks
    \<or> e = Result_holds_error \<and> (bad_literal w target \<or> bad_literal w socks)"
  proof cases
    case 1
    with connect_to_proxy_fault [of w s socks e] show ?thesis by blast
  next
    case 2
    with client_world.socks_connect_fault [OF assms(1) client_world.connect_to_proxy_inv [OF assms(1,2)]
        assms(3) v v4] show ?thesis by blast
  qed
  with t k show ?thesis unfolding oversized_urls_def bad_literal_def by auto
qed

theorem sync_client_faults_witness:
  "socks_request demo_world (scripted []) (replicate 513 0) 11 ''ipv6'' ''socks5'' = Inl Result_holds_error
    \<and> (\<exists>err. w_ipv6 demo_world ''[::1]'' = Inl err)"
proof -
  have f: "socks_request demo_world (scripted []) (replicate 513 0) 11 ''ipv6'' ''socks5''
      = Inl Result_holds_error"
    by (simp add: socks_request_def demo_world_def demo_url_def demo_literal_def socks_version_of_def
        connect_to_proxy_def socks_connect_def get_endpoint_unchecked_def)
  have "ts_inv (scripted [])" "length (replicate 513 (0 :: byte)) = 513" by simp_all
  from sync_client_faults [OF demo.client_world_axioms this f] f show ?thesis
    by (auto simp: demo_world_def demo_url_def demo_literal_def)
qed

text \<open>
  C40 (sync_client_skips_socks).  For a target URL with an empty or an IPvFuture host neither
  \<open>connect\<close> nor \<open>connect_v4\<close> is called and no error is set: once the connection to the SOCKS
  server stands, the client sends the HTTP request to the SOCKS server itself.
\<close>
theorem sync_client_skips_socks:
  assumes "w_parse_uri w target_str = Inr target" and "w_parse_uri w socks_str = Inr socks"
    and "u_host_type target = Host_none \<or> u_host_type target = Host_ipvfuture"
    and "u_scheme socks \<in> {''socks4'', ''socks4a'', ''socks5''}"
    and "connect_to_proxy w s socks = Inr (None, s1)"
  shows "socks_request w s stack version target_str socks_str = http_exchange w s1 version target"
  using assms
  by (auto simp: socks_request_def socks_version_of_def socks_connect_def Let_def)

theorem sync_client_skips_socks_witness:
  "socks_request (demo_world\<lparr>w_parse_uri := (\<lambda>u. Inr ((demo_url u)\<lparr>u_host_type :=
        if u = ''http'' then Host_none else Host_name\<rparr>))\<rparr>)
      (scripted []) (replicate 513 0) 11 ''http'' ''socks5'' = Inr (True, [], scripted [])"
  using sync_client_skips_socks [of "demo_world\<lparr>w_parse_uri := (\<lambda>u. Inr ((demo_url u)\<lparr>u_host_type :=
        if u = ''http'' then Host_none else Host_name\<rparr>))\<rparr>" "''http''" _ "''socks5''" _
      "scripted []" "scripted []" "replicate 513 0" 11]
  by (simp add: demo_url_def demo_world_def connect_to_proxy_def http_exchange_def)

text \<open>
  When the resolver fails its error is reported and the stream is
  not used.  When every address it returns is IPv6, the result is \<open>host_not_found\<close> and the
  stream is not used either; otherwise addresses are tried in order, and the first that is
  granted is the result.
\<close>
theorem resolve_v4_outcome:
  assumes "w_resolve w s host (to_string port) = (eps, ec, s1)"
  shows "(failed ec \<longrightarrow> resolve_and_connect_v4 w s host port u = Inr (endpoint_default, ec, s1))
    \<and> (\<not> failed ec \<and> eps \<noteq> [] \<and> (\<forall>ep \<in> set eps. is_v6 (ep_address ep)) \<longrightarrow>
        resolve_and_connect_v4 w s host port u
          = Inr (endpoint_default, Asio_code Asio_host_not_found, s1))
    \<and> (\<forall>v6s ep more ep' ec' s2. \<not> failed ec \<and> eps = v6s @ ep # more
        \<and> (\<forall>x \<in> set v6s. is_v6 (ep_address x)) \<and> is_v4 (ep_address ep)
        \<and> connect_v4 (w_ops w) s1 (ep\<lparr>ep_port := port\<rparr>) u = Inr (ep', ec', s2) \<and> \<not> failed ec' \<longrightarrow>
        resolve_and_connect_v4 w s host port u = Inr (ep', ec', s2))"
proof -
  have "\<not> is_v6 a" if "is_v4 a" for a using that by (cases a) auto
  then have "connect_v4_each ops s (v6s @ ep # more) p u ec0 = Inr (ep', ec', s2)"
    if "\<forall>x \<in> set v6s. is_v6 (ep_address x)" "is_v4 (ep_address ep)"
      "connect_v4 ops s (ep\<lparr>ep_port := p\<rparr>) u = Inr (ep', ec', s2)" "\<not> failed ec'"
    for ops s v6s ep "more" p ec0 ep' ec' s2
    using connect_v4_each_skip_v6 [OF that(1), of ops s "ep # more" p u ec0] that by auto
  with assms connect_v4_each_all_v6 [of eps "w_ops w" s1 port u ec] show ?thesis
    by (auto simp: resolve_and_connect_v4_def)
qed

theorem resolve_v4_outcome_witness:
  "resolve_and_connect_v4 (demo_world\<lparr>w_resolve := (\<lambda>s h p.
      ([\<lparr>ep_address = Address_v6 1, ep_port = 80\<rparr>], ec_ok, s))\<rparr>) (scripted []) ''h'' 80 []
    = Inr (endpoint_default, Asio_code Asio_host_not_found, scripted [])"
  using resolve_v4_outcome [of "demo_world\<lparr>w_resolve := (\<lambda>s h p.
      ([\<lparr>ep_address = Address_v6 1, ep_port = 80\<rparr>], ec_ok, s))\<rparr>" "scripted []" "''h''" 80
      "[\<lparr>ep_address = Address_v6 1, ep_port = 80\<rparr>]" ec_ok "scripted []" "[]"]
  by simp

end
