(* ===== verification/Client_Async.thy ===== *)
theory Client_Async
  imports Connect_Async Client_Sync
begin

text \<open>
  The asynchronous HTTP client (\<open>class socks_client\<close> of
  \<open>example/client/async/socks_client_async.cpp\<close>).  A member function takes the client and
  returns it with the asynchronous operation it has started, if any: a client never has two.
  The completion handler of an operation is a function of its own.  A member function that may
  throw gives a result.  The libraries are those of
  \<open>Client_Sync\<close>: an asynchronous operation delivers what its blocking counterpart returns,
  and \<open>async_connect\<close> and \<open>async_connect_v4\<close> are the coroutines of \<open>Connect_Async\<close>.

  The program has its own copies of \<open>default_port\<close> and \<open>get_endpoint_unchecked\<close>, which are proved
  to be those of the blocking client; its \<open>to_string\<close> is that of the server.
\<close>

section \<open>Helpers\<close>

definition client_default_port :: "url \<Rightarrow> u16" where
  "client_default_port u =
     (if \<not> u_has_port u then
        (if u_scheme_id u = Scheme_http then 80
         else if u_scheme_id u = Scheme_https then 445
         else if prefix ''socks'' (u_scheme u) then 1080
         else u_port_number u)
      else u_port_number u)"

definition client_endpoint_unchecked :: "'s world \<Rightarrow> url \<Rightarrow> endpoint result" where
  "client_endpoint_unchecked w u =
     (if u_host_type u = Host_ipv4 then
        res_bind (result_value (w_ipv4 w (u_encoded_host u))) (\<lambda>ip.
        Inr \<lparr>ep_address = Address_v4 ip, ep_port = client_default_port u\<rparr>)
      else
        res_bind (result_value (w_ipv6 w (u_encoded_host u))) (\<lambda>ip.
        Inr \<lparr>ep_address = make_address_v6 ip, ep_port = client_default_port u\<rparr>))"

lemma client_helpers [simp]:
  "client_default_port u = default_port u"
  "client_endpoint_unchecked w u = get_endpoint_unchecked w u"
proof -
  show port: "client_default_port u = default_port u"
    by (simp add: client_default_port_def default_port_def)
  then show "client_endpoint_unchecked w u = get_endpoint_unchecked w u"
    by (simp add: client_endpoint_unchecked_def get_endpoint_unchecked_def)
qed

section \<open>The client\<close>

datatype client_op =
    Resolve_proxy
  | Connect_proxy "endpoint list"
  | Socks_v5 target auth_options
  | Resolve_target
  | Socks_v4 endpoint string
  | Write_request http_request
  | Read_response

record socks_client =
  k_http_version :: int
  k_target :: url
  k_socks :: url
  k_socks_version :: byte
  k_ec :: error_code
  k_log :: "string list"

text \<open>A default-constructed \<open>urls::url\<close> is the empty string.\<close>

definition url_empty :: url where
  "url_empty =
     \<lparr>u_scheme = [], u_scheme_id = Scheme_other, u_has_port = False, u_port_number = 0,
      u_host_type = Host_none, u_encoded_host = [], u_has_userinfo = False,
      u_encoded_user = [], u_encoded_password = [], u_encoded_path = []\<rparr>"

type_synonym client_start = "socks_client \<times> client_op option"

text \<open>\<open>fail\<close> prints and keeps the code.\<close>

definition fail_client :: "error_code \<Rightarrow> string \<Rightarrow> socks_client \<Rightarrow> socks_client" where
  "fail_client ec what c = c\<lparr>k_ec := ec, k_log := k_log c @ [what]\<rparr>"

definition parse_urls :: "'s world \<Rightarrow> string \<Rightarrow> string \<Rightarrow> socks_client \<Rightarrow> socks_client" where
  "parse_urls w target_str socks_str c =
     (case w_parse_uri w target_str of Inl e \<Rightarrow> fail_client e ''Parse target'' c
      | Inr target \<Rightarrow>
        let c = c\<lparr>k_target := target\<rparr> in
        (case w_parse_uri w socks_str of Inl e \<Rightarrow> fail_client e ''Parse SOCKS'' c
         | Inr socks \<Rightarrow>
           let c = c\<lparr>k_socks := socks\<rparr> in
           (case socks_version_of socks of
              None \<Rightarrow> fail_client (Asio_code Asio_no_protocol_option) ''Invalid SOCKS scheme: '' c
            | Some v \<Rightarrow>
              let c = c\<lparr>k_socks_version := v\<rparr> in
              if k_socks_version c = 0x04 \<and> u_host_type (k_target c) = Host_ipv6
              then fail_client (Asio_code Asio_no_protocol_option)
                ''SOCKS4 does not support IPv6 addresses'' c
              else c)))"

definition do_proxy_connect :: "endpoint list \<Rightarrow> socks_client \<Rightarrow> client_start" where
  "do_proxy_connect eps c = (c, Some (Connect_proxy eps))"

definition do_proxy_resolve :: "'s world \<Rightarrow> socks_client \<Rightarrow> client_start result" where
  "do_proxy_resolve w c =
     (if u_host_type (k_socks c) = Host_name then Inr (c, Some Resolve_proxy)
      else if u_host_type (k_socks c) = Host_ipv4 \<or> u_host_type (k_socks c) = Host_ipv6 then
        res_bind (client_endpoint_unchecked w (k_socks c)) (\<lambda>ep. Inr (do_proxy_connect [ep] c))
      else Inr (fail_client (Asio_code Asio_operation_not_supported) ''Unsupported host'' c, None))"

definition on_proxy_resolved :: "error_code \<Rightarrow> endpoint list \<Rightarrow> socks_client \<Rightarrow> client_start" where
  "on_proxy_resolved ec eps c =
     (if failed ec then (fail_client ec ''proxy resolve'' c, None) else do_proxy_connect eps c)"

definition do_socks_connect :: "'s world \<Rightarrow> socks_client \<Rightarrow> client_start result" where
  "do_socks_connect w c =
     (let target = k_target c; socks = k_socks c in
      if k_socks_version c = 0x05 then
        (let a = (if \<not> u_has_userinfo socks then auth_none
                  else auth_userpass (u_encoded_user socks) (u_encoded_password socks)) in
         if u_host_type target = Host_name then
           Inr (c, Some (Socks_v5 (To_domain
             \<lparr>de_domain = u_encoded_host target, de_port = client_default_port target\<rparr>) a))
         else if u_host_type target = Host_ipv4 \<or> u_host_type target = Host_ipv6 then
           res_bind (client_endpoint_unchecked w target) (\<lambda>ep.
           Inr (c, Some (Socks_v5 (To_endpoint ep) a)))
         else Inr (c, None))
      else
        (if u_host_type target = Host_name then Inr (c, Some Resolve_target)
         else if u_host_type target = Host_ipv4 \<or> u_host_type target = Host_ipv6 then
           res_bind (client_endpoint_unchecked w target) (\<lambda>ep.
           Inr (c, Some (Socks_v4 ep (u_encoded_user socks))))
         else Inr (c, None)))"

definition on_proxy_connected :: "'s world \<Rightarrow> error_code \<Rightarrow> socks_client \<Rightarrow> client_start result" where
  "on_proxy_connected w ec c =
     (if failed ec then Inr (fail_client ec ''connect'' c, None) else do_socks_connect w c)"

text \<open>The loop over the resolved addresses of the target: the first IPv4 address is asked for.\<close>

fun on_target_resolved_each :: "endpoint list \<Rightarrow> socks_client \<Rightarrow> client_start" where
  "on_target_resolved_each [] c =
     (fail_client (Asio_code Asio_host_not_found) ''not ipv4 address found for host'' c, None)"
| "on_target_resolved_each (e # eps) c =
     (if is_v4 (ep_address e) then (c, Some (Socks_v4 e (u_encoded_user (k_socks c))))
      else on_target_resolved_each eps c)"

definition on_target_resolved :: "error_code \<Rightarrow> endpoint list \<Rightarrow> socks_client \<Rightarrow> client_start" where
  "on_target_resolved ec eps c =
     (if failed ec then (fail_client ec ''resolve'' c, None) else on_target_resolved_each eps c)"

text \<open>The request's target is the host of the URL, not its path.\<close>

definition do_socks_request :: "socks_client \<Rightarrow> client_start" where
  "do_socks_request c =
     (c, Some (Write_request
       \<lparr>rq_target = u_encoded_host (k_target c), rq_version = k_http_version c,
        rq_host = u_encoded_host (k_target c)\<rparr>))"

definition on_socks_connected :: "error_code \<Rightarrow> socks_client \<Rightarrow> client_start" where
  "on_socks_connected ec c =
     (if failed ec then (fail_client ec ''socks_connect'' c, None) else do_socks_request c)"

definition do_socks_response :: "socks_client \<Rightarrow> client_start" where
  "do_socks_response c = (c, Some Read_response)"

definition on_request_written :: "error_code \<Rightarrow> socks_client \<Rightarrow> client_start" where
  "on_request_written ec c =
     (if failed ec then (fail_client ec ''write'' c, None) else do_socks_response c)"

text \<open>The handler of the response shuts the socket down, which is a blocking call.\<close>

definition on_response_read ::
    "'s world \<Rightarrow> error_code \<Rightarrow> socks_client \<Rightarrow> 's \<Rightarrow> socks_client \<times> 's" where
  "on_response_read w ec c s =
     (if failed ec \<and> ec \<noteq> w_end_of_stream w then (fail_client ec ''read'' c, s)
      else let (ec, s) = w_shutdown w s in
        (if failed ec \<and> ec \<noteq> w_not_connected w then fail_client ec ''shutdown'' c else c, s))"

text \<open>The constructor.\<close>

definition socks_client_new :: "'s world \<Rightarrow> int \<Rightarrow> string \<Rightarrow> string \<Rightarrow> client_start result" where
  "socks_client_new w http_version target_str socks_str =
     (let c = parse_urls w target_str socks_str
        \<lparr>k_http_version = http_version, k_target = url_empty, k_socks = url_empty,
         k_socks_version = 0x04, k_ec = ec_ok, k_log = []\<rparr> in
      if failed (k_ec c) then Inr (c, None) else do_proxy_resolve w c)"

definition has_error :: "socks_client \<Rightarrow> bool" where
  "has_error c = failed (k_ec c)"

section \<open>Running the operations\<close>

text \<open>
  \<open>complete_client\<close> is what \<open>io_context::run\<close> does with the operation in flight: perform it
  and call its handler.  The coroutines always complete within the calls given here.  An exception
  of a handler leaves \<open>run\<close>.
\<close>

definition after_op :: "client_start \<Rightarrow> 's \<Rightarrow> (client_start \<times> 's) result" where
  "after_op cn s = Inr (cn, s)"

fun complete_client ::
    "'s world \<Rightarrow> client_op \<Rightarrow> socks_client \<Rightarrow> 's \<Rightarrow> (client_start \<times> 's) result" where
  "complete_client w Resolve_proxy c s =
     (let (eps, ec, s) = w_resolve w s (u_encoded_host (k_socks c)) (to_string (client_default_port (k_socks c)))
      in after_op (on_proxy_resolved ec eps c) s)"
| "complete_client w (Connect_proxy eps) c s =
     (let (ec, s) = w_connect w s eps in
      res_bind (on_proxy_connected w ec c) (\<lambda>cn. after_op cn s))"
| "complete_client w (Socks_v5 t a) c s =
     res_bind (the (async_connect 7 (w_ops w) s t a)) (\<lambda>(_, ec, s).
     after_op (on_socks_connected ec c) s)"
| "complete_client w Resolve_target c s =
     (let (eps, ec, s) = w_resolve w s (u_encoded_host (k_target c)) (to_string (client_default_port (k_target c)))
      in after_op (on_target_resolved ec eps c) s)"
| "complete_client w (Socks_v4 t u) c s =
     res_bind (the (async_connect_v4 3 (w_ops w) s t u)) (\<lambda>(_, ec, s).
     after_op (on_socks_connected ec c) s)"
| "complete_client w (Write_request rq) c s =
     (let (ec, s) = w_http_write w s rq in after_op (on_request_written ec c) s)"
| "complete_client w Read_response c s =
     (let (ec, s) = w_http_read w s; (c, s) = on_response_read w ec c s in after_op (c, None) s)"

lemmas client_defs = fail_client_def do_proxy_connect_def do_proxy_resolve_def
  on_proxy_resolved_def do_socks_connect_def on_proxy_connected_def on_target_resolved_def
  do_socks_request_def on_socks_connected_def do_socks_response_def on_request_written_def
  on_response_read_def after_op_def

text \<open>Operations come in this order, so a client runs at most six of them.\<close>

fun client_rank :: "client_op \<Rightarrow> nat" where
  "client_rank Resolve_proxy = 6"
| "client_rank (Connect_proxy eps) = 5"
| "client_rank Resolve_target = 4"
| "client_rank (Socks_v5 t a) = 3"
| "client_rank (Socks_v4 t u) = 3"
| "client_rank (Write_request rq) = 2"
| "client_rank Read_response = 1"

lemma on_target_resolved_each_SomeD:
  "on_target_resolved_each eps c = (c', Some opn) \<Longrightarrow> \<exists>e u. opn = Socks_v4 e u"
  by (induction eps) (auto split: if_splits)

lemma complete_client_rank:
  assumes "complete_client w opn c s = Inr ((c', Some opn'), s')"
  shows "client_rank opn' < client_rank opn"
  using assms
  by (cases opn)
    (auto simp: client_defs Let_def res_bind_eq_Inr dest!: on_target_resolved_each_SomeD
      split: prod.splits if_splits)

lemma client_rank_pos: "0 < client_rank opn"
  by (cases opn) simp_all

function run_client ::
    "'s world \<Rightarrow> client_start \<Rightarrow> 's \<Rightarrow> (socks_client \<times> 's) result" where
  "run_client w (c, None) s = Inr (c, s)"
| "run_client w (c, Some opn) s =
     (case complete_client w opn c s of Inl e \<Rightarrow> Inl e | Inr (cn, s) \<Rightarrow> run_client w cn s)"
  by pat_completeness auto

termination
proof (relation "measure (\<lambda>(w, cn, s). case snd cn of None \<Rightarrow> 0 | Some x \<Rightarrow> client_rank x)",
    goal_cases)
  case (2 w c opn s r cn s')
  then show ?case
    using complete_client_rank [of w opn c s "fst cn" _ s'] client_rank_pos [of opn]
    by (cases cn) (auto split: option.splits)
qed simp

text \<open>Construct the client, or start a handler's operation, and run.\<close>

abbreviation run_from :: "'s world \<Rightarrow> client_start result \<Rightarrow> 's \<Rightarrow> (socks_client \<times> 's) result" where
  "run_from w m s \<equiv> res_bind m (\<lambda>cn. run_client w cn s)"

lemma run_handler_start [simp]:
  "(case res_bind m (\<lambda>cn. Inr (cn, s)) of Inl e \<Rightarrow> Inl e | Inr (cn, s) \<Rightarrow> run_client w cn s)
    = run_from w m s"
  by (cases m) simp_all

definition main_async :: "'s world \<Rightarrow> 's \<Rightarrow> string list \<Rightarrow> (nat \<times> 's) result" where
  "main_async w s argv =
     (if length argv \<noteq> 3 then Inr (1, s)
      else res_bind (run_from w (socks_client_new w 11 (argv ! 1) (argv ! 2)) s) (\<lambda>(c, s).
        Inr (if has_error c then 1 else 0, s)))"

section \<open>Against the blocking client\<close>

text \<open>
  The asynchronous client asks for the host instead of the path.  The blocking client does so
  for a URL whose path is its host, which is what this world's parser returns.
\<close>

definition path_is_host :: "'s world \<Rightarrow> 's world" where
  "path_is_host w = w\<lparr>w_parse_uri := (\<lambda>u. case w_parse_uri w u of
     Inl e \<Rightarrow> Inl e | Inr t \<Rightarrow> Inr (t\<lparr>u_encoded_path := u_encoded_host t\<rparr>))\<rparr>"

lemma path_is_host_simps [simp]:
  "w_ops (path_is_host w) = w_ops w"
  "w_http_write (path_is_host w) = w_http_write w" "w_http_read (path_is_host w) = w_http_read w"
  "w_shutdown (path_is_host w) = w_shutdown w" "w_resolve (path_is_host w) = w_resolve w"
  "w_connect (path_is_host w) = w_connect w"
  "w_end_of_stream (path_is_host w) = w_end_of_stream w"
  "w_not_connected (path_is_host w) = w_not_connected w"
  "w_ipv4 (path_is_host w) = w_ipv4 w" "w_ipv6 (path_is_host w) = w_ipv6 w"
  by (simp_all add: path_is_host_def)

lemma parse_path_is_host:
  "w_parse_uri (path_is_host w) u = (case w_parse_uri w u of
     Inl e \<Rightarrow> Inl e | Inr t \<Rightarrow> Inr (t\<lparr>u_encoded_path := u_encoded_host t\<rparr>))"
  by (simp add: path_is_host_def)

lemma path_update_simps [simp]:
  "default_port (t\<lparr>u_encoded_path := p\<rparr>) = default_port t"
  "get_endpoint_unchecked w (t\<lparr>u_encoded_path := p\<rparr>) = get_endpoint_unchecked w t"
  "get_endpoint_unchecked (path_is_host w) t = get_endpoint_unchecked w t"
  "socks_version_of (t\<lparr>u_encoded_path := p\<rparr>) = socks_version_of t"
  by (simp_all add: default_port_def get_endpoint_unchecked_def socks_version_of_def)

lemma path_irrelevant [simp]:
  "connect_to_proxy (path_is_host w) s (k\<lparr>u_encoded_path := p\<rparr>) = connect_to_proxy w s k"
  "socks_connect (path_is_host w) s stack v (t\<lparr>u_encoded_path := q\<rparr>) (k\<lparr>u_encoded_path := p\<rparr>)
    = socks_connect w s stack v t k"
  by (simp_all add: connect_to_proxy_def socks_connect_def resolve_and_connect_v4_def Let_def
      cong: if_cong prod.case_cong)

text \<open>What the program reports, from the client object and from \<open>socks_request\<close>.\<close>

definition client_status :: "(socks_client \<times> 's) result \<Rightarrow> (nat \<times> 's) result" where
  "client_status r = res_bind r (\<lambda>(c, s). Inr (if has_error c then 1 else 0, s))"

definition request_status :: "'s request_result \<Rightarrow> (nat \<times> 's) result" where
  "request_status r = res_bind r (\<lambda>(ok, _, s). Inr (if ok then 0 else 1, s))"

lemma client_status_simps [simp]:
  "client_status (Inl e) = Inl e"
  "client_status (Inr (c, s)) = Inr (if has_error c then 1 else 0, s)"
  by (simp_all add: client_status_def)

lemma request_status_simps [simp]:
  "request_status (Inl e) = Inl e"
  "request_status (Inr (ok, texts, s)) = Inr (if ok then 0 else 1, s)"
  "request_status (fail_request what s) = Inr (1, s)"
  by (simp_all add: request_status_def fail_request_def)

lemma has_error_fail [simp]: "has_error (fail_client ec what c) \<longleftrightarrow> failed ec"
  by (simp add: has_error_def fail_client_def)

lemma http_stage:
  assumes "\<not> has_error c"
  shows "client_status (run_client w (do_socks_request c) s)
    = request_status (http_exchange (path_is_host w) s (k_http_version c)
        ((k_target c)\<lparr>u_encoded_path := u_encoded_host (k_target c)\<rparr>))"
  using assms
  by (auto simp: do_socks_request_def on_request_written_def after_op_def do_socks_response_def
      on_response_read_def http_exchange_def Let_def split: prod.splits)

text \<open>
  A resolver with one IPv4 address for the host, and the port it was asked for.  With more than
  one the clients differ: the asynchronous client never tries the second.
\<close>

definition one_v4_address :: "'s world \<Rightarrow> url \<Rightarrow> bool" where
  "one_v4_address w t \<longleftrightarrow>
     (\<forall>s eps ec s'. w_resolve w s (u_encoded_host t) (to_string (default_port t)) = (eps, ec, s')
        \<and> \<not> failed ec
      \<longrightarrow> (\<exists>e. filter (\<lambda>e. is_v4 (ep_address e)) eps = [e] \<and> ep_port e = default_port t))"

lemma not_v6_iff [simp]: "\<not> is_v6 a \<longleftrightarrow> is_v4 a"
  by (cases a) simp_all

lemma is_v6_iff: "is_v6 a \<longleftrightarrow> \<not> is_v4 a"
  by (cases a) simp_all

lemma connect_v4_each_one:
  assumes "filter (\<lambda>e. is_v4 (ep_address e)) eps = [e]" and "ep_port e = p"
  shows "res_bind (connect_v4_each ops s eps p u ec0) (\<lambda>(_, ec, s). f ec s)
    = res_bind (connect_v4 ops s e u) (\<lambda>(_, ec, s). f ec s)"
proof -
  from filter_eq_ConsD [OF assms(1)] obtain xs ys where eps: "eps = xs @ e # ys"
    and xs: "\<forall>x \<in> set xs. is_v6 (ep_address x)" and e: "is_v4 (ep_address e)"
    and rest: "filter (\<lambda>e. is_v4 (ep_address e)) ys = []"
    unfolding is_v6_iff by fastforce
  from rest have ys: "\<forall>y \<in> set ys. is_v6 (ep_address y)"
    unfolding filter_empty_conv is_v6_iff .
  obtain ec1 where "connect_v4_each ops s eps p u ec0 = connect_v4_each ops s (e # ys) p u ec1"
    using connect_v4_each_skip_v6 [OF xs, of ops s "e # ys" p u ec0] unfolding eps by blast
  moreover have "e\<lparr>ep_port := p\<rparr> = e" using assms(2) by simp
  ultimately show ?thesis
    using e connect_v4_each_all_v6 [OF ys, of ops]
    by (cases "connect_v4 ops s e u") (auto simp: is_v6_iff)
qed

lemma on_target_resolved_each_one:
  "filter (\<lambda>e. is_v4 (ep_address e)) eps = [e]
    \<Longrightarrow> on_target_resolved_each eps c = (c, Some (Socks_v4 e (u_encoded_user (k_socks c))))"
  by (induction eps) (auto split: if_splits)

text \<open>The URLs on which the two clients agree.\<close>

definition agreeable :: "'s world \<Rightarrow> ('s \<Rightarrow> bool) \<Rightarrow> url \<Rightarrow> url \<Rightarrow> bool" where
  "agreeable w good target socks \<longleftrightarrow> u_host_type target \<in> {Host_name, Host_ipv4, Host_ipv6}
     \<and> (u_has_userinfo socks \<longrightarrow> orderly_reads (w_ops w) good)
     \<and> (socks_version_of socks = Some 4 \<and> u_host_type target = Host_name \<longrightarrow> one_v4_address w target)"

lemma run_Socks_v4:
  "run_client w (c, Some (Socks_v4 t u)) s
    = res_bind (connect_v4 (w_ops w) s t u) (\<lambda>(_, ec, s). run_client w (on_socks_connected ec c) s)"
  using async_connect_v4_eq [of 0 "w_ops w" s t u]
  by (simp add: eval_nat_numeral res_bind_case after_op_def split: sum.splits prod.splits)

text \<open>What follows a SOCKS connect, in both programs.\<close>

definition after_socks :: "'s world \<Rightarrow> socks_client \<Rightarrow> error_code \<Rightarrow> 's \<Rightarrow> 's request_result" where
  "after_socks w c ec s =
     (if failed ec then fail_request ''socks_connect'' s
      else http_exchange (path_is_host w) s (k_http_version c)
        ((k_target c)\<lparr>u_encoded_path := u_encoded_host (k_target c)\<rparr>))"

lemma after_socks_eq:
  assumes "\<not> has_error c"
  shows "client_status (run_client w (on_socks_connected ec c) s) = request_status (after_socks w c ec s)"
  using http_stage [OF assms, of w s] by (simp add: on_socks_connected_def after_socks_def)

lemma status_bind:
  assumes "\<And>ec s. client_status (f ec s) = request_status (g ec s)"
  shows "client_status (res_bind m (\<lambda>(_, ec, s). f ec s))
    = request_status (res_bind m (\<lambda>(_, ec, s). g ec s))"
  using assms by (cases m) auto

text \<open>An error result of the URL parser holds an error.\<close>

locale async_world = client_world +
  assumes parse_failed: "w_parse_uri w u = Inl e \<Longrightarrow> failed e"
begin

lemma run_Socks_v5:
  assumes "inv s" and "\<not> is_userpass a \<or> orderly_reads (w_ops w) inv"
  shows "run_client w (c, Some (Socks_v5 t a)) s
    = res_bind (connect_to (w_ops w) s (replicate 513 0) t a)
        (\<lambda>(_, ec, s). run_client w (on_socks_connected ec c) s)"
  using async_connect_any_eq [OF assms, of t]
  by (simp add: res_bind_case after_op_def split: sum.splits prod.splits)

lemma socks_stage:
  assumes "inv s" and "\<not> has_error c" and "agreeable w inv (k_target c) (k_socks c)"
    and "socks_version_of (k_socks c) = Some (k_socks_version c)"
  shows "client_status (run_from w (do_socks_connect w c) s)
    = request_status (res_bind
        (socks_connect w s (replicate 513 0) (k_socks_version c) (k_target c) (k_socks c))
        (\<lambda>(ec, s). after_socks w c ec s))"
proof -
  have v4: "client_status (run_client w (c, Some (Socks_v4 t u)) s)
      = request_status (res_bind (connect_v4 (w_ops w) s t u) (\<lambda>(_, ec, s). after_socks w c ec s))"
    for t u s
    unfolding run_Socks_v4 by (rule status_bind) (rule after_socks_eq [OF assms(2)])
  have v5: "client_status (run_client w (c, Some (Socks_v5 t a)) s)
      = request_status (res_bind (connect_to (w_ops w) s (replicate 513 0) t a)
          (\<lambda>(_, ec, s). after_socks w c ec s))"
    if "\<not> is_userpass a \<or> orderly_reads (w_ops w) inv" for t a
    unfolding run_Socks_v5 [OF assms(1) that]
    by (rule status_bind) (rule after_socks_eq [OF assms(2)])
  show ?thesis
  proof (cases "k_socks_version c = 5")
    case True
    with assms(3) v5 show ?thesis
      by (cases "get_endpoint_unchecked w (k_target c)") (auto simp: do_socks_connect_def socks_connect_def agreeable_def Let_def res_bind_assoc
          case_prod_beta)
  next
    case False
    show ?thesis
    proof (cases "u_host_type (k_target c) = Host_name")
      case True
      note host = True
      obtain eps ec1 s1 where res: "w_resolve w s (u_encoded_host (k_target c))
          (to_string (default_port (k_target c))) = (eps, ec1, s1)" by (metis prod_cases3)
      show ?thesis
      proof (cases "failed ec1")
        case True
        with False host show ?thesis
          by (simp add: do_socks_connect_def socks_connect_def resolve_and_connect_v4_def res
              on_target_resolved_def after_op_def after_socks_def Let_def)
      next
        case nf: False
        have "k_socks_version c = 4"
          using assms(4) False by (auto simp: socks_version_of_def split: if_splits)
        with assms(3,4) host have "one_v4_address w (k_target c)" by (simp add: agreeable_def)
        with nf res obtain e where e: "filter (\<lambda>e. is_v4 (ep_address e)) eps = [e]"
          "ep_port e = default_port (k_target c)"
          unfolding one_v4_address_def by blast
        have "res_bind (socks_connect w s (replicate 513 0) (k_socks_version c) (k_target c) (k_socks c))
              (\<lambda>(ec, s). after_socks w c ec s)
            = res_bind (connect_v4 (w_ops w) s1 e (u_encoded_user (k_socks c)))
              (\<lambda>(_, ec, s). after_socks w c ec s)"
          using False host nf connect_v4_each_one [OF e, of "w_ops w" s1 "u_encoded_user (k_socks c)"
              ec1 "after_socks w c"]
          by (simp add: socks_connect_def resolve_and_connect_v4_def res res_bind_assoc case_prod_beta)
        moreover have "run_from w (do_socks_connect w c) s
            = run_client w (c, Some (Socks_v4 e (u_encoded_user (k_socks c)))) s1"
          using False host nf on_target_resolved_each_one [OF e(1), of c]
          by (simp add: do_socks_connect_def res on_target_resolved_def after_op_def Let_def)
        ultimately show ?thesis by (simp only: v4)
      qed
    next
      case False
      with \<open>k_socks_version c \<noteq> 5\<close> assms(3) v4 show ?thesis
        by (cases "get_endpoint_unchecked w (k_target c)") (auto simp: do_socks_connect_def socks_connect_def agreeable_def Let_def res_bind_assoc
            case_prod_beta)
    qed
  qed
qed

lemma proxy_stage:
  assumes "inv s" and "\<not> has_error c" and "agreeable w inv (k_target c) (k_socks c)"
    and "socks_version_of (k_socks c) = Some (k_socks_version c)"
  shows "client_status (run_from w (do_proxy_resolve w c) s)
    = request_status (res_bind (connect_to_proxy w s (k_socks c)) (\<lambda>(what, s).
        case what of Some what \<Rightarrow> fail_request what s
        | None \<Rightarrow> res_bind
          (socks_connect w s (replicate 513 0) (k_socks_version c) (k_target c) (k_socks c))
          (\<lambda>(ec, s). after_socks w c ec s)))"
proof -
  obtain eps ec1 s1 where res: "w_resolve w s (u_encoded_host (k_socks c))
      (to_string (default_port (k_socks c))) = (eps, ec1, s1)" by (metis prod_cases3)
  obtain ec2 s2 where con: "w_connect w s1 eps = (ec2, s2)" by (metis surj_pair)
  have s2: "inv s2" using connect_inv [OF resolve_inv [OF assms(1) res] con] .
  show ?thesis
  proof (cases "get_endpoint_unchecked w (k_socks c)")
    case (Inl e)
    with s2 show ?thesis
      by (simp add: do_proxy_resolve_def connect_to_proxy_def on_proxy_resolved_def do_proxy_connect_def
          on_proxy_connected_def after_op_def res con socks_stage [OF _ assms(2-4)])
  next
    case (Inr ep)
    obtain ec3 s3 where dir: "w_connect w s [ep] = (ec3, s3)" by (metis surj_pair)
    from connect_inv [OF assms(1) dir] s2 Inr show ?thesis
      by (simp add: do_proxy_resolve_def connect_to_proxy_def on_proxy_resolved_def do_proxy_connect_def
          on_proxy_connected_def after_op_def res con dir socks_stage [OF _ assms(2-4)])
  qed
qed

lemma main_async_eq:
  assumes "inv s"
    and "\<And>target socks. w_parse_uri w target_str = Inr target \<Longrightarrow> w_parse_uri w socks_str = Inr socks
      \<Longrightarrow> agreeable w inv target socks"
  shows "client_status (run_from w (socks_client_new w version target_str socks_str) s)
    = request_status (socks_request (path_is_host w) s (replicate 513 0) version target_str socks_str)"
proof (cases "w_parse_uri w target_str")
  case (Inl e)
  then show ?thesis
    using parse_failed [OF Inl]
    by (simp add: socks_client_new_def parse_urls_def socks_request_def path_is_host_def
        fail_client_def has_error_def)
next
  case target: (Inr target)
  show ?thesis
  proof (cases "w_parse_uri w socks_str")
    case (Inl e)
    with target show ?thesis
      using parse_failed [OF Inl]
      by (simp add: socks_client_new_def parse_urls_def socks_request_def path_is_host_def
          fail_client_def has_error_def)
  next
    case socks: (Inr socks)
    let ?t = "target\<lparr>u_encoded_path := u_encoded_host target\<rparr>"
    note parsed = target socks parse_urls_def socks_client_new_def
    show ?thesis
    proof (cases "socks_version_of socks")
      case None
      then show ?thesis
        by (simp add: parsed socks_request_def path_is_host_def fail_client_def has_error_def)
    next
      case (Some v)
      let ?c = "\<lparr>k_http_version = version, k_target = target, k_socks = socks,
        k_socks_version = v, k_ec = ec_ok, k_log = []\<rparr>"
      show ?thesis
      proof (cases "v = 4 \<and> u_host_type target = Host_ipv6")
        case True
        with Some show ?thesis
          by (simp add: parsed socks_request_def path_is_host_def fail_client_def has_error_def)
      next
        case False
        with Some have new: "socks_client_new w version target_str socks_str = do_proxy_resolve w ?c"
          by (auto simp: parsed)
        have keep: "\<not> has_error ?c" "k_socks ?c = socks" "k_target ?c = target" "k_socks_version ?c = v"
          by (simp_all add: has_error_def)
        have after: "after_socks w ?c = (\<lambda>ec s. if failed ec then fail_request ''socks_connect'' s
            else http_exchange (path_is_host w) s version ?t)"
          by (simp add: after_socks_def fun_eq_iff)
        from False Some
        have req: "socks_request (path_is_host w) s (replicate 513 0) version target_str socks_str
          = res_bind (connect_to_proxy w s socks) (\<lambda>(what, s).
              case what of Some what \<Rightarrow> fail_request what s
              | None \<Rightarrow> res_bind (socks_connect w s (replicate 513 0) v target socks)
                (\<lambda>(ec, s). after_socks w ?c ec s))"
          by (cases "connect_to_proxy w s socks")
            (auto simp: socks_request_def parse_path_is_host target socks after split: option.splits)
        show ?thesis
          unfolding new req
          by (rule proxy_stage [OF assms(1), of ?c, unfolded keep(2-), OF keep(1) assms(2) [OF target socks] Some])
      qed
    qed
  qed
qed

end

interpretation demo_async: async_world demo_world ts_inv ts_in ts_received
  by (rule async_world.intro [OF demo.client_world_axioms], unfold_locales)
    (auto simp: demo_world_def split: if_splits)

lemma run_proxy_connected:
  assumes "connect_to_proxy w s (k_socks c) = Inr (None, s1)"
  shows "run_from w (do_proxy_resolve w c) s = run_from w (do_socks_connect w c) s1"
proof -
  obtain eps ec2 s2 where res: "w_resolve w s (u_encoded_host (k_socks c))
      (to_string (default_port (k_socks c))) = (eps, ec2, s2)" by (metis prod_cases3)
  obtain ec3 s3 where con: "w_connect w s2 eps = (ec3, s3)" by (metis surj_pair)
  show ?thesis
  proof (cases "get_endpoint_unchecked w (k_socks c)")
    case (Inl e)
    with assms show ?thesis
      by (auto simp: connect_to_proxy_def do_proxy_resolve_def on_proxy_resolved_def
          do_proxy_connect_def on_proxy_connected_def after_op_def res con split: if_splits)
  next
    case (Inr ep)
    obtain ec4 s4 where dir: "w_connect w s [ep] = (ec4, s4)" by (metis surj_pair)
    from assms Inr show ?thesis
      by (auto simp: connect_to_proxy_def do_proxy_resolve_def on_proxy_resolved_def
          do_proxy_connect_def on_proxy_connected_def after_op_def res con dir split: if_splits)
  qed
qed

lemma main_async_status:
  "main_async w s argv = (if length argv \<noteq> 3 then Inr (1, s)
    else client_status (run_from w (socks_client_new w 11 (argv ! 1) (argv ! 2)) s))"
  "main_sync w s stack argv = (if length argv \<noteq> 3 then Inr (1, s)
    else request_status (socks_request w s stack 11 (argv ! 1) (argv ! 2)))"
  by (simp_all add: main_async_def main_sync_def client_status_def request_status_def)

section \<open>Properties\<close>

text \<open>
  C28 (async_client_matches_sync).  For the same command line, libraries that keep their
  contracts and every server, the asynchronous client exits with the status of the blocking
  client, has done the same to the sockets, and ends in the same exception or assertion if any
  (that of \<open>value()\<close> on a refused literal, and those of the connects), provided that the blocking
  client gets URLs from a parser that gives it the host for the path, which the asynchronous one
  asks for; that the host of the target is a name or an address; that with SOCKS4 a name resolves
  to one IPv4 address, with the port asked for; and that, with credentials, reads of two bytes fail
  by the end of the stream only.
\<close>
theorem async_client_matches_sync:
  assumes "async_world w good sent received" and "good s"
    and "\<And>target socks. w_parse_uri w (argv ! 1) = Inr target \<Longrightarrow> w_parse_uri w (argv ! 2) = Inr socks
      \<Longrightarrow> agreeable w good target socks"
  shows "main_async w s argv = main_sync (path_is_host w) s (replicate 513 0) argv"
  using async_world.main_async_eq [OF assms] by (simp add: main_async_status)

theorem async_client_matches_sync_witness:
  "main_async demo_world (scripted [5, 0, 5, 0]) [''client'', ''http'', ''socks5'']
    = main_sync (path_is_host demo_world) (scripted [5, 0, 5, 0]) (replicate 513 0)
        [''client'', ''http'', ''socks5'']"
proof (rule async_client_matches_sync [OF demo_async.async_world_axioms])
  show "ts_inv (scripted [5, 0, 5, 0])" by simp
next
  fix target socks
  assume "w_parse_uri demo_world ([''client'', ''http'', ''socks5''] ! 1) = Inr target"
    and "w_parse_uri demo_world ([''client'', ''http'', ''socks5''] ! 2) = Inr socks"
  then have "target = demo_url ''http''" "socks = demo_url ''socks5''"
    by (simp_all add: demo_world_def)
  then show "agreeable demo_world ts_inv target socks"
    by (simp add: agreeable_def one_v4_address_def demo_url_def demo_world_def default_port_def)
qed

text \<open>
  For a target URL with an empty or an IPvFuture host the
  asynchronous client connects to the SOCKS server, starts nothing more and exits with
  success: it sends neither a SOCKS request nor the HTTP request, and reports no error.
\<close>
theorem async_client_silent_success:
  assumes "w_parse_uri w target_str = Inr target" and "w_parse_uri w socks_str = Inr socks"
    and "u_host_type target = Host_none \<or> u_host_type target = Host_ipvfuture"
    and "u_scheme socks \<in> {''socks4'', ''socks4a'', ''socks5''}"
    and "connect_to_proxy w s socks = Inr (None, s1)"
  shows "main_async w s [prog, target_str, socks_str] = Inr (0, s1)"
proof -
  from assms(4) obtain v where v: "socks_version_of socks = Some v"
    by (auto simp: socks_version_of_def)
  let ?c = "\<lparr>k_http_version = 11, k_target = target, k_socks = socks,
    k_socks_version = v, k_ec = ec_ok, k_log = []\<rparr>"
  have new: "socks_client_new w 11 target_str socks_str = do_proxy_resolve w ?c"
    using assms(3) v by (auto simp: socks_client_new_def parse_urls_def assms(1,2))
  have last: "do_socks_connect w ?c = Inr (?c, None)"
    using assms(3) by (auto simp: do_socks_connect_def)
  have "run_from w (do_proxy_resolve w ?c) s = Inr (?c, s1)"
    using run_proxy_connected [of w s ?c s1] assms(5) last by simp
  then show ?thesis by (simp add: main_async_def new has_error_def)
qed

theorem async_client_silent_success_witness:
  "main_async (demo_world\<lparr>w_parse_uri := (\<lambda>u. Inr ((demo_url u)\<lparr>u_host_type :=
        if u = ''http'' then Host_none else Host_name\<rparr>))\<rparr>) (scripted [])
      [''client'', ''http'', ''socks5''] = Inr (0, scripted [])"
  by (rule async_client_silent_success [where target = "(demo_url ''http'')\<lparr>u_host_type := Host_none\<rparr>"
        and socks = "(demo_url ''socks5'')\<lparr>u_host_type := Host_name\<rparr>"])
    (simp_all add: demo_url_def demo_world_def connect_to_proxy_def)

text \<open>
  What is documented of Boost.URL: the encoded host of an IPv6 literal has its brackets, and
  \<open>parse_ipv6_address\<close> wants the address alone.
\<close>

definition literals_have_brackets :: "'s world \<Rightarrow> bool" where
  "literals_have_brackets w \<longleftrightarrow>
     (\<forall>str u. w_parse_uri w str = Inr u \<and> u_host_type u = Host_ipv6 \<longrightarrow> prefix ''['' (u_encoded_host u))
     \<and> (\<forall>h. prefix ''['' h \<longrightarrow> (\<exists>err. w_ipv6 w h = Inl err))"

lemma bracketed_literal_throws:
  assumes "literals_have_brackets w" and "w_parse_uri w str = Inr u" and "u_host_type u = Host_ipv6"
  shows "get_endpoint_unchecked w u = Inl Result_holds_error"
proof -
  from assms obtain err where "w_ipv6 w (u_encoded_host u) = Inl err"
    unfolding literals_have_brackets_def by blast
  with assms(3) show ?thesis by (simp add: get_endpoint_unchecked_def)
qed

text \<open>
  C29 (ipv6_literal_ends_clients).  With a URL library that keeps the brackets of IPv6 literals in
  the encoded host and does not parse them, no client can use an IPv6 literal: for a SOCKS URL of
  a known scheme with such a host, and for a target URL with one once the connection to a SOCKS5
  server stands, both programs end in the exception that \<open>value()\<close> throws.  (With SOCKS4, a target
  URL with an IPv6 literal is refused before.)
\<close>
theorem ipv6_literal_ends_clients:
  assumes "literals_have_brackets w"
    and "w_parse_uri w target_str = Inr target" and "w_parse_uri w socks_str = Inr socks"
    and "u_scheme socks \<in> {''socks4'', ''socks4a'', ''socks5''}"
    and "u_host_type target = Host_ipv6 \<longrightarrow> u_scheme socks = ''socks5''"
    and "u_host_type socks = Host_ipv6
      \<or> u_host_type target = Host_ipv6 \<and> connect_to_proxy w s socks = Inr (None, s1)"
  shows "main_sync w s stack [prog, target_str, socks_str] = Inl Result_holds_error
    \<and> main_async w s [prog, target_str, socks_str] = Inl Result_holds_error"
proof -
  from assms(4) obtain v where v: "socks_version_of socks = Some v" by (auto simp: socks_version_of_def)
  have v5: "\<not> (v = 4 \<and> u_host_type target = Host_ipv6)" "u_host_type target = Host_ipv6 \<Longrightarrow> v = 5"
    using assms(5) v by (auto simp: socks_version_of_def)
  note socks_literal = bracketed_literal_throws [OF assms(1,3)]
  note target_literal = bracketed_literal_throws [OF assms(1,2)]
  let ?c = "\<lparr>k_http_version = 11, k_target = target, k_socks = socks,
    k_socks_version = v, k_ec = ec_ok, k_log = []\<rparr>"
  have new: "socks_client_new w 11 target_str socks_str = do_proxy_resolve w ?c"
    using v v5(1) by (auto simp: socks_client_new_def parse_urls_def assms(2,3) Let_def)
  show ?thesis
  proof (cases "u_host_type socks = Host_ipv6")
    case True
    with socks_literal v v5(1) new show ?thesis
      by (auto simp: main_sync_def main_async_def socks_request_def assms(2,3) connect_to_proxy_def
          do_proxy_resolve_def)
  next
    case False
    with assms(6) have t: "u_host_type target = Host_ipv6"
      and p: "connect_to_proxy w s socks = Inr (None, s1)" by blast+
    from run_proxy_connected [of w s ?c s1] p
    have "run_from w (do_proxy_resolve w ?c) s = run_from w (do_socks_connect w ?c) s1" by simp
    with t v5(2) target_literal v p new show ?thesis
      by (simp add: main_sync_def main_async_def socks_request_def assms(2,3) socks_connect_def
          do_socks_connect_def Let_def)
  qed
qed

theorem ipv6_literal_ends_clients_witness:
  "main_sync demo_world (scripted [5, 0, 5, 0]) (replicate 513 0) [''client'', ''ipv6'', ''socks5'']
      = Inl Result_holds_error
    \<and> main_async demo_world (scripted [5, 0, 5, 0]) [''client'', ''ipv6'', ''socks5'']
      = Inl Result_holds_error"
proof -
  have "literals_have_brackets demo_world"
    by (auto simp: literals_have_brackets_def demo_world_def demo_url_def demo_literal_def split: if_splits)
  moreover have "w_parse_uri demo_world ''ipv6'' = Inr demo_literal"
    "w_parse_uri demo_world ''socks5'' = Inr (demo_url ''socks5'')" by (simp_all add: demo_world_def)
  moreover have "u_scheme (demo_url ''socks5'') \<in> {''socks4'', ''socks4a'', ''socks5''}"
    "u_host_type demo_literal = Host_ipv6 \<longrightarrow> u_scheme (demo_url ''socks5'') = ''socks5''"
    by (simp_all add: demo_url_def)
  moreover have "u_host_type (demo_url ''socks5'') = Host_ipv6 \<or> u_host_type demo_literal = Host_ipv6
      \<and> connect_to_proxy demo_world (scripted [5, 0, 5, 0]) (demo_url ''socks5'')
        = Inr (None, scripted [5, 0, 5, 0])"
    by (simp add: demo_literal_def demo_url_def demo_world_def connect_to_proxy_def)
  ultimately show ?thesis by (rule ipv6_literal_ends_clients)
qed

end
