(* ===== verification/Spec2Isabelle.thy ===== *)
theory Spec2Isabelle
  imports Handshake Server_Accept Server_Grant Server_Progress Server_Bounds Relay Unit_Tests Client_Async
begin

text \<open>
  A verification development for Boost.Socks (\<open>src/\<close>): the SOCKS4 and SOCKS5 client library of
  \<open>include/boost/socks\<close>, the test stream of its unit tests, and the three example programs, an
  asynchronous SOCKS server and two HTTP clients.

  \<^bold>\<open>The program.\<close>  \<open>connect\<close> and \<open>connect_v4\<close> take a stream connected to a SOCKS server and ask it
  for a target: they serialize a greeting and a request into a buffer, write them, read the
  replies, check and parse them.  \<open>async_connect\<close> and \<open>async_connect_v4\<close> do the same as stackless
  coroutines that an executor resumes.  Errors are \<open>error_code\<close>s of the library's own category,
  or the stream's.  The clients parse two URLs, connect to the server, call one of these
  functions and send an HTTP request; the server reads what the clients send, connects to the
  target, replies, and relays in both directions.

  \<^bold>\<open>Theories,\<close> from the bottom up, with the files they translate:
  \<^item> \<open>Socks_Prelude\<close>: bytes, words, buffers with checked accesses, faults, the result type with
    its bind \<open>res_bind\<close> and the post conditions \<open>res_post\<close>, big-endian packing.
  \<^item> \<open>Protocol_Codes\<close> (\<open>detail/*.hpp\<close>, \<open>detail/impl/*.ipp\<close>): the one-byte enumerations and the
    conversions into them.
  \<^item> \<open>Socks_Error\<close> (\<open>error.hpp\<close>, \<open>impl/error.hpp\<close>, \<open>impl/error.ipp\<close>): codes, conditions, messages.
  \<^item> \<open>Endpoints\<close> (\<open>auth_options.hpp\<close>, \<open>endpoint.hpp\<close>, \<open>string_view.hpp\<close>): endpoints, options and
    \<open>to_string\<close>.
  \<^item> \<open>Messages_V5\<close> (\<open>impl/connect.ipp\<close>) and \<open>Messages_V4\<close> (\<open>impl/connect_v4.ipp\<close>): one definition
    per serializer, check and parser, and the messages as byte lists (\<open>greeting_bytes\<close>,
    \<open>userpass_bytes\<close>, \<open>connect_request_bytes\<close>, \<open>connect_reply_bytes\<close>), which are their
    specification.
  \<^item> \<open>Asio_Streams\<close>: Asio's composed operations as the argument \<open>stream_ops\<close>, the locale
    \<open>sync_stream\<close> with what is documented of them, and the locale \<open>raw_stream\<close> over \<open>read_some\<close> and
    \<open>write_some\<close>, from which the first follows.
  \<^item> \<open>Test_Stream\<close> (\<open>test/unit/stream.hpp\<close>): the stream of the unit tests, an interpretation of
    both locales; \<open>scripted bs\<close> serves the bytes \<open>bs\<close>.
  \<^item> \<open>Connect_V5\<close> (\<open>impl/connect.hpp\<close>) and \<open>Connect_V4\<close> (\<open>impl/connect_v4.hpp\<close>): the blocking
    connects.
  \<^item> \<open>Connect_Async\<close> (the same files): the two coroutines as functions from a resume point, and
    \<open>drive\<close>, which performs what they ask for and resumes them.
  \<^item> \<open>Server\<close>, \<open>Server_Machine\<close>, \<open>Server_Client\<close>, \<open>Server_Accept\<close>
    (\<open>example/server/async/socks_server_async.cpp\<close>): the member functions and handlers of
    \<open>socks_connection\<close>; a connection as a step relation over the operations in flight; the server
    against the client's messages; the acceptor, \<open>main\<close>, and the whole program as runs of events.
  \<^item> \<open>Server_Spec\<close>, \<open>Server_Grant\<close>, \<open>Server_Progress\<close>, \<open>Server_Bounds\<close>, \<open>Relay\<close>: the abstract machine
    of phases and messages that a connection implements; what its history holds before it relays;
    the rank by which its negotiation ends; the sizes of what it holds; the histories of the relayed
    data.
  \<^item> \<open>Connect_Reference\<close>: the connects over a test stream as functions on messages, without buffers
    and resume points; \<open>Injected_Failures\<close>: what they make of a stream that is told to fail.
  \<^item> \<open>Unit_Tests\<close> (\<open>test/unit/connect.cpp\<close>, \<open>test/unit/connect_v4.cpp\<close>, \<open>test/unit/error.cpp\<close>): the
    cases of the unit tests as tables, and the lemmas \<open>test*_passes\<close>, which run them over the model.
  \<^item> \<open>Client_Sync\<close> (\<open>example/client/sync/socks_client_sync.cpp\<close>) and \<open>Client_Async\<close>
    (\<open>example/client/async/socks_client_async.cpp\<close>): the two HTTP clients over a record \<open>world\<close> of
    library calls.
  \<^item> \<open>Handshake\<close> and this theory: the clients and the server together, granting and refusing.

  \<^bold>\<open>Conventions.\<close>  A C++ function is a HOL function of the same name.  An object is a record that is
  passed and returned; an \<open>error_code&\<close> is passed and returned; a stream is the pair of its
  operations and a state.  Undefined behaviour, failed assertions and exceptions are values of
  \<open>fault\<close>, the left summand of every result, so that \<open>f x = Inr y\<close> says that none of them occurs.
  The exceptions are those of \<open>to_v4()\<close>, \<open>local_endpoint()\<close>, \<open>remote_endpoint()\<close> and of \<open>value()\<close> on
  a result that holds an error.

  \<^bold>\<open>What the lemmas show.\<close>  Messages: every serializer writes its message at the front of the buffer
  or asserts, and every parser equals a reference decoder, with the round trips.  Blocking
  connects: over every stream that keeps \<open>sync_stream\<close>, success means a whole dialogue was sent
  and a whole successful reply was read; every failure returns the default endpoint; no access
  leaves the buffer.  Coroutines: they complete, and they deliver what the blocking functions
  return.  Reference: over a test stream, whatever bytes it serves and whatever failure it injects,
  all four connects are functions on messages (\<open>connect_reference\<close>, \<open>connect_v4_reference\<close>), by which
  the unit tests are evaluated.  Server: an invariant of a connection (\<open>server_inv\<close>: what the
  buffers hold and what the client has been sent at each operation), from which memory safety
  follows; an invariant of its history (\<open>history_ok\<close>), from which it follows that it relays only
  behind a connect that succeeded and a grant that was written; a simulation by the specification (\<open>spec_step\<close>); the end of
  the negotiation after at most eight handlers (\<open>op_rank\<close>); the relay without short writes as two
  lossless queues; the parser equals \<open>decode_request\<close>; the messages of the client are read to their
  end and understood.  Handshake: without authentication, and for targets that the server can read
  and resolve, it has a run that reads the client's bytes and sends what makes both clients succeed,
  and one in which the connect fails and the refusal reaches them.  Program:
  any interleaving of connections keeps the invariant of each.  Clients: which faults they can end
  in, and the agreement of the asynchronous with the blocking one.

  \<^bold>\<open>Bounds and fuel.\<close>  \<open>drive\<close> takes the number of calls of the coroutine: seven for \<open>connect_op\<close>
  (one per resume point) and three for \<open>connect_v4_op\<close> are enough for every stream, and more
  change nothing; a rank on the resume points proves it.  The loops of Asio's composed read and
  write take the length of the buffer plus one, as every round but the last moves a byte or
  fails.  \<open>run_client\<close> needs no fuel: each handler starts an operation of a smaller rank.

  \<^bold>\<open>What the modelling showed.\<close>  The properties include the deviations: the password length of the
  username/password request is the user's (\<open>userpass_request_rfc1929\<close>), SOCKS4 replies are read
  one byte too early (\<open>reply_v4_address_shifted\<close>), long domain names wrap their length
  (\<open>long_domain_truncated\<close>), a reply that arrives with data is refused (\<open>connect_overread\<close>), the
  asynchronous connect hides a read error (\<open>async_masks_read_error\<close>), the server's read of the
  credentials does not end (\<open>server_userpass_never_completes\<close>), its password is shifted
  (\<open>server_password_shifted\<close>), its refusals of malformed requests throw, which lets any client end
  the program (\<open>server_parses_connect\<close>, \<open>one_client_stops_server\<close>), its relay drops what a short write
  leaves (\<open>relay_drops_short_writes\<close>), the clients skip SOCKS for URLs without a usable host
  (\<open>sync_client_skips_socks\<close>, and the lemma \<open>async_client_silent_success\<close>), and they end in an
  exception for IPv6 literals, whose brackets the address parser does not accept
  (\<open>ipv6_literal_ends_clients\<close>).

  \<^bold>\<open>Not modelled.\<close>  Asio, Boost.URL, Boost.Beast and Boost.System are not part of the repository:
  they are arguments, with their documented behaviour as the assumptions of the locales
  \<open>sync_stream\<close>, \<open>raw_stream\<close>, \<open>client_world\<close> and \<open>async_world\<close>, or as the predicate \<open>allowed\<close> on
  the outcomes of the server's operations.  Allocators, executors, completion tokens and
  \<open>shared_ptr\<close> carry no protocol behaviour and are left out, as are the destruction of a
  connection that has no operation in flight and what is printed to \<open>std::cout\<close>.  Functions that
  are declared and not defined (\<open>to_command\<close>, the \<open>to_string\<close> overloads of the enumerations) have
  no model.  The public headers \<open>connect.hpp\<close> and \<open>connect_v4.hpp\<close> declare and document what the
  files under \<open>impl\<close> define.  The unit-test framework and the documentation's snippets assert
  nothing of the protocol.
\<close>

section \<open>The server's bytes in the client\<close>

lemma dialogue:
  assumes "granted c out" and "c_target_local c = Some ep" and "out ! 0 = 0x05"
    and "length out = (if out ! 1 = 0x02 then 4 else 2) + (if is_v6 (ep_address ep) then 22 else 10)"
  obtains m where "out = [0x05, m] @ auth_rx m @ connect_reply_bytes 0 ep" and "out ! 1 = m"
proof -
  have "\<not> prefix (connect_reply_v4_bytes 4 90 ip p) out" for ip p
    using assms(3) by (auto simp: prefix_def connect_reply_v4_bytes_def)
  with assms(1,2) obtain h where h: "greeted h" and "prefix (h @ connect_reply_bytes 0 ep) out"
    by (auto simp: granted_def)
  then obtain zs where out: "out = h @ connect_reply_bytes 0 ep @ zs" by (auto simp: prefix_def)
  from h have "zs = []"
    using assms(4) by (auto simp: out greeted_def length_connect_reply_bytes split: if_splits)
  with h out show ?thesis
    using that [of 0] that [of 2] by (auto simp: greeted_def auth_rx_def)
qed

text \<open>The server has granted a client's request for \<open>127.0.0.1:80\<close>.\<close>

definition demo5_relay :: server_state where
  "demo5_relay = handshake_end (To_endpoint demo_target) [] endpoint_default"

lemma demo5_reachable: "server_reachable demo5_relay"
  unfolding demo5_relay_def
  by (rule server_run_reachable [OF handshake_run server_reachable.start]) simp

section \<open>Properties\<close>

text \<open>
  C18 (client_accepts_server_dialogue).  Whatever has happened on a connection of the server up
  to a SOCKS5 relay, with nothing relayed to the client yet: a client that connects over a
  stream which carries exactly what this server has sent, and that offered the method the
  server chose, with credentials and a target within the limits, succeeds, and is told the
  local endpoint of the server's socket to the target.
\<close>
theorem client_accepts_server_dialogue:
  assumes "server_reachable S" and "opn \<in> set (s_ops S)" and "upstream opn \<or> downstream opn"
    and "c_target_local (s_conn S) = Some ep" and "s_sent S ! 0 = 0x05"
    and "length (s_sent S)
      = (if s_sent S ! 1 = 0x02 then 4 else 2) + (if is_v6 (ep_address ep) then 22 else 10)"
    and "s_sent S ! 1 \<in> set (greeting_methods opt)" and "\<not> oversized_auth opt"
    and "length (connect_request_bytes t) \<le> 513" and "length buf = 513"
  shows "\<exists>s'. connect_to ts_ops (scripted (s_sent S)) buf t opt
    = Inr (ep, make_error_code Err_succeeded, s')"
proof -
  have "\<not> single_ok opn c out" for c out using assms(3) by (cases opn) simp_all
  with server_reachable_inv [OF assms(1)] assms(2) have "granted (s_conn S) (s_sent S)"
    by (auto simp: server_inv_def ops_ok_def relay_ok_def)
  then obtain m where out: "s_sent S = [0x05, m] @ auth_rx m @ connect_reply_bytes 0 ep"
    and m: "s_sent S ! 1 = m"
    by (rule dialogue [OF _ assms(4-6)])
  have "length (s_sent S) \<le> size_max" using assms(6) by (simp add: size_max_def)
  then have quiet: "ts_quiet (scripted (s_sent S))" by simp
  have "length (connect_reply_bytes 0 ep) = 10 \<or> length (connect_reply_bytes 0 ep) = 22"
    by (simp add: length_connect_reply_bytes)
  then have "reply_v5 (take 22 (connect_reply_bytes 0 ep)) = (ep, make_error_code Err_succeeded)"
    by (auto simp: reply_v5_def decode_reply_v5_bytes)
  with connect_to_quiet [OF quiet assms(10,8) _ assms(9), of m "connect_reply_bytes 0 ep"] assms(7) m
  show ?thesis by (auto simp: out)
qed

theorem client_accepts_server_dialogue_witness:
  "\<exists>s'. connect_to ts_ops (scripted (s_sent demo5_relay)) (replicate 513 0)
      (To_endpoint demo_target) auth_none
    = Inr (endpoint_default, make_error_code Err_succeeded, s')"
proof (rule client_accepts_server_dialogue [OF demo5_reachable])
  show "Read_client \<in> set (s_ops demo5_relay)" "upstream Read_client \<or> downstream Read_client"
    "c_target_local (s_conn demo5_relay) = Some endpoint_default"
    by (simp_all add: demo5_relay_def handshake_end_def)
  show "s_sent demo5_relay ! 0 = 0x05" "s_sent demo5_relay ! 1 \<in> set (greeting_methods auth_none)"
    "length (s_sent demo5_relay) = (if s_sent demo5_relay ! 1 = 0x02 then 4 else 2)
      + (if is_v6 (ep_address endpoint_default) then 22 else 10)"
    by (simp_all add: demo5_relay_def handshake_end_def greeting_methods_def length_connect_reply_bytes)
qed (simp_all add: oversized_auth_def length_connect_request_bytes dst_addr_size_endpoint_def)

end
